theory Spec2Isabelle
  imports Complex_Main "HOL-Library.Monad_Syntax" "HOL-Library.Multiset"
begin

section \<open>Arrays\<close>

text \<open>
  The simulation keeps every grid quantity in a two-dimensional numpy array and every
  particle quantity in a one-dimensional one. A two-dimensional array is modelled as
  numpy stores it: a shape and the row-major data, so that \<open>reshape\<close> only
  relabels. A one-dimensional array is a list. The \<open>float64\<close> entries are
  modelled as real numbers; the codec is polymorphic in the entry type.
  An operation that raises in Python (a shape mismatch, an index out of range, a
  singular matrix) returns \<open>None\<close>.
\<close>

datatype 'a arr2 = Arr2 (nrows: nat) (ncols: nat) (dat: "'a list")

definition has_shape :: "'a arr2 \<Rightarrow> nat \<Rightarrow> nat \<Rightarrow> bool" where
  "has_shape a n m = (nrows a = n \<and> ncols a = m \<and> length (dat a) = n * m)"

definition get2 :: "'a arr2 \<Rightarrow> nat \<Rightarrow> nat \<Rightarrow> 'a" where
  "get2 a i j = dat a ! (i * ncols a + j)"

definition mk2 :: "nat \<Rightarrow> nat \<Rightarrow> (nat \<Rightarrow> nat \<Rightarrow> 'a) \<Rightarrow> 'a arr2" where
  "mk2 n m f = Arr2 n m (map (\<lambda>k. f (k div m) (k mod m)) [0..<n * m])"

definition zeros2 :: "nat \<Rightarrow> nat \<Rightarrow> 'a::zero arr2" where
  "zeros2 n m = Arr2 n m (replicate (n * m) 0)"

text \<open>\<open>xs[a:b]\<close> for non-negative bounds: the stop is clipped to the length.\<close>

definition slice1 :: "'a list \<Rightarrow> nat \<Rightarrow> nat \<Rightarrow> 'a list" where
  "slice1 xs a b = take (b - a) (drop a xs)"

text \<open>
  \<open>ys[a:b] = rhs\<close>: the right-hand side has the length of the slice, or length one
  (numpy then broadcasts it); anything else raises \<open>ValueError\<close>.
\<close>

definition assign1 :: "'a list \<Rightarrow> nat \<Rightarrow> nat \<Rightarrow> 'a list \<Rightarrow> 'a list option" where
  "assign1 ys a b rhs =
     (let n = length (slice1 ys a b) in
      if length rhs = n then Some (take a ys @ rhs @ drop (a + n) ys)
      else if length rhs = 1 then Some (take a ys @ replicate n (hd rhs) @ drop (a + n) ys)
      else None)"

text \<open>\<open>a.reshape(k)\<close> and \<open>np.reshape(v, (n, m))\<close>: the sizes must agree.\<close>

definition reshape_flat :: "'a arr2 \<Rightarrow> nat \<Rightarrow> 'a list option" where
  "reshape_flat a k = (if nrows a * ncols a = k then Some (dat a) else None)"

definition reshape2 :: "'a list \<Rightarrow> nat \<Rightarrow> nat \<Rightarrow> 'a arr2 option" where
  "reshape2 v n m = (if length v = n * m then Some (Arr2 n m v) else None)"

section \<open>Parameters\<close>

text \<open>
  The module-level parameters of the scripts. \<open>nxn = nxc + 1\<close>, \<open>nyn = nyc + 1\<close>,
  \<open>dx = Lx / nxc\<close> and \<open>dy = Ly / nyc\<close> are derived as the scripts derive them.
\<close>

record params =
  nxc :: nat
  nyc :: nat
  Lx :: real
  Ly :: real
  dt :: real
  npart :: nat
  relativistic :: bool

definition nxn :: "params \<Rightarrow> nat" where "nxn P = nxc P + 1"
definition nyn :: "params \<Rightarrow> nat" where "nyn P = nyc P + 1"
definition dx :: "params \<Rightarrow> real" where "dx P = Lx P / real (nxc P)"
definition dy :: "params \<Rightarrow> real" where "dy P = Ly P / real (nyc P)"

definition wf_params :: "params \<Rightarrow> bool" where
  "wf_params P = (0 < nxc P \<and> 0 < nyc P \<and> 0 < Lx P \<and> 0 < Ly P)"

section \<open>The Krylov vector codec\<close>

definition phys_to_krylov ::
  "params \<Rightarrow> 'a::zero arr2 \<Rightarrow> 'a arr2 \<Rightarrow> 'a arr2 \<Rightarrow> 'a list \<Rightarrow> 'a list \<Rightarrow> 'a list
     \<Rightarrow> 'a list option" where
  "phys_to_krylov P Exk Eyk Ezk uk vk wk = do {
     let y0 = replicate (nxn P * nyc P + nxc P * nyn P + nxc P * nyc P + 3 * npart P) 0;
     ex \<leftarrow> reshape_flat Exk (nxn P * nyc P);
     y1 \<leftarrow> assign1 y0 0 (nxn P * nyc P) ex;
     ey \<leftarrow> reshape_flat Eyk (nxc P * nyn P);
     y2 \<leftarrow> assign1 y1 (nxn P * nyc P) (nxn P * nyc P + nxc P * nyn P) ey;
     ez \<leftarrow> reshape_flat Ezk (nxc P * nyc P);
     y3 \<leftarrow> assign1 y2 (nxn P * nyc P + nxc P * nyn P)
             (nxn P * nyc P + nxc P * nyn P + nxc P * nyc P) ez;
     y4 \<leftarrow> assign1 y3 (nxn P * nyc P + nxc P * nyn P + nxc P * nyc P)
             (nxn P * nyc P + nxc P * nyn P + nxc P * nyc P + npart P) uk;
     y5 \<leftarrow> assign1 y4 (nxn P * nyc P + nxc P * nyn P + nxc P * nyc P + npart P)
             (nxn P * nyc P + nxc P * nyn P + nxc P * nyc P + 2 * npart P) vk;
     assign1 y5 (nxn P * nyc P + nxc P * nyn P + nxc P * nyc P + 2 * npart P)
             (nxn P * nyc P + nxc P * nyn P + nxc P * nyc P + 3 * npart P) wk
   }"

definition krylov_to_phys ::
  "params \<Rightarrow> 'a list
     \<Rightarrow> ('a arr2 \<times> 'a arr2 \<times> 'a arr2 \<times> 'a list \<times> 'a list \<times> 'a list) option" where
  "krylov_to_phys P xkrylov = do {
     Exk \<leftarrow> reshape2 (slice1 xkrylov 0 (nxn P * nyc P)) (nxn P) (nyc P);
     Eyk \<leftarrow> reshape2 (slice1 xkrylov (nxn P * nyc P) (nxn P * nyc P + nxc P * nyn P))
              (nxc P) (nyn P);
     Ezk \<leftarrow> reshape2 (slice1 xkrylov (nxn P * nyc P + nxc P * nyn P)
                        (nxn P * nyc P + nxc P * nyn P + nxc P * nyc P)) (nxc P) (nyc P);
     let uk = slice1 xkrylov (nxn P * nyc P + nxc P * nyn P + nxc P * nyc P)
                (nxn P * nyc P + nxc P * nyn P + nxc P * nyc P + npart P);
     let vk = slice1 xkrylov (nxn P * nyc P + nxc P * nyn P + nxc P * nyc P + npart P)
                (nxn P * nyc P + nxc P * nyn P + nxc P * nyc P + 2 * npart P);
     let wk = slice1 xkrylov (nxn P * nyc P + nxc P * nyn P + nxc P * nyc P + 2 * npart P)
                (nxn P * nyc P + nxc P * nyn P + nxc P * nyc P + 3 * npart P);
     Some (Exk, Eyk, Ezk, uk, vk, wk)
   }"

definition krylov_len :: "params \<Rightarrow> nat" where
  "krylov_len P = nxn P * nyc P + nxc P * nyn P + nxc P * nyc P + 3 * npart P"

section \<open>Facts about the array primitives\<close>

lemma has_shape_Arr2 [simp]: "has_shape (Arr2 n m d) n' m' = (n = n' \<and> m = m' \<and> length d = n' * m')"
  by (auto simp: has_shape_def)

lemma has_shapeD:
  "has_shape a n m \<Longrightarrow> nrows a = n" "has_shape a n m \<Longrightarrow> ncols a = m"
  "has_shape a n m \<Longrightarrow> length (dat a) = n * m"
  by (simp_all add: has_shape_def)

lemma has_shape_eq: "has_shape a n m \<Longrightarrow> Arr2 n m (dat a) = a"
  by (cases a) (simp add: has_shape_def)

lemma assign1_exact:
  "length rhs = b - a \<Longrightarrow> a \<le> b \<Longrightarrow> b \<le> length ys \<Longrightarrow>
   assign1 ys a b rhs = Some (take a ys @ rhs @ drop b ys)"
  by (simp add: assign1_def slice1_def Let_def)

lemma phys_to_krylov_concat:
  assumes "has_shape Exk (nxn P) (nyc P)" "has_shape Eyk (nxc P) (nyn P)"
    "has_shape Ezk (nxc P) (nyc P)"
    "length uk = npart P" "length vk = npart P" "length wk = npart P"
  shows "phys_to_krylov P Exk Eyk Ezk uk vk wk =
           Some (dat Exk @ dat Eyk @ dat Ezk @ uk @ vk @ wk)"
  using assms
  by (simp add: phys_to_krylov_def reshape_flat_def has_shape_def assign1_exact Let_def)

lemma krylov_to_phys_concat:
  assumes "length ex = nxn P * nyc P" "length ey = nxc P * nyn P"
    "length ez = nxc P * nyc P"
    "length uk = npart P" "length vk = npart P" "length wk = npart P"
  shows "krylov_to_phys P (ex @ ey @ ez @ uk @ vk @ wk) =
           Some (Arr2 (nxn P) (nyc P) ex, Arr2 (nxc P) (nyn P) ey, Arr2 (nxc P) (nyc P) ez,
                 uk, vk, wk)"
  using assms
  by (simp add: krylov_to_phys_def reshape2_def slice1_def Let_def)

section \<open>Round trip of the codec\<close>

text \<open>
  C3. Encoding three field arrays of shapes \<open>(nxn, nyc)\<close>, \<open>(nxc, nyn)\<close>,
  \<open>(nxc, nyc)\<close> and three velocity arrays of length \<open>npart\<close> with
  \<open>phys_to_krylov\<close> succeeds, and decoding the result with \<open>krylov_to_phys\<close>
  returns the six inputs unchanged, whatever the entries are.
\<close>

theorem codec_round_trip:
  assumes "has_shape Exk (nxn P) (nyc P)" "has_shape Eyk (nxc P) (nyn P)"
    "has_shape Ezk (nxc P) (nyc P)"
    "length uk = npart P" "length vk = npart P" "length wk = npart P"
  shows "\<exists>y. phys_to_krylov P Exk Eyk Ezk uk vk wk = Some y \<and>
             krylov_to_phys P y = Some (Exk, Eyk, Ezk, uk, vk, wk)"
proof -
  have enc: "phys_to_krylov P Exk Eyk Ezk uk vk wk =
               Some (dat Exk @ dat Eyk @ dat Ezk @ uk @ vk @ wk)"
    using assms by (rule phys_to_krylov_concat)
  have dec: "krylov_to_phys P (dat Exk @ dat Eyk @ dat Ezk @ uk @ vk @ wk) =
               Some (Arr2 (nxn P) (nyc P) (dat Exk), Arr2 (nxc P) (nyn P) (dat Eyk),
                     Arr2 (nxc P) (nyc P) (dat Ezk), uk, vk, wk)"
    using assms by (intro krylov_to_phys_concat) (simp_all add: has_shape_def)
  show ?thesis
    using enc dec assms(1-3) by (simp add: has_shape_eq)
qed

definition P11 :: params where
  "P11 = \<lparr>nxc = 1, nyc = 1, Lx = 1, Ly = 1, dt = 1, npart = 1, relativistic = False\<rparr>"

theorem codec_round_trip_witness:
  "\<exists>y. phys_to_krylov P11 (Arr2 2 1 [1, 2::real]) (Arr2 1 2 [3, 4]) (Arr2 1 1 [5]) [6] [7] [8]
          = Some y \<and>
        krylov_to_phys P11 y
          = Some (Arr2 2 1 [1, 2], Arr2 1 2 [3, 4], Arr2 1 1 [5], [6], [7], [8])"
  using codec_round_trip [of "Arr2 2 1 [1, 2::real]" P11 "Arr2 1 2 [3, 4]" "Arr2 1 1 [5]"
      "[6]" "[7]" "[8]"]
  by (simp add: P11_def nxn_def nyn_def)

section \<open>Two-dimensional slices and element-wise operations\<close>

text \<open>
  \<open>a[r0:r1, c0:c1]\<close> clips both ranges to the shape and never raises.
  \<open>a[r0:r1, j]\<close> and \<open>a[i, c0:c1]\<close> raise \<open>IndexError\<close> when the integer
  index is out of range. Binary operations and slice assignments follow numpy's
  broadcasting: two extents must be equal or one of them is 1.
\<close>

definition slice2 :: "'a arr2 \<Rightarrow> nat \<Rightarrow> nat \<Rightarrow> nat \<Rightarrow> nat \<Rightarrow> 'a arr2" where
  "slice2 a r0 r1 c0 c1 =
     (let r0' = min r0 (nrows a); r1' = min r1 (nrows a);
          c0' = min c0 (ncols a); c1' = min c1 (ncols a)
      in mk2 (r1' - r0') (c1' - c0') (\<lambda>i j. get2 a (r0' + i) (c0' + j)))"

definition col2 :: "'a arr2 \<Rightarrow> nat \<Rightarrow> nat \<Rightarrow> nat \<Rightarrow> 'a list option" where
  "col2 a r0 r1 j =
     (if j < ncols a then Some (map (\<lambda>i. get2 a i j) [min r0 (nrows a)..<min r1 (nrows a)])
      else None)"

definition row2 :: "'a arr2 \<Rightarrow> nat \<Rightarrow> nat \<Rightarrow> nat \<Rightarrow> 'a list option" where
  "row2 a i c0 c1 =
     (if i < nrows a then Some (map (\<lambda>j. get2 a i j) [min c0 (ncols a)..<min c1 (ncols a)])
      else None)"

definition bdim :: "nat \<Rightarrow> nat \<Rightarrow> nat option" where
  "bdim n m = (if n = m then Some n else if n = 1 then Some m else if m = 1 then Some n else None)"

definition ew2 :: "('a \<Rightarrow> 'b \<Rightarrow> 'c) \<Rightarrow> 'a arr2 \<Rightarrow> 'b arr2 \<Rightarrow> 'c arr2 option" where
  "ew2 f a b = do {
     n \<leftarrow> bdim (nrows a) (nrows b);
     m \<leftarrow> bdim (ncols a) (ncols b);
     Some (mk2 n m (\<lambda>i j.
       f (get2 a (if nrows a = 1 then 0 else i) (if ncols a = 1 then 0 else j))
         (get2 b (if nrows b = 1 then 0 else i) (if ncols b = 1 then 0 else j))))
   }"

definition ew1 :: "('a \<Rightarrow> 'b \<Rightarrow> 'c) \<Rightarrow> 'a list \<Rightarrow> 'b list \<Rightarrow> 'c list option" where
  "ew1 f xs ys = do {
     n \<leftarrow> bdim (length xs) (length ys);
     Some (map (\<lambda>i. f (xs ! (if length xs = 1 then 0 else i))
                       (ys ! (if length ys = 1 then 0 else i))) [0..<n])
   }"

definition smap2 :: "('a \<Rightarrow> 'b) \<Rightarrow> 'a arr2 \<Rightarrow> 'b arr2" where
  "smap2 f a = Arr2 (nrows a) (ncols a) (map f (dat a))"

definition assign2 :: "'a arr2 \<Rightarrow> nat \<Rightarrow> nat \<Rightarrow> nat \<Rightarrow> nat \<Rightarrow> 'a arr2 \<Rightarrow> 'a arr2 option" where
  "assign2 a r0 r1 c0 c1 rhs =
     (let r0' = min r0 (nrows a); r1' = min r1 (nrows a);
          c0' = min c0 (ncols a); c1' = min c1 (ncols a)
      in if (nrows rhs = r1' - r0' \<or> nrows rhs = 1) \<and> (ncols rhs = c1' - c0' \<or> ncols rhs = 1)
         then Some (mk2 (nrows a) (ncols a) (\<lambda>i j.
                if r0' \<le> i \<and> i < r1' \<and> c0' \<le> j \<and> j < c1'
                then get2 rhs (if nrows rhs = 1 then 0 else i - r0')
                              (if ncols rhs = 1 then 0 else j - c0')
                else get2 a i j))
         else None)"

definition assign_col :: "'a arr2 \<Rightarrow> nat \<Rightarrow> nat \<Rightarrow> nat \<Rightarrow> 'a list \<Rightarrow> 'a arr2 option" where
  "assign_col a r0 r1 j v =
     (let r0' = min r0 (nrows a); r1' = min r1 (nrows a)
      in if j < ncols a \<and> (length v = r1' - r0' \<or> length v = 1)
         then Some (mk2 (nrows a) (ncols a) (\<lambda>i k.
                if r0' \<le> i \<and> i < r1' \<and> k = j
                then v ! (if length v = 1 then 0 else i - r0')
                else get2 a i k))
         else None)"

definition assign_row :: "'a arr2 \<Rightarrow> nat \<Rightarrow> nat \<Rightarrow> nat \<Rightarrow> 'a list \<Rightarrow> 'a arr2 option" where
  "assign_row a i c0 c1 v =
     (let c0' = min c0 (ncols a); c1' = min c1 (ncols a)
      in if i < nrows a \<and> (length v = c1' - c0' \<or> length v = 1)
         then Some (mk2 (nrows a) (ncols a) (\<lambda>k j.
                if k = i \<and> c0' \<le> j \<and> j < c1'
                then v ! (if length v = 1 then 0 else j - c0')
                else get2 a k j))
         else None)"

lemma has_shape_mk2 [simp]: "has_shape (mk2 n m f) n m"
  by (simp add: mk2_def)

lemma nrows_mk2 [simp]: "nrows (mk2 n m f) = n" and ncols_mk2 [simp]: "ncols (mk2 n m f) = m"
  by (simp_all add: mk2_def)

lemma idx_bound: "i < n \<Longrightarrow> j < m \<Longrightarrow> i * m + j < n * (m::nat)"
proof -
  assume a: "i < n" "j < m"
  then have "i * m + j < i * m + m" by simp
  also have "\<dots> = (i + 1) * m" by simp
  also have "\<dots> \<le> n * m" using a(1) by (intro mult_le_mono1) simp
  finally show ?thesis .
qed

lemma get2_mk2 [simp]: "i < n \<Longrightarrow> j < m \<Longrightarrow> get2 (mk2 n m f) i j = f i j"
  by (simp add: get2_def mk2_def idx_bound)

lemma div_mod_bound: "k < n * (m::nat) \<Longrightarrow> k div m < n \<and> k mod m < m"
  by (cases "m = 0") (simp_all add: less_mult_imp_div_less)

lemma mk2_cong: "(\<And>i j. i < n \<Longrightarrow> j < m \<Longrightarrow> f i j = g i j) \<Longrightarrow> mk2 n m f = mk2 n m g"
  unfolding mk2_def
  by (auto intro!: map_cong simp: div_mod_bound)

lemma mk2_get2: "has_shape a n m \<Longrightarrow> mk2 n m (get2 a) = a"
  apply (cases a)
  apply (simp add: mk2_def get2_def)
  apply (rule nth_equalityI)
   apply simp_all
  done

lemma arr2_eqI:
  "has_shape a n m \<Longrightarrow> has_shape b n m \<Longrightarrow>
   (\<And>i j. i < n \<Longrightarrow> j < m \<Longrightarrow> get2 a i j = get2 b i j) \<Longrightarrow> a = b"
  by (metis mk2_cong mk2_get2)

lemma has_shape_zeros2 [simp]: "has_shape (zeros2 n m) n m"
  by (simp add: zeros2_def)

lemma get2_zeros2 [simp]: "i < n \<Longrightarrow> j < m \<Longrightarrow> get2 (zeros2 n m) i j = 0"
  by (simp add: zeros2_def get2_def idx_bound)

lemma nrows_smap2 [simp]: "nrows (smap2 f a) = nrows a"
  and ncols_smap2 [simp]: "ncols (smap2 f a) = ncols a"
  and length_dat_smap2 [simp]: "length (dat (smap2 f a)) = length (dat a)"
  by (simp_all add: smap2_def)

lemma has_shape_smap2 [simp]: "has_shape a n m \<Longrightarrow> has_shape (smap2 f a) n m"
  by (simp add: smap2_def has_shape_def)

lemma get2_smap2 [simp]:
  "length (dat a) = nrows a * ncols a \<Longrightarrow> i < nrows a \<Longrightarrow> j < ncols a \<Longrightarrow>
   get2 (smap2 f a) i j = f (get2 a i j)"
  by (simp add: smap2_def get2_def idx_bound)

lemma length_dat_mk2 [simp]: "length (dat (mk2 n m f)) = n * m"
  by (simp add: mk2_def)

lemma nrows_zeros2 [simp]: "nrows (zeros2 n m) = n"
  and ncols_zeros2 [simp]: "ncols (zeros2 n m) = m"
  and length_dat_zeros2 [simp]: "length (dat (zeros2 n m)) = n * m"
  by (simp_all add: zeros2_def)

lemma slice2_shape:
  "r0 \<le> r1 \<Longrightarrow> r1 \<le> nrows a \<Longrightarrow> c0 \<le> c1 \<Longrightarrow> c1 \<le> ncols a \<Longrightarrow>
   slice2 a r0 r1 c0 c1 = mk2 (r1 - r0) (c1 - c0) (\<lambda>i j. get2 a (r0 + i) (c0 + j))"
  by (simp add: slice2_def Let_def min_def)

lemma ew2_same:
  "nrows a = nrows b \<Longrightarrow> ncols a = ncols b \<Longrightarrow>
   ew2 f a b = Some (mk2 (nrows a) (ncols a) (\<lambda>i j. f (get2 a i j) (get2 b i j)))"
  by (auto simp: ew2_def bdim_def intro!: mk2_cong)

lemma ew1_same:
  "length xs = length ys \<Longrightarrow> ew1 f xs ys = Some (map2 f xs ys)"
  by (auto simp: ew1_def bdim_def intro!: nth_equalityI)

lemma assign2_shape:
  "nrows rhs = r1 - r0 \<Longrightarrow> ncols rhs = c1 - c0 \<Longrightarrow>
   r0 \<le> r1 \<Longrightarrow> r1 \<le> nrows a \<Longrightarrow> c0 \<le> c1 \<Longrightarrow> c1 \<le> ncols a \<Longrightarrow>
   assign2 a r0 r1 c0 c1 rhs =
     Some (mk2 (nrows a) (ncols a) (\<lambda>i j. if r0 \<le> i \<and> i < r1 \<and> c0 \<le> j \<and> j < c1
                          then get2 rhs (i - r0) (j - c0) else get2 a i j))"
  by (auto simp: assign2_def Let_def min_def intro!: mk2_cong)

lemma col2_shape:
  "j < ncols a \<Longrightarrow> r0 \<le> r1 \<Longrightarrow> r1 \<le> nrows a \<Longrightarrow>
   col2 a r0 r1 j = Some (map (\<lambda>i. get2 a i j) [r0..<r1])"
  by (simp add: col2_def min_def)

lemma row2_shape:
  "i < nrows a \<Longrightarrow> c0 \<le> c1 \<Longrightarrow> c1 \<le> ncols a \<Longrightarrow>
   row2 a i c0 c1 = Some (map (\<lambda>j. get2 a i j) [c0..<c1])"
  by (simp add: row2_def min_def)

lemma assign_col_shape:
  "j < ncols a \<Longrightarrow> r0 \<le> r1 \<Longrightarrow> r1 \<le> nrows a \<Longrightarrow> length v = r1 - r0 \<Longrightarrow>
   assign_col a r0 r1 j v =
     Some (mk2 (nrows a) (ncols a)
            (\<lambda>i k. if r0 \<le> i \<and> i < r1 \<and> k = j then v ! (i - r0) else get2 a i k))"
  by (auto simp: assign_col_def Let_def min_def intro!: mk2_cong)

lemma assign_row_shape:
  "i < nrows a \<Longrightarrow> c0 \<le> c1 \<Longrightarrow> c1 \<le> ncols a \<Longrightarrow> length v = c1 - c0 \<Longrightarrow>
   assign_row a i c0 c1 v =
     Some (mk2 (nrows a) (ncols a)
            (\<lambda>k j. if k = i \<and> c0 \<le> j \<and> j < c1 then v ! (j - c0) else get2 a k j))"
  by (auto simp: assign_row_def Let_def min_def intro!: mk2_cong)

lemmas prim_shapes = slice2_shape ew2_same ew1_same assign2_shape col2_shape row2_shape
  assign_col_shape assign_row_shape

section \<open>Averages and directional derivatives\<close>

text \<open>
  The string tags of \<open>avg\<close> and \<open>dirder\<close> (source grid, destination grid) are an
  enumeration. The scripts compute \<open>dx = Lx / nxc\<close> and \<open>dy = Ly / nyc\<close> when they
  load, so \<open>nxc\<close> and \<open>nyc\<close> are positive wherever a function below runs.
\<close>

datatype stencil = C2UD | C2LR | UD2N | LR2N | N2LR | N2UD | LR2C | UD2C

fun avg :: "params \<Rightarrow> real arr2 \<Rightarrow> stencil \<Rightarrow> real arr2 option" where
  "avg P field C2UD = do {
     let avgfield = zeros2 (nxc P) (nyn P);
     s \<leftarrow> ew2 (+) (slice2 field 0 (nxc P) 1 (nyc P)) (slice2 field 0 (nxc P) 0 (nyc P - 1));
     avgfield \<leftarrow> assign2 avgfield 0 (nxc P) 1 (nyn P - 1) (smap2 (\<lambda>v. v / 2) s);
     c0 \<leftarrow> col2 field 0 (nxc P) 0;
     c1 \<leftarrow> col2 field 0 (nxc P) (nyc P - 1);
     t \<leftarrow> ew1 (+) c0 c1;
     avgfield \<leftarrow> assign_col avgfield 0 (nxc P) 0 (map (\<lambda>v. v / 2) t);
     c \<leftarrow> col2 avgfield 0 (nxc P) 0;
     assign_col avgfield 0 (nxc P) (nyn P - 1) c
   }"
| "avg P field C2LR = do {
     let avgfield = zeros2 (nxn P) (nyc P);
     s \<leftarrow> ew2 (+) (slice2 field 1 (nxc P) 0 (nyc P)) (slice2 field 0 (nxc P - 1) 0 (nyc P));
     avgfield \<leftarrow> assign2 avgfield 1 (nxn P - 1) 0 (nyc P) (smap2 (\<lambda>v. v / 2) s);
     r0 \<leftarrow> row2 field 0 0 (nyc P);
     r1 \<leftarrow> row2 field (nxc P - 1) 0 (nyc P);
     t \<leftarrow> ew1 (+) r0 r1;
     avgfield \<leftarrow> assign_row avgfield 0 0 (nyc P) (map (\<lambda>v. v / 2) t);
     r \<leftarrow> row2 avgfield 0 0 (nyc P);
     assign_row avgfield (nxn P - 1) 0 (nyc P) r
   }"
| "avg P field UD2N = do {
     let avgfield = zeros2 (nxn P) (nyn P);
     s \<leftarrow> ew2 (+) (slice2 field 1 (nxc P) 0 (nyn P)) (slice2 field 0 (nxc P - 1) 0 (nyn P));
     avgfield \<leftarrow> assign2 avgfield 1 (nxn P - 1) 0 (nyn P) (smap2 (\<lambda>v. v / 2) s);
     r0 \<leftarrow> row2 field 0 0 (nyn P);
     r1 \<leftarrow> row2 field (nxc P - 1) 0 (nyn P);
     t \<leftarrow> ew1 (+) r0 r1;
     avgfield \<leftarrow> assign_row avgfield 0 0 (nyn P) (map (\<lambda>v. v / 2) t);
     r \<leftarrow> row2 avgfield 0 0 (nyn P);
     assign_row avgfield (nxn P - 1) 0 (nyn P) r
   }"
| "avg P field LR2N = do {
     let avgfield = zeros2 (nxn P) (nyn P);
     s \<leftarrow> ew2 (+) (slice2 field 0 (nxn P) 1 (nyc P)) (slice2 field 0 (nxn P) 0 (nyc P - 1));
     avgfield \<leftarrow> assign2 avgfield 0 (nxn P) 1 (nyn P - 1) (smap2 (\<lambda>v. v / 2) s);
     c0 \<leftarrow> col2 field 0 (nxn P) 0;
     c1 \<leftarrow> col2 field 0 (nxn P) (nyc P - 1);
     t \<leftarrow> ew1 (+) c0 c1;
     avgfield \<leftarrow> assign_col avgfield 0 (nxn P) 0 (map (\<lambda>v. v / 2) t);
     c \<leftarrow> col2 avgfield 0 (nxn P) 0;
     assign_col avgfield 0 (nxn P) (nyn P - 1) c
   }"
| "avg P field N2LR = do {
     let avgfield = zeros2 (nxn P) (nyc P);
     s \<leftarrow> ew2 (+) (slice2 field 0 (nxn P) 1 (nyn P)) (slice2 field 0 (nxn P) 0 (nyn P - 1));
     assign2 avgfield 0 (nxn P) 0 (nyc P) (smap2 (\<lambda>v. v / 2) s)
   }"
| "avg P field N2UD = do {
     let avgfield = zeros2 (nxc P) (nyn P);
     s \<leftarrow> ew2 (+) (slice2 field 1 (nxn P) 0 (nyn P)) (slice2 field 0 (nxn P - 1) 0 (nyn P));
     assign2 avgfield 0 (nxc P) 0 (nyn P) (smap2 (\<lambda>v. v / 2) s)
   }"
| "avg P field LR2C = do {
     let avgfield = zeros2 (nxc P) (nyc P);
     s \<leftarrow> ew2 (+) (slice2 field 1 (nxn P) 0 (nyc P)) (slice2 field 0 (nxn P - 1) 0 (nyc P));
     assign2 avgfield 0 (nxc P) 0 (nyc P) (smap2 (\<lambda>v. v / 2) s)
   }"
| "avg P field UD2C = do {
     let avgfield = zeros2 (nxc P) (nyc P);
     s \<leftarrow> ew2 (+) (slice2 field 0 (nxc P) 1 (nyn P)) (slice2 field 0 (nxc P) 0 (nyn P - 1));
     assign2 avgfield 0 (nxc P) 0 (nyc P) (smap2 (\<lambda>v. v / 2) s)
   }"

fun dirder :: "params \<Rightarrow> real arr2 \<Rightarrow> stencil \<Rightarrow> real arr2 option" where
  "dirder P field C2UD = do {
     let derfield = zeros2 (nxc P) (nyn P);
     s \<leftarrow> ew2 (-) (slice2 field 0 (nxc P) 1 (nyc P)) (slice2 field 0 (nxc P) 0 (nyc P - 1));
     derfield \<leftarrow> assign2 derfield 0 (nxc P) 1 (nyn P - 1) (smap2 (\<lambda>v. v / dy P) s);
     c0 \<leftarrow> col2 field 0 (nxc P) 0;
     c1 \<leftarrow> col2 field 0 (nxc P) (nyc P - 1);
     t \<leftarrow> ew1 (-) c0 c1;
     derfield \<leftarrow> assign_col derfield 0 (nxc P) 0 (map (\<lambda>v. v / dy P) t);
     c \<leftarrow> col2 derfield 0 (nxc P) 0;
     assign_col derfield 0 (nxc P) (nyn P - 1) c
   }"
| "dirder P field C2LR = do {
     let derfield = zeros2 (nxn P) (nyc P);
     s \<leftarrow> ew2 (-) (slice2 field 1 (nxc P) 0 (nyc P)) (slice2 field 0 (nxc P - 1) 0 (nyc P));
     derfield \<leftarrow> assign2 derfield 1 (nxn P - 1) 0 (nyc P) (smap2 (\<lambda>v. v / dx P) s);
     r0 \<leftarrow> row2 field 0 0 (nyc P);
     r1 \<leftarrow> row2 field (nxc P - 1) 0 (nyc P);
     t \<leftarrow> ew1 (-) r0 r1;
     derfield \<leftarrow> assign_row derfield 0 0 (nyc P) (map (\<lambda>v. v / dx P) t);
     r \<leftarrow> row2 derfield 0 0 (nyc P);
     assign_row derfield (nxn P - 1) 0 (nyc P) r
   }"
| "dirder P field UD2N = do {
     let derfield = zeros2 (nxn P) (nyn P);
     s \<leftarrow> ew2 (-) (slice2 field 1 (nxc P) 0 (nyn P)) (slice2 field 0 (nxc P - 1) 0 (nyn P));
     derfield \<leftarrow> assign2 derfield 1 (nxn P - 1) 0 (nyn P) (smap2 (\<lambda>v. v / dx P) s);
     r0 \<leftarrow> row2 field 0 0 (nyn P);
     r1 \<leftarrow> row2 field (nxc P - 1) 0 (nyn P);
     t \<leftarrow> ew1 (-) r0 r1;
     derfield \<leftarrow> assign_row derfield 0 0 (nyn P) (map (\<lambda>v. v / dx P) t);
     r \<leftarrow> row2 derfield 0 0 (nyn P);
     assign_row derfield (nxn P - 1) 0 (nyn P) r
   }"
| "dirder P field LR2N = do {
     let derfield = zeros2 (nxn P) (nyn P);
     s \<leftarrow> ew2 (-) (slice2 field 0 (nxn P) 1 (nyc P)) (slice2 field 0 (nxn P) 0 (nyc P - 1));
     derfield \<leftarrow> assign2 derfield 0 (nxn P) 1 (nyn P - 1) (smap2 (\<lambda>v. v / dy P) s);
     c0 \<leftarrow> col2 field 0 (nxn P) 0;
     c1 \<leftarrow> col2 field 0 (nxn P) (nyc P - 1);
     t \<leftarrow> ew1 (-) c0 c1;
     derfield \<leftarrow> assign_col derfield 0 (nxn P) 0 (map (\<lambda>v. v / dy P) t);
     c \<leftarrow> col2 derfield 0 (nxn P) 0;
     assign_col derfield 0 (nxn P) (nyn P - 1) c
   }"
| "dirder P field N2LR = do {
     let derfield = zeros2 (nxn P) (nyc P);
     s \<leftarrow> ew2 (-) (slice2 field 0 (nxn P) 1 (nyn P)) (slice2 field 0 (nxn P) 0 (nyn P - 1));
     assign2 derfield 0 (nxn P) 0 (nyc P) (smap2 (\<lambda>v. v / dy P) s)
   }"
| "dirder P field N2UD = do {
     let derfield = zeros2 (nxc P) (nyn P);
     s \<leftarrow> ew2 (-) (slice2 field 1 (nxn P) 0 (nyn P)) (slice2 field 0 (nxn P - 1) 0 (nyn P));
     assign2 derfield 0 (nxc P) 0 (nyn P) (smap2 (\<lambda>v. v / dx P) s)
   }"
| "dirder P field LR2C = do {
     let derfield = zeros2 (nxc P) (nyc P);
     s \<leftarrow> ew2 (-) (slice2 field 1 (nxn P) 0 (nyc P)) (slice2 field 0 (nxn P - 1) 0 (nyc P));
     assign2 derfield 0 (nxc P) 0 (nyc P) (smap2 (\<lambda>v. v / dx P) s)
   }"
| "dirder P field UD2C = do {
     let derfield = zeros2 (nxc P) (nyc P);
     s \<leftarrow> ew2 (-) (slice2 field 0 (nxc P) 1 (nyn P)) (slice2 field 0 (nxc P) 0 (nyn P - 1));
     assign2 derfield 0 (nxc P) 0 (nyc P) (smap2 (\<lambda>v. v / dy P) s)
   }"

text \<open>
  Closed forms of the eight variants: the four that wrap around the periodic axis
  (\<open>wrap_y\<close>, \<open>wrap_x\<close>) and the four that difference neighbouring source points
  (\<open>fwd_y\<close>, \<open>fwd_x\<close>).
\<close>

definition wrap_y :: "nat \<Rightarrow> nat \<Rightarrow> (real \<Rightarrow> real \<Rightarrow> real) \<Rightarrow> real \<Rightarrow> real arr2 \<Rightarrow> real arr2" where
  "wrap_y n m opr c f = mk2 n (m + 1) (\<lambda>i j.
     if j = 0 \<or> j = m then opr (get2 f i 0) (get2 f i (m - 1)) / c
     else opr (get2 f i j) (get2 f i (j - 1)) / c)"

definition wrap_x :: "nat \<Rightarrow> nat \<Rightarrow> (real \<Rightarrow> real \<Rightarrow> real) \<Rightarrow> real \<Rightarrow> real arr2 \<Rightarrow> real arr2" where
  "wrap_x n m opr c f = mk2 (n + 1) m (\<lambda>i j.
     if i = 0 \<or> i = n then opr (get2 f 0 j) (get2 f (n - 1) j) / c
     else opr (get2 f i j) (get2 f (i - 1) j) / c)"

definition fwd_y :: "nat \<Rightarrow> nat \<Rightarrow> (real \<Rightarrow> real \<Rightarrow> real) \<Rightarrow> real \<Rightarrow> real arr2 \<Rightarrow> real arr2" where
  "fwd_y n m opr c f = mk2 n m (\<lambda>i j. opr (get2 f i (j + 1)) (get2 f i j) / c)"

definition fwd_x :: "nat \<Rightarrow> nat \<Rightarrow> (real \<Rightarrow> real \<Rightarrow> real) \<Rightarrow> real \<Rightarrow> real arr2 \<Rightarrow> real arr2" where
  "fwd_x n m opr c f = mk2 n m (\<lambda>i j. opr (get2 f (i + 1) j) (get2 f i j) / c)"

fun stencil_src :: "params \<Rightarrow> stencil \<Rightarrow> nat \<times> nat" where
  "stencil_src P C2UD = (nxc P, nyc P)"
| "stencil_src P C2LR = (nxc P, nyc P)"
| "stencil_src P UD2N = (nxc P, nyn P)"
| "stencil_src P LR2N = (nxn P, nyc P)"
| "stencil_src P N2LR = (nxn P, nyn P)"
| "stencil_src P N2UD = (nxn P, nyn P)"
| "stencil_src P LR2C = (nxn P, nyc P)"
| "stencil_src P UD2C = (nxc P, nyn P)"

fun stencil_dst :: "params \<Rightarrow> stencil \<Rightarrow> nat \<times> nat" where
  "stencil_dst P C2UD = (nxc P, nyn P)"
| "stencil_dst P C2LR = (nxn P, nyc P)"
| "stencil_dst P UD2N = (nxn P, nyn P)"
| "stencil_dst P LR2N = (nxn P, nyn P)"
| "stencil_dst P N2LR = (nxn P, nyc P)"
| "stencil_dst P N2UD = (nxc P, nyn P)"
| "stencil_dst P LR2C = (nxc P, nyc P)"
| "stencil_dst P UD2C = (nxc P, nyc P)"

fun stencil_closed ::
  "params \<Rightarrow> (real \<Rightarrow> real \<Rightarrow> real) \<Rightarrow> real \<Rightarrow> real \<Rightarrow> real arr2 \<Rightarrow> stencil \<Rightarrow> real arr2" where
  "stencil_closed P opr cx cy f C2UD = wrap_y (nxc P) (nyc P) opr cy f"
| "stencil_closed P opr cx cy f C2LR = wrap_x (nxc P) (nyc P) opr cx f"
| "stencil_closed P opr cx cy f UD2N = wrap_x (nxc P) (nyn P) opr cx f"
| "stencil_closed P opr cx cy f LR2N = wrap_y (nxn P) (nyc P) opr cy f"
| "stencil_closed P opr cx cy f N2LR = fwd_y (nxn P) (nyc P) opr cy f"
| "stencil_closed P opr cx cy f N2UD = fwd_x (nxc P) (nyn P) opr cx f"
| "stencil_closed P opr cx cy f LR2C = fwd_x (nxc P) (nyc P) opr cx f"
| "stencil_closed P opr cx cy f UD2C = fwd_y (nxc P) (nyc P) opr cy f"

definition on_grid :: "'a arr2 \<Rightarrow> nat \<times> nat \<Rightarrow> bool" where
  "on_grid a sh = has_shape a (fst sh) (snd sh)"

lemma avg_closed:
  assumes "on_grid field (stencil_src P s)" "0 < nxc P" "0 < nyc P"
  shows "avg P field s = Some (stencil_closed P (+) 2 2 field s)"
  using assms unfolding has_shape_def on_grid_def
  apply (cases s)
  apply (simp_all add: nyn_def nxn_def prim_shapes wrap_y_def wrap_x_def fwd_x_def fwd_y_def del: upt_Suc)
  apply (rule mk2_cong; auto simp del: upt_Suc)+
  done

lemma dirder_closed:
  assumes "on_grid field (stencil_src P s)" "0 < nxc P" "0 < nyc P"
  shows "dirder P field s = Some (stencil_closed P (-) (dx P) (dy P) field s)"
  using assms unfolding has_shape_def on_grid_def
  apply (cases s)
  apply (simp_all add: nyn_def nxn_def prim_shapes wrap_y_def wrap_x_def fwd_x_def fwd_y_def del: upt_Suc)
  apply (rule mk2_cong; auto simp del: upt_Suc)+
  done

lemma stencil_closed_shape:
  "on_grid (stencil_closed P opr cx cy f s) (stencil_dst P s)"
  by (cases s; simp add: on_grid_def wrap_y_def wrap_x_def fwd_x_def fwd_y_def nxn_def nyn_def)


text \<open>
  C7. For the variants whose destination grid carries both domain edges on the periodic
  axis (\<open>C2UD\<close>, \<open>LR2N\<close> in \<open>y\<close>; \<open>C2LR\<close>, \<open>UD2N\<close> in \<open>x\<close>), the average and
  the directional derivative of any field of the source grid's shape have the same value
  on the two opposite edges of the destination grid, and that value is the one computed
  from the first source point and the source point at the opposite boundary.
\<close>

theorem stencil_periodic_seam:
  assumes "on_grid field (stencil_src P s)" "0 < nxc P" "0 < nyc P"
  shows "\<exists>a d. avg P field s = Some a \<and> dirder P field s = Some d \<and>
     on_grid a (stencil_dst P s) \<and> on_grid d (stencil_dst P s) \<and>
     (s \<in> {C2UD, LR2N} \<longrightarrow>
        (\<forall>i < fst (stencil_dst P s).
           get2 a i 0 = (get2 field i 0 + get2 field i (nyc P - 1)) / 2 \<and>
           get2 a i (nyn P - 1) = get2 a i 0 \<and>
           get2 d i 0 = (get2 field i 0 - get2 field i (nyc P - 1)) / dy P \<and>
           get2 d i (nyn P - 1) = get2 d i 0)) \<and>
     (s \<in> {C2LR, UD2N} \<longrightarrow>
        (\<forall>j < snd (stencil_dst P s).
           get2 a 0 j = (get2 field 0 j + get2 field (nxc P - 1) j) / 2 \<and>
           get2 a (nxn P - 1) j = get2 a 0 j \<and>
           get2 d 0 j = (get2 field 0 j - get2 field (nxc P - 1) j) / dx P \<and>
           get2 d (nxn P - 1) j = get2 d 0 j))"
  unfolding avg_closed [OF assms] dirder_closed [OF assms]
  by (cases s)
    (simp_all add: on_grid_def wrap_y_def wrap_x_def fwd_x_def fwd_y_def nxn_def nyn_def)


definition P22 :: params where
  "P22 = \<lparr>nxc = 2, nyc = 2, Lx = 2, Ly = 2, dt = 1, npart = 0, relativistic = False\<rparr>"

theorem stencil_periodic_seam_witness:
  "(\<exists>a d. avg P22 (Arr2 2 2 [1, 2, 3, 5]) C2UD = Some a \<and>
          dirder P22 (Arr2 2 2 [1, 2, 3, 5]) C2UD = Some d \<and>
          get2 a 0 0 = 3 / 2 \<and> get2 a 0 2 = 3 / 2 \<and> get2 d 1 0 = - 2 \<and> get2 d 1 2 = - 2) \<and>
   (\<exists>a d. avg P22 (Arr2 2 2 [1, 2, 3, 5]) C2LR = Some a \<and>
          dirder P22 (Arr2 2 2 [1, 2, 3, 5]) C2LR = Some d \<and>
          get2 a 0 0 = 2 \<and> get2 a 2 0 = 2 \<and> get2 d 0 1 = - 3 \<and> get2 d 2 1 = - 3)"
proof -
  have g: "on_grid (Arr2 2 2 [1, 2, 3, 5::real]) (stencil_src P22 C2UD)"
    "on_grid (Arr2 2 2 [1, 2, 3, 5::real]) (stencil_src P22 C2LR)"
    "0 < nxc P22" "0 < nyc P22"
    by (simp_all add: on_grid_def P22_def)
  have v: "nyc P22 = 2" "nxc P22 = 2" "nyn P22 = 3" "nxn P22 = 3" "dx P22 = 1" "dy P22 = 1"
    by (simp_all add: P22_def nxn_def nyn_def dx_def dy_def)
  obtain a d where y: "avg P22 (Arr2 2 2 [1, 2, 3, 5]) C2UD = Some a"
      "dirder P22 (Arr2 2 2 [1, 2, 3, 5]) C2UD = Some d"
      "\<forall>i<2. get2 a i 0 = (get2 (Arr2 2 2 [1, 2, 3, 5]) i 0 + get2 (Arr2 2 2 [1, 2, 3, 5]) i 1) / 2 \<and>
         get2 a i 2 = get2 a i 0 \<and>
         get2 d i 0 = get2 (Arr2 2 2 [1, 2, 3, 5]) i 0 - get2 (Arr2 2 2 [1, 2, 3, 5]) i 1 \<and>
         get2 d i 2 = get2 d i 0"
    using stencil_periodic_seam [OF g(1) g(3) g(4)] by (auto simp: v get2_def)
  obtain a' d' where x: "avg P22 (Arr2 2 2 [1, 2, 3, 5]) C2LR = Some a'"
      "dirder P22 (Arr2 2 2 [1, 2, 3, 5]) C2LR = Some d'"
      "\<forall>j<2. get2 a' 0 j = (get2 (Arr2 2 2 [1, 2, 3, 5]) 0 j + get2 (Arr2 2 2 [1, 2, 3, 5]) 1 j) / 2 \<and>
         get2 a' 2 j = get2 a' 0 j \<and>
         get2 d' 0 j = get2 (Arr2 2 2 [1, 2, 3, 5]) 0 j - get2 (Arr2 2 2 [1, 2, 3, 5]) 1 j \<and>
         get2 d' 2 j = get2 d' 0 j"
    using stencil_periodic_seam [OF g(2) g(3) g(4)] by (auto simp: v get2_def)
  have "get2 a 0 0 = 3 / 2 \<and> get2 a 0 2 = 3 / 2 \<and> get2 d 1 0 = - 2 \<and> get2 d 1 2 = - 2"
    using y(3) [rule_format, of 0] y(3) [rule_format, of 1] by (simp add: get2_def)
  moreover have "get2 a' 0 0 = 2 \<and> get2 a' 2 0 = 2 \<and> get2 d' 0 1 = - 3 \<and> get2 d' 2 1 = - 3"
    using x(3) [rule_format, of 0] x(3) [rule_format, of 1] by (simp add: get2_def)
  ultimately show ?thesis
    using y(1,2) x(1,2) by simp
qed

section \<open>Curl and divergence\<close>

text \<open>
  Array expressions of the scripts are written with lifted operators, so that a nested
  numpy expression stays one expression: an operand that raised makes the whole
  expression raise.
\<close>

definition ones2 :: "nat \<Rightarrow> nat \<Rightarrow> real arr2" where
  "ones2 n m = Arr2 n m (replicate (n * m) 1)"

definition arr_add :: "real arr2 option \<Rightarrow> real arr2 option \<Rightarrow> real arr2 option" where
  "arr_add a b = do { x \<leftarrow> a; y \<leftarrow> b; ew2 (+) x y }"

definition arr_sub :: "real arr2 option \<Rightarrow> real arr2 option \<Rightarrow> real arr2 option" where
  "arr_sub a b = do { x \<leftarrow> a; y \<leftarrow> b; ew2 (-) x y }"

definition arr_mul :: "real arr2 option \<Rightarrow> real arr2 option \<Rightarrow> real arr2 option" where
  "arr_mul a b = do { x \<leftarrow> a; y \<leftarrow> b; ew2 (*) x y }"

definition arr_div :: "real arr2 option \<Rightarrow> real arr2 option \<Rightarrow> real arr2 option" where
  "arr_div a b = do { x \<leftarrow> a; y \<leftarrow> b; ew2 (/) x y }"

definition arr_neg :: "real arr2 option \<Rightarrow> real arr2 option" where
  "arr_neg a = map_option (smap2 uminus) a"

definition arr_scale :: "real \<Rightarrow> real arr2 option \<Rightarrow> real arr2 option" where
  "arr_scale c a = map_option (smap2 (\<lambda>v. c * v)) a"

definition arr_avg :: "params \<Rightarrow> real arr2 option \<Rightarrow> stencil \<Rightarrow> real arr2 option" where
  "arr_avg P a s = do { x \<leftarrow> a; avg P x s }"

definition arr_dirder :: "params \<Rightarrow> real arr2 option \<Rightarrow> stencil \<Rightarrow> real arr2 option" where
  "arr_dirder P a s = do { x \<leftarrow> a; dirder P x s }"

datatype fieldtype = E_type | B_type

subsection \<open>The curl of \<open>iPiC_2D3V_cov_yee.py\<close>\<close>

record metric =
  g11e :: "real arr2"  g12e :: "real arr2"  g13e :: "real arr2"
  g21e :: "real arr2"  g22e :: "real arr2"  g23e :: "real arr2"
  g31e :: "real arr2"  g32e :: "real arr2"  g33e :: "real arr2"
  g11b :: "real arr2"  g12b :: "real arr2"  g13b :: "real arr2"
  g21b :: "real arr2"  g22b :: "real arr2"  g23b :: "real arr2"
  g31b :: "real arr2"  g32b :: "real arr2"  g33b :: "real arr2"
  J_UD :: "real arr2"  J_LR :: "real arr2"  J_c :: "real arr2"  J_n :: "real arr2"

text \<open>The module-level metric of the script: the identity, with determinant one.\<close>

definition flat_metric :: "params \<Rightarrow> metric" where
  "flat_metric P = \<lparr>
     g11e = ones2 (nxn P) (nyc P), g12e = zeros2 (nxc P) (nyn P), g13e = zeros2 (nxc P) (nyc P),
     g21e = zeros2 (nxn P) (nyc P), g22e = ones2 (nxc P) (nyn P), g23e = zeros2 (nxc P) (nyc P),
     g31e = zeros2 (nxn P) (nyc P), g32e = zeros2 (nxc P) (nyn P), g33e = ones2 (nxc P) (nyc P),
     g11b = ones2 (nxc P) (nyn P), g12b = zeros2 (nxn P) (nyc P), g13b = zeros2 (nxn P) (nyn P),
     g21b = zeros2 (nxc P) (nyn P), g22b = ones2 (nxn P) (nyc P), g23b = zeros2 (nxn P) (nyn P),
     g31b = zeros2 (nxc P) (nyn P), g32b = zeros2 (nxn P) (nyc P), g33b = ones2 (nxn P) (nyn P),
     J_UD = ones2 (nxc P) (nyn P), J_LR = ones2 (nxn P) (nyc P),
     J_c = ones2 (nxc P) (nyc P), J_n = ones2 (nxn P) (nyn P)\<rparr>"

definition curl ::
  "params \<Rightarrow> metric \<Rightarrow> real arr2 \<Rightarrow> real arr2 \<Rightarrow> real arr2 \<Rightarrow> fieldtype
     \<Rightarrow> (real arr2 \<times> real arr2 \<times> real arr2) option" where
  "curl P M fieldx fieldy fieldz fieldtype =
    (case fieldtype of
       E_type \<Rightarrow> do {
         curl_x \<leftarrow> arr_div
           (arr_add (arr_add
              (arr_dirder P (arr_avg P (arr_mul (Some (g31e M)) (Some fieldx)) LR2C) C2UD)
              (arr_dirder P (arr_avg P (arr_mul (Some (g32e M)) (Some fieldy)) UD2C) C2UD))
              (arr_dirder P (arr_mul (Some (g33e M)) (Some fieldz)) C2UD))
           (Some (J_UD M));
         curl_y \<leftarrow> arr_div (arr_neg
           (arr_add (arr_add
              (arr_dirder P (arr_avg P (arr_mul (Some (g31e M)) (Some fieldx)) LR2C) C2LR)
              (arr_dirder P (arr_avg P (arr_mul (Some (g32e M)) (Some fieldy)) UD2C) C2LR))
              (arr_dirder P (arr_mul (Some (g33e M)) (Some fieldz)) C2LR)))
           (Some (J_LR M));
         curl_z \<leftarrow> arr_div
           (arr_add (arr_add (arr_sub (arr_add (arr_add
              (arr_dirder P
                 (arr_avg P (arr_avg P (arr_mul (Some (g21e M)) (Some fieldx)) LR2C) C2UD) UD2N)
              (arr_dirder P (arr_mul (Some (g22e M)) (Some fieldy)) UD2N))
              (arr_dirder P (arr_avg P (arr_mul (Some (g13e M)) (Some fieldz)) C2UD) UD2N))
              (arr_dirder P (arr_mul (Some (g11e M)) (Some fieldx)) LR2N))
              (arr_dirder P
                 (arr_avg P (arr_avg P (arr_mul (Some (g12e M)) (Some fieldy)) UD2C) C2LR) LR2N))
              (arr_dirder P (arr_avg P (arr_mul (Some (g13e M)) (Some fieldz)) C2LR) LR2N))
           (Some (J_n M));
         Some (curl_x, curl_y, curl_z) }
     | B_type \<Rightarrow> do {
         curl_x \<leftarrow> arr_div
           (arr_add (arr_add
              (arr_dirder P (arr_avg P (arr_mul (Some (g31b M)) (Some fieldx)) UD2N) N2LR)
              (arr_dirder P (arr_avg P (arr_mul (Some (g32b M)) (Some fieldy)) LR2N) N2LR))
              (arr_dirder P (arr_mul (Some (g33b M)) (Some fieldz)) N2LR))
           (Some (J_LR M));
         curl_y \<leftarrow> arr_div (arr_neg
           (arr_add (arr_add
              (arr_dirder P (arr_avg P (arr_mul (Some (g31b M)) (Some fieldx)) UD2N) N2UD)
              (arr_dirder P (arr_avg P (arr_mul (Some (g32b M)) (Some fieldy)) LR2N) N2UD))
              (arr_dirder P (arr_mul (Some (g33b M)) (Some fieldz)) N2UD)))
           (Some (J_UD M));
         curl_z \<leftarrow> arr_div
           (arr_add (arr_add (arr_sub (arr_add (arr_add
              (arr_dirder P
                 (arr_avg P (arr_avg P (arr_mul (Some (g21b M)) (Some fieldx)) UD2N) N2LR) LR2C)
              (arr_dirder P (arr_mul (Some (g22b M)) (Some fieldy)) LR2C))
              (arr_dirder P (arr_avg P (arr_mul (Some (g13b M)) (Some fieldz)) N2LR) LR2C))
              (arr_dirder P (arr_mul (Some (g11b M)) (Some fieldx)) UD2C))
              (arr_dirder P
                 (arr_avg P (arr_avg P (arr_mul (Some (g12b M)) (Some fieldy)) LR2N) N2UD) UD2C))
              (arr_dirder P (arr_avg P (arr_mul (Some (g13b M)) (Some fieldz)) N2UD) UD2C))
           (Some (J_c M));
         Some (curl_x, curl_y, curl_z) })"

subsection \<open>The geometry, curl and divergence of \<open>iPiC_2D3V_cov_yee_staggerd_timestep.py\<close>\<close>

text \<open>
  For each of the four grids the script keeps the inverse Jacobian \<open>j\<close>, its
  determinant, the Jacobian \<open>J\<close>, its determinant and the metric tensor \<open>g\<close>.
\<close>

record grid_geom =
  j11 :: "real arr2"  j12 :: "real arr2"  j13 :: "real arr2"
  j21 :: "real arr2"  j22 :: "real arr2"  j23 :: "real arr2"
  j31 :: "real arr2"  j32 :: "real arr2"  j33 :: "real arr2"
  jdet :: "real arr2"
  Jdet :: "real arr2"
  J11 :: "real arr2"  J12 :: "real arr2"  J13 :: "real arr2"
  J21 :: "real arr2"  J22 :: "real arr2"  J23 :: "real arr2"
  J31 :: "real arr2"  J32 :: "real arr2"  J33 :: "real arr2"
  g11 :: "real arr2"  g12 :: "real arr2"  g13 :: "real arr2"
  g21 :: "real arr2"  g22 :: "real arr2"  g23 :: "real arr2"
  g31 :: "real arr2"  g32 :: "real arr2"  g33 :: "real arr2"

record geometry =
  geom_LR :: grid_geom
  geom_UD :: grid_geom
  geom_C :: grid_geom
  geom_N :: grid_geom

text \<open>The module-level initial value of every grid: identity matrices, determinants one.\<close>

definition flat_grid :: "nat \<Rightarrow> nat \<Rightarrow> grid_geom" where
  "flat_grid n m = \<lparr>
     j11 = ones2 n m, j12 = zeros2 n m, j13 = zeros2 n m,
     j21 = zeros2 n m, j22 = ones2 n m, j23 = zeros2 n m,
     j31 = zeros2 n m, j32 = zeros2 n m, j33 = ones2 n m,
     jdet = ones2 n m, Jdet = ones2 n m,
     J11 = ones2 n m, J12 = zeros2 n m, J13 = zeros2 n m,
     J21 = zeros2 n m, J22 = ones2 n m, J23 = zeros2 n m,
     J31 = zeros2 n m, J32 = zeros2 n m, J33 = ones2 n m,
     g11 = ones2 n m, g12 = zeros2 n m, g13 = zeros2 n m,
     g21 = zeros2 n m, g22 = ones2 n m, g23 = zeros2 n m,
     g31 = zeros2 n m, g32 = zeros2 n m, g33 = ones2 n m\<rparr>"

definition flat_geometry :: "params \<Rightarrow> geometry" where
  "flat_geometry P = \<lparr>
     geom_LR = flat_grid (nxn P) (nyc P), geom_UD = flat_grid (nxc P) (nyn P),
     geom_C = flat_grid (nxc P) (nyc P), geom_N = flat_grid (nxn P) (nyn P)\<rparr>"

definition curl_stag ::
  "params \<Rightarrow> geometry \<Rightarrow> real arr2 \<Rightarrow> real arr2 \<Rightarrow> real arr2 \<Rightarrow> fieldtype
     \<Rightarrow> (real arr2 \<times> real arr2 \<times> real arr2) option" where
  "curl_stag P G fieldx fieldy fieldz fieldtype =
    (case fieldtype of
       E_type \<Rightarrow> do {
         fieldx_C \<leftarrow> avg P fieldx LR2C;
         fieldy_C \<leftarrow> avg P fieldy UD2C;
         fieldx_UD \<leftarrow> arr_avg P (avg P fieldx LR2C) C2UD;
         fieldz_UD \<leftarrow> avg P fieldz C2UD;
         fieldy_LR \<leftarrow> arr_avg P (avg P fieldy UD2C) C2LR;
         fieldz_LR \<leftarrow> avg P fieldz C2LR;
         curl_x \<leftarrow> arr_div (arr_dirder P
             (arr_add (arr_add (ew2 (*) (g31 (geom_C G)) fieldx_C)
                                (ew2 (*) (g32 (geom_C G)) fieldy_C))
                      (ew2 (*) (g33 (geom_C G)) fieldz)) C2UD)
           (Some (Jdet (geom_UD G)));
         curl_y \<leftarrow> arr_div (arr_neg (arr_dirder P
             (arr_add (arr_add (ew2 (*) (g31 (geom_C G)) fieldx_C)
                                (ew2 (*) (g32 (geom_C G)) fieldy_C))
                      (ew2 (*) (g33 (geom_C G)) fieldz)) C2LR))
           (Some (Jdet (geom_LR G)));
         curl_z \<leftarrow> arr_sub
           (arr_div (arr_dirder P
               (arr_add (arr_add (ew2 (*) (g21 (geom_UD G)) fieldx_UD)
                                  (ew2 (*) (g22 (geom_UD G)) fieldy))
                        (ew2 (*) (g23 (geom_UD G)) fieldz_UD)) UD2N)
             (Some (Jdet (geom_N G))))
           (arr_div (arr_dirder P
               (arr_add (arr_add (ew2 (*) (g11 (geom_LR G)) fieldx)
                                  (ew2 (*) (g12 (geom_LR G)) fieldy_LR))
                        (ew2 (*) (g13 (geom_LR G)) fieldz_LR)) LR2N)
             (Some (Jdet (geom_N G))));
         Some (curl_x, curl_y, curl_z) }
     | B_type \<Rightarrow> do {
         fieldx_N \<leftarrow> avg P fieldx UD2N;
         fieldy_N \<leftarrow> avg P fieldy LR2N;
         fieldx_LR \<leftarrow> arr_avg P (avg P fieldx UD2N) N2LR;
         fieldz_LR \<leftarrow> avg P fieldz N2LR;
         fieldy_UD \<leftarrow> arr_avg P (avg P fieldy LR2N) N2UD;
         fieldz_UD \<leftarrow> avg P fieldz N2UD;
         curl_x \<leftarrow> arr_div (arr_dirder P
             (arr_add (arr_add (ew2 (*) (g31 (geom_N G)) fieldx_N)
                                (ew2 (*) (g32 (geom_N G)) fieldy_N))
                      (ew2 (*) (g33 (geom_N G)) fieldz)) N2LR)
           (Some (Jdet (geom_LR G)));
         curl_y \<leftarrow> arr_div (arr_neg (arr_dirder P
             (arr_add (arr_add (ew2 (*) (g31 (geom_N G)) fieldx_N)
                                (ew2 (*) (g32 (geom_N G)) fieldy_N))
                      (ew2 (*) (g33 (geom_N G)) fieldz)) N2UD))
           (Some (Jdet (geom_UD G)));
         curl_z \<leftarrow> arr_sub
           (arr_div (arr_dirder P
               (arr_add (arr_add (ew2 (*) (g21 (geom_LR G)) fieldx_LR)
                                  (ew2 (*) (g22 (geom_LR G)) fieldy))
                        (ew2 (*) (g23 (geom_LR G)) fieldz_LR)) LR2C)
             (Some (Jdet (geom_C G))))
           (arr_div (arr_dirder P
               (arr_add (arr_add (ew2 (*) (g11 (geom_UD G)) fieldx)
                                  (ew2 (*) (g12 (geom_UD G)) fieldy_UD))
                        (ew2 (*) (g13 (geom_UD G)) fieldz_UD)) UD2C)
             (Some (Jdet (geom_C G))));
         Some (curl_x, curl_y, curl_z) })"

definition div_stag ::
  "params \<Rightarrow> geometry \<Rightarrow> real arr2 \<Rightarrow> real arr2 \<Rightarrow> real arr2 \<Rightarrow> fieldtype
     \<Rightarrow> real arr2 option" where
  "div_stag P G fieldx fieldy fieldz fieldtype =
    (case fieldtype of
       E_type \<Rightarrow> arr_div
         (arr_add (arr_dirder P (ew2 (*) (Jdet (geom_LR G)) fieldx) LR2C)
                  (arr_dirder P (ew2 (*) (Jdet (geom_UD G)) fieldy) UD2C))
         (Some (Jdet (geom_C G)))
     | B_type \<Rightarrow> arr_div
         (arr_add (arr_dirder P (ew2 (*) (Jdet (geom_UD G)) fieldx) UD2N)
                  (arr_dirder P (ew2 (*) (Jdet (geom_LR G)) fieldy) LR2N))
         (Some (Jdet (geom_N G))))"

subsection \<open>The flat-space operators, as the specification words them\<close>

text \<open>
  \<open>curl_x = d(fieldz)/dy\<close>, \<open>curl_y = - d(fieldz)/dx\<close>,
  \<open>curl_z = d(fieldy)/dx - d(fieldx)/dy\<close> and \<open>div = d(fieldx)/dx + d(fieldy)/dy\<close>,
  each difference taken between the staggered grids of the field type.
\<close>

definition flat_curl ::
  "params \<Rightarrow> real arr2 \<Rightarrow> real arr2 \<Rightarrow> real arr2 \<Rightarrow> fieldtype
     \<Rightarrow> (real arr2 \<times> real arr2 \<times> real arr2) option" where
  "flat_curl P fieldx fieldy fieldz fieldtype =
    (case fieldtype of
       E_type \<Rightarrow> do {
         cx \<leftarrow> dirder P fieldz C2UD;
         cy \<leftarrow> arr_neg (dirder P fieldz C2LR);
         cz \<leftarrow> arr_sub (dirder P fieldy UD2N) (dirder P fieldx LR2N);
         Some (cx, cy, cz) }
     | B_type \<Rightarrow> do {
         cx \<leftarrow> dirder P fieldz N2LR;
         cy \<leftarrow> arr_neg (dirder P fieldz N2UD);
         cz \<leftarrow> arr_sub (dirder P fieldy LR2C) (dirder P fieldx UD2C);
         Some (cx, cy, cz) })"

definition flat_div ::
  "params \<Rightarrow> real arr2 \<Rightarrow> real arr2 \<Rightarrow> fieldtype \<Rightarrow> real arr2 option" where
  "flat_div P fieldx fieldy fieldtype =
    (case fieldtype of
       E_type \<Rightarrow> arr_add (dirder P fieldx LR2C) (dirder P fieldy UD2C)
     | B_type \<Rightarrow> arr_add (dirder P fieldx UD2N) (dirder P fieldy LR2N))"

text \<open>The grids of the three components of an E-type and of a B-type field.\<close>

definition on_field_grids ::
  "params \<Rightarrow> fieldtype \<Rightarrow> real arr2 \<Rightarrow> real arr2 \<Rightarrow> real arr2 \<Rightarrow> bool" where
  "on_field_grids P ft fx fy fz =
    (case ft of
       E_type \<Rightarrow> has_shape fx (nxn P) (nyc P) \<and> has_shape fy (nxc P) (nyn P) \<and>
                 has_shape fz (nxc P) (nyc P)
     | B_type \<Rightarrow> has_shape fx (nxc P) (nyn P) \<and> has_shape fy (nxn P) (nyc P) \<and>
                 has_shape fz (nxn P) (nyn P))"

subsection \<open>Flat-space reduction\<close>

lemma nrows_ones2 [simp]: "nrows (ones2 n m) = n"
  and ncols_ones2 [simp]: "ncols (ones2 n m) = m"
  and length_dat_ones2 [simp]: "length (dat (ones2 n m)) = n * m"
  by (simp_all add: ones2_def)

lemma get2_ones2 [simp]: "i < n \<Longrightarrow> j < m \<Longrightarrow> get2 (ones2 n m) i j = 1"
  by (simp add: ones2_def get2_def idx_bound)

lemma zeros2_mk2: "zeros2 n m = mk2 n m (\<lambda>i j. 0)"
  by (simp add: zeros2_def mk2_def map_replicate_const)

lemma mk2_bcong:
  "n = n' \<Longrightarrow> m = m' \<Longrightarrow> (\<And>i j. i < n' \<Longrightarrow> j < m' \<Longrightarrow> f i j = g i j) \<Longrightarrow>
   mk2 n m f = mk2 n' m' g"
  by (auto intro: mk2_cong)

lemma mul_zeros2:
  "has_shape (f::real arr2) n m \<Longrightarrow> ew2 (*) (zeros2 n m) f = Some (zeros2 n m)"
  by (simp add: ew2_same has_shape_def zeros2_mk2 cong: mk2_bcong)

lemma mul_ones2:
  "has_shape (f::real arr2) n m \<Longrightarrow> ew2 (*) (ones2 n m) f = Some f"
  by (simp add: ew2_same has_shape_def mk2_get2 cong: mk2_bcong)

lemma add_zeros2_left:
  "has_shape (f::real arr2) n m \<Longrightarrow> ew2 (+) (zeros2 n m) f = Some f"
  by (simp add: ew2_same has_shape_def mk2_get2 cong: mk2_bcong)

lemma add_zeros2_right:
  "has_shape (f::real arr2) n m \<Longrightarrow> ew2 (+) f (zeros2 n m) = Some f"
  by (simp add: ew2_same has_shape_def mk2_get2 cong: mk2_bcong)

lemma div_ones2:
  "has_shape (f::real arr2) n m \<Longrightarrow> ew2 (/) f (ones2 n m) = Some f"
  by (simp add: ew2_same has_shape_def mk2_get2 cong: mk2_bcong)

lemma avg_zeros2:
  assumes "0 < nxc P" "0 < nyc P"
  shows "avg P (zeros2 (fst (stencil_src P s)) (snd (stencil_src P s))) s =
           Some (zeros2 (fst (stencil_dst P s)) (snd (stencil_dst P s)))"
  using assms
  apply (simp add: avg_closed on_grid_def)
  apply (cases s)
  apply (simp_all add: wrap_y_def wrap_x_def fwd_x_def
        fwd_y_def zeros2_mk2 nxn_def nyn_def cong: mk2_bcong)
  apply (rule mk2_cong; auto)+
  done

lemma dirder_zeros2:
  assumes "0 < nxc P" "0 < nyc P"
  shows "dirder P (zeros2 (fst (stencil_src P s)) (snd (stencil_src P s))) s =
           Some (zeros2 (fst (stencil_dst P s)) (snd (stencil_dst P s)))"
  using assms
  apply (simp add: dirder_closed on_grid_def)
  apply (cases s)
  apply (simp_all add: wrap_y_def wrap_x_def fwd_x_def
        fwd_y_def zeros2_mk2 nxn_def nyn_def cong: mk2_bcong)
  apply (rule mk2_cong; auto)+
  done

declare avg.simps [simp del] dirder.simps [simp del]

lemmas avg_zeros =
  avg_zeros2 [of _ C2UD, simplified] avg_zeros2 [of _ C2LR, simplified]
  avg_zeros2 [of _ UD2N, simplified] avg_zeros2 [of _ LR2N, simplified]
  avg_zeros2 [of _ N2LR, simplified] avg_zeros2 [of _ N2UD, simplified]
  avg_zeros2 [of _ LR2C, simplified] avg_zeros2 [of _ UD2C, simplified]

lemmas dirder_zeros =
  dirder_zeros2 [of _ C2UD, simplified] dirder_zeros2 [of _ C2LR, simplified]
  dirder_zeros2 [of _ UD2N, simplified] dirder_zeros2 [of _ LR2N, simplified]
  dirder_zeros2 [of _ N2LR, simplified] dirder_zeros2 [of _ N2UD, simplified]
  dirder_zeros2 [of _ LR2C, simplified] dirder_zeros2 [of _ UD2C, simplified]

lemma stencil_result:
  assumes "0 < nxc P" "0 < nyc P" "has_shape f (fst (stencil_src P s)) (snd (stencil_src P s))"
  shows "\<exists>a. avg P f s = Some a \<and> has_shape a (fst (stencil_dst P s)) (snd (stencil_dst P s))"
    and "\<exists>a. dirder P f s = Some a \<and> has_shape a (fst (stencil_dst P s)) (snd (stencil_dst P s))"
  using assms stencil_closed_shape [of P _ _ _ f s]
  by (simp_all add: avg_closed dirder_closed on_grid_def)

lemmas lifted_defs = arr_add_def arr_sub_def arr_mul_def arr_div_def arr_neg_def
  arr_avg_def arr_dirder_def

lemmas flat_simps = mul_zeros2 mul_ones2 avg_zeros dirder_zeros add_zeros2_left
  add_zeros2_right div_ones2

lemma curl_flat_E:
  assumes p: "0 < nxc P" "0 < nyc P"
    and s: "has_shape fx (nxn P) (nyc P)" "has_shape fy (nxc P) (nyn P)"
      "has_shape fz (nxc P) (nyc P)"
  shows "curl P (flat_metric P) fx fy fz E_type = flat_curl P fx fy fz E_type"
proof -
  obtain a1 where a1: "dirder P fz C2UD = Some a1" "has_shape a1 (nxc P) (nyn P)"
    using stencil_result(2) [of P fz C2UD] p s by auto
  obtain a2 where a2: "dirder P fz C2LR = Some a2" "has_shape a2 (nxn P) (nyc P)"
    using stencil_result(2) [of P fz C2LR] p s by auto
  obtain a3 where a3: "dirder P fy UD2N = Some a3" "has_shape a3 (nxn P) (nyn P)"
    using stencil_result(2) [of P fy UD2N] p s by auto
  obtain a4 where a4: "dirder P fx LR2N = Some a4" "has_shape a4 (nxn P) (nyn P)"
    using stencil_result(2) [of P fx LR2N] p s by auto
  obtain a5 where a5: "ew2 (-) a3 a4 = Some a5" "has_shape a5 (nxn P) (nyn P)"
    using a3(2) a4(2) by (simp add: ew2_same has_shape_def)
  show ?thesis
    using p s a1 a2 a3 a4 a5
    by (simp add: curl_def flat_curl_def flat_metric_def lifted_defs flat_simps)
qed


lemma curl_flat_B:
  assumes p: "0 < nxc P" "0 < nyc P"
    and s: "has_shape fx (nxc P) (nyn P)" "has_shape fy (nxn P) (nyc P)"
      "has_shape fz (nxn P) (nyn P)"
  shows "curl P (flat_metric P) fx fy fz B_type = flat_curl P fx fy fz B_type"
proof -
  obtain a1 where a1: "dirder P fz N2LR = Some a1" "has_shape a1 (nxn P) (nyc P)"
    using stencil_result(2) [of P fz N2LR] p s by auto
  obtain a2 where a2: "dirder P fz N2UD = Some a2" "has_shape a2 (nxc P) (nyn P)"
    using stencil_result(2) [of P fz N2UD] p s by auto
  obtain a3 where a3: "dirder P fy LR2C = Some a3" "has_shape a3 (nxc P) (nyc P)"
    using stencil_result(2) [of P fy LR2C] p s by auto
  obtain a4 where a4: "dirder P fx UD2C = Some a4" "has_shape a4 (nxc P) (nyc P)"
    using stencil_result(2) [of P fx UD2C] p s by auto
  obtain a5 where a5: "ew2 (-) a3 a4 = Some a5" "has_shape a5 (nxc P) (nyc P)"
    using a3(2) a4(2) by (simp add: ew2_same has_shape_def)
  show ?thesis
    using p s a1 a2 a3 a4 a5
    by (simp add: curl_def flat_curl_def flat_metric_def lifted_defs flat_simps)
qed

lemma avg_avg_result:
  assumes "0 < nxc P" "0 < nyc P" "has_shape f (fst (stencil_src P s)) (snd (stencil_src P s))"
    "stencil_dst P s = stencil_src P s'"
  shows "\<exists>a b. avg P f s = Some a \<and> has_shape a (fst (stencil_dst P s)) (snd (stencil_dst P s)) \<and>
           avg P a s' = Some b \<and> has_shape b (fst (stencil_dst P s')) (snd (stencil_dst P s'))"
proof -
  obtain a where a: "avg P f s = Some a"
      "has_shape a (fst (stencil_dst P s)) (snd (stencil_dst P s))"
    using stencil_result(1) [OF assms(1-3)] by auto
  then show ?thesis
    using stencil_result(1) [of P a s'] assms by auto
qed

lemma curl_stag_flat_E:
  assumes p: "0 < nxc P" "0 < nyc P"
    and s: "has_shape fx (nxn P) (nyc P)" "has_shape fy (nxc P) (nyn P)"
      "has_shape fz (nxc P) (nyc P)"
  shows "curl_stag P (flat_geometry P) fx fy fz E_type = flat_curl P fx fy fz E_type"
proof -
  obtain a1 where a1: "dirder P fz C2UD = Some a1" "has_shape a1 (nxc P) (nyn P)"
    using stencil_result(2) [of P fz C2UD] p s by auto
  obtain a2 where a2: "dirder P fz C2LR = Some a2" "has_shape a2 (nxn P) (nyc P)"
    using stencil_result(2) [of P fz C2LR] p s by auto
  obtain a3 where a3: "dirder P fy UD2N = Some a3" "has_shape a3 (nxn P) (nyn P)"
    using stencil_result(2) [of P fy UD2N] p s by auto
  obtain a4 where a4: "dirder P fx LR2N = Some a4" "has_shape a4 (nxn P) (nyn P)"
    using stencil_result(2) [of P fx LR2N] p s by auto
  obtain a5 where a5: "ew2 (-) a3 a4 = Some a5" "has_shape a5 (nxn P) (nyn P)"
    using a3(2) a4(2) by (simp add: ew2_same has_shape_def)
  obtain b1 c1 where b1: "avg P fx LR2C = Some b1" "has_shape b1 (nxc P) (nyc P)"
      "avg P b1 C2UD = Some c1" "has_shape c1 (nxc P) (nyn P)"
    using avg_avg_result [of P fx LR2C C2UD] p s by auto
  obtain b2 c2 where b2: "avg P fy UD2C = Some b2" "has_shape b2 (nxc P) (nyc P)"
      "avg P b2 C2LR = Some c2" "has_shape c2 (nxn P) (nyc P)"
    using avg_avg_result [of P fy UD2C C2LR] p s by auto
  obtain b3 where b3: "avg P fz C2UD = Some b3" "has_shape b3 (nxc P) (nyn P)"
    using stencil_result(1) [of P fz C2UD] p s by auto
  obtain b4 where b4: "avg P fz C2LR = Some b4" "has_shape b4 (nxn P) (nyc P)"
    using stencil_result(1) [of P fz C2LR] p s by auto
  show ?thesis
    using p s a1 a2 a3 a4 a5 b1 b2 b3 b4
    by (simp add: curl_stag_def flat_curl_def flat_geometry_def flat_grid_def lifted_defs
        flat_simps)
qed

lemma curl_stag_flat_B:
  assumes p: "0 < nxc P" "0 < nyc P"
    and s: "has_shape fx (nxc P) (nyn P)" "has_shape fy (nxn P) (nyc P)"
      "has_shape fz (nxn P) (nyn P)"
  shows "curl_stag P (flat_geometry P) fx fy fz B_type = flat_curl P fx fy fz B_type"
proof -
  obtain a1 where a1: "dirder P fz N2LR = Some a1" "has_shape a1 (nxn P) (nyc P)"
    using stencil_result(2) [of P fz N2LR] p s by auto
  obtain a2 where a2: "dirder P fz N2UD = Some a2" "has_shape a2 (nxc P) (nyn P)"
    using stencil_result(2) [of P fz N2UD] p s by auto
  obtain a3 where a3: "dirder P fy LR2C = Some a3" "has_shape a3 (nxc P) (nyc P)"
    using stencil_result(2) [of P fy LR2C] p s by auto
  obtain a4 where a4: "dirder P fx UD2C = Some a4" "has_shape a4 (nxc P) (nyc P)"
    using stencil_result(2) [of P fx UD2C] p s by auto
  obtain a5 where a5: "ew2 (-) a3 a4 = Some a5" "has_shape a5 (nxc P) (nyc P)"
    using a3(2) a4(2) by (simp add: ew2_same has_shape_def)
  obtain b1 c1 where b1: "avg P fx UD2N = Some b1" "has_shape b1 (nxn P) (nyn P)"
      "avg P b1 N2LR = Some c1" "has_shape c1 (nxn P) (nyc P)"
    using avg_avg_result [of P fx UD2N N2LR] p s by auto
  obtain b2 c2 where b2: "avg P fy LR2N = Some b2" "has_shape b2 (nxn P) (nyn P)"
      "avg P b2 N2UD = Some c2" "has_shape c2 (nxc P) (nyn P)"
    using avg_avg_result [of P fy LR2N N2UD] p s by auto
  obtain b3 where b3: "avg P fz N2LR = Some b3" "has_shape b3 (nxn P) (nyc P)"
    using stencil_result(1) [of P fz N2LR] p s by auto
  obtain b4 where b4: "avg P fz N2UD = Some b4" "has_shape b4 (nxc P) (nyn P)"
    using stencil_result(1) [of P fz N2UD] p s by auto
  show ?thesis
    using p s a1 a2 a3 a4 a5 b1 b2 b3 b4
    by (simp add: curl_stag_def flat_curl_def flat_geometry_def flat_grid_def lifted_defs
        flat_simps)
qed

lemma div_stag_flat:
  assumes p: "0 < nxc P" "0 < nyc P" and s: "on_field_grids P ft fx fy fz"
  shows "div_stag P (flat_geometry P) fx fy fz ft = flat_div P fx fy ft"
proof (cases ft)
  case E_type
  obtain a1 where a1: "dirder P fx LR2C = Some a1" "has_shape a1 (nxc P) (nyc P)"
    using stencil_result(2) [of P fx LR2C] p s E_type by (auto simp: on_field_grids_def)
  obtain a2 where a2: "dirder P fy UD2C = Some a2" "has_shape a2 (nxc P) (nyc P)"
    using stencil_result(2) [of P fy UD2C] p s E_type by (auto simp: on_field_grids_def)
  obtain a3 where a3: "ew2 (+) a1 a2 = Some a3" "has_shape a3 (nxc P) (nyc P)"
    using a1(2) a2(2) by (simp add: ew2_same has_shape_def)
  show ?thesis
    using p s a1 a2 a3 E_type
    by (simp add: div_stag_def flat_div_def flat_geometry_def flat_grid_def lifted_defs
        flat_simps on_field_grids_def)
next
  case B_type
  obtain a1 where a1: "dirder P fx UD2N = Some a1" "has_shape a1 (nxn P) (nyn P)"
    using stencil_result(2) [of P fx UD2N] p s B_type by (auto simp: on_field_grids_def)
  obtain a2 where a2: "dirder P fy LR2N = Some a2" "has_shape a2 (nxn P) (nyn P)"
    using stencil_result(2) [of P fy LR2N] p s B_type by (auto simp: on_field_grids_def)
  obtain a3 where a3: "ew2 (+) a1 a2 = Some a3" "has_shape a3 (nxn P) (nyn P)"
    using a1(2) a2(2) by (simp add: ew2_same has_shape_def)
  show ?thesis
    using p s a1 a2 a3 B_type
    by (simp add: div_stag_def flat_div_def flat_geometry_def flat_grid_def lifted_defs
        flat_simps on_field_grids_def)
qed

text \<open>
  C5. With the identity metric and Jacobian determinant one at every grid point (the
  module-level metric of both scripts), the curl of either script and the divergence,
  for E-type and for B-type fields of the grids' shapes, are the flat-space
  finite-difference curl and divergence.
\<close>

theorem flat_space_reduction:
  assumes "0 < nxc P" "0 < nyc P" "on_field_grids P ft fx fy fz"
  shows "curl P (flat_metric P) fx fy fz ft = flat_curl P fx fy fz ft \<and>
         curl_stag P (flat_geometry P) fx fy fz ft = flat_curl P fx fy fz ft \<and>
         div_stag P (flat_geometry P) fx fy fz ft = flat_div P fx fy ft \<and>
         (\<exists>cx cy cz d. flat_curl P fx fy fz ft = Some (cx, cy, cz) \<and>
                       flat_div P fx fy ft = Some d)"
proof (cases ft)
  case E_type
  then have s: "has_shape fx (nxn P) (nyc P)" "has_shape fy (nxc P) (nyn P)"
    "has_shape fz (nxc P) (nyc P)"
    using assms(3) by (simp_all add: on_field_grids_def)
  obtain a1 where a1: "dirder P fz C2UD = Some a1"
    using stencil_result(2) [of P fz C2UD] assms s by auto
  obtain a2 where a2: "dirder P fz C2LR = Some a2"
    using stencil_result(2) [of P fz C2LR] assms s by auto
  obtain a3 where a3: "dirder P fy UD2N = Some a3" "has_shape a3 (nxn P) (nyn P)"
    using stencil_result(2) [of P fy UD2N] assms s by auto
  obtain a4 where a4: "dirder P fx LR2N = Some a4" "has_shape a4 (nxn P) (nyn P)"
    using stencil_result(2) [of P fx LR2N] assms s by auto
  obtain b1 where b1: "dirder P fx LR2C = Some b1" "has_shape b1 (nxc P) (nyc P)"
    using stencil_result(2) [of P fx LR2C] assms s by auto
  obtain b2 where b2: "dirder P fy UD2C = Some b2" "has_shape b2 (nxc P) (nyc P)"
    using stencil_result(2) [of P fy UD2C] assms s by auto
  have "\<exists>cx cy cz d. flat_curl P fx fy fz ft = Some (cx, cy, cz) \<and>
                     flat_div P fx fy ft = Some d"
    using E_type a1 a2 a3 a4 b1 b2
    by (simp add: flat_curl_def flat_div_def lifted_defs ew2_same has_shape_def)
  then show ?thesis
    using E_type curl_flat_E [OF assms(1,2) s] curl_stag_flat_E [OF assms(1,2) s]
      div_stag_flat [OF assms] by simp
next
  case B_type
  then have s: "has_shape fx (nxc P) (nyn P)" "has_shape fy (nxn P) (nyc P)"
    "has_shape fz (nxn P) (nyn P)"
    using assms(3) by (simp_all add: on_field_grids_def)
  obtain a1 where a1: "dirder P fz N2LR = Some a1"
    using stencil_result(2) [of P fz N2LR] assms s by auto
  obtain a2 where a2: "dirder P fz N2UD = Some a2"
    using stencil_result(2) [of P fz N2UD] assms s by auto
  obtain a3 where a3: "dirder P fy LR2C = Some a3" "has_shape a3 (nxc P) (nyc P)"
    using stencil_result(2) [of P fy LR2C] assms s by auto
  obtain a4 where a4: "dirder P fx UD2C = Some a4" "has_shape a4 (nxc P) (nyc P)"
    using stencil_result(2) [of P fx UD2C] assms s by auto
  obtain b1 where b1: "dirder P fx UD2N = Some b1" "has_shape b1 (nxn P) (nyn P)"
    using stencil_result(2) [of P fx UD2N] assms s by auto
  obtain b2 where b2: "dirder P fy LR2N = Some b2" "has_shape b2 (nxn P) (nyn P)"
    using stencil_result(2) [of P fy LR2N] assms s by auto
  have "\<exists>cx cy cz d. flat_curl P fx fy fz ft = Some (cx, cy, cz) \<and>
                     flat_div P fx fy ft = Some d"
    using B_type a1 a2 a3 a4 b1 b2
    by (simp add: flat_curl_def flat_div_def lifted_defs ew2_same has_shape_def)
  then show ?thesis
    using B_type curl_flat_B [OF assms(1,2) s] curl_stag_flat_B [OF assms(1,2) s]
      div_stag_flat [OF assms] by simp
qed

theorem flat_space_reduction_witness:
  "curl P22 (flat_metric P22) (Arr2 3 2 [1, 2, 3, 4, 1, 2]) (Arr2 2 3 [1, 0, 1, 2, 5, 2])
       (Arr2 2 2 [1, 2, 3, 5]) E_type
     = flat_curl P22 (Arr2 3 2 [1, 2, 3, 4, 1, 2]) (Arr2 2 3 [1, 0, 1, 2, 5, 2])
         (Arr2 2 2 [1, 2, 3, 5]) E_type \<and>
   curl_stag P22 (flat_geometry P22) (Arr2 3 2 [1, 2, 3, 4, 1, 2]) (Arr2 2 3 [1, 0, 1, 2, 5, 2])
       (Arr2 2 2 [1, 2, 3, 5]) E_type
     = flat_curl P22 (Arr2 3 2 [1, 2, 3, 4, 1, 2]) (Arr2 2 3 [1, 0, 1, 2, 5, 2])
         (Arr2 2 2 [1, 2, 3, 5]) E_type \<and>
   div_stag P22 (flat_geometry P22) (Arr2 3 2 [1, 2, 3, 4, 1, 2]) (Arr2 2 3 [1, 0, 1, 2, 5, 2])
       (Arr2 2 2 [1, 2, 3, 5]) E_type
     = flat_div P22 (Arr2 3 2 [1, 2, 3, 4, 1, 2]) (Arr2 2 3 [1, 0, 1, 2, 5, 2]) E_type"
  using flat_space_reduction [of P22 E_type "Arr2 3 2 [1, 2, 3, 4, 1, 2]"
      "Arr2 2 3 [1, 0, 1, 2, 5, 2]" "Arr2 2 2 [1, 2, 3, 5]"]
  by (simp add: P22_def on_field_grids_def nxn_def nyn_def)

section \<open>Particle-grid transfer\<close>

text \<open>
  Grid indices computed from a position are Python integers. An index \<open>i\<close> into an
  axis of extent \<open>n\<close> is valid when \<open>-n \<le> i < n\<close>, a negative one counting from the
  end; any other raises \<open>IndexError\<close>.
\<close>

definition py_index :: "nat \<Rightarrow> int \<Rightarrow> nat option" where
  "py_index n i =
     (if 0 \<le> i \<and> i < int n then Some (nat i)
      else if - int n \<le> i \<and> i < 0 then Some (nat (i + int n))
      else None)"

definition py_get2 :: "'a arr2 \<Rightarrow> int \<Rightarrow> int \<Rightarrow> 'a option" where
  "py_get2 a i j = do {
     r \<leftarrow> py_index (nrows a) i;
     c \<leftarrow> py_index (ncols a) j;
     Some (get2 a r c)
   }"

text \<open>\<open>a[i, j] += v\<close>\<close>

definition py_add2 :: "real arr2 \<Rightarrow> int \<Rightarrow> int \<Rightarrow> real \<Rightarrow> real arr2 option" where
  "py_add2 a i j v = do {
     r \<leftarrow> py_index (nrows a) i;
     c \<leftarrow> py_index (ncols a) j;
     Some (Arr2 (nrows a) (ncols a) ((dat a)[r * ncols a + c := get2 a r c + v]))
   }"

definition py_get1 :: "'a list \<Rightarrow> nat \<Rightarrow> 'a option" where
  "py_get1 xs i = (if i < length xs then Some (xs ! i) else None)"

text \<open>\<open>for i in range(n)\<close> over a state, stopping at the first exception.\<close>

fun for_range :: "(nat \<Rightarrow> 's \<Rightarrow> 's option) \<Rightarrow> nat list \<Rightarrow> 's \<Rightarrow> 's option" where
  "for_range body [] s = Some s"
| "for_range body (i # rest) s =
     (case body i s of None \<Rightarrow> None | Some s' \<Rightarrow> for_range body rest s')"

datatype gridtype = Grid_LR | Grid_UD | Grid_C | Grid_N

fun grid_shape :: "params \<Rightarrow> gridtype \<Rightarrow> nat \<times> nat" where
  "grid_shape P Grid_LR = (nxn P, nyc P)"
| "grid_shape P Grid_UD = (nxc P, nyn P)"
| "grid_shape P Grid_C = (nxc P, nyc P)"
| "grid_shape P Grid_N = (nxn P, nyn P)"

subsection \<open>Gather\<close>

text \<open>
  The body of the loop of \<open>grid_to_particle\<close> up to the array reads: the offsets of
  the grid type, the lower-left index by floor division, the weights, and the modulo
  wrap on the axes the grid type makes periodic. Positions and quotients are exact
  reals: a \<open>float64\<close> quotient \<open>x / dx\<close> that rounds up to the number of cells for a
  position below the domain length has no counterpart here, so nothing is concluded
  from this model about index bounds at such positions.
\<close>

definition gather_cell ::
  "params \<Rightarrow> gridtype \<Rightarrow> real \<Rightarrow> real
     \<Rightarrow> int \<times> int \<times> int \<times> int \<times> real \<times> real \<times> real \<times> real" where
  "gather_cell P gridtype x y =
     (let (fx, fy) = (case gridtype of
              Grid_LR \<Rightarrow> (0, dy P / 2)
            | Grid_UD \<Rightarrow> (dx P / 2, 0)
            | Grid_C \<Rightarrow> (dx P / 2, dy P / 2)
            | Grid_N \<Rightarrow> (0, 0));
          xa = (x - fx) / dx P;
          ya = (y - fy) / dy P;
          i1 = \<lfloor>xa\<rfloor>;
          i2 = i1 + 1;
          j1 = \<lfloor>ya\<rfloor>;
          j2 = j1 + 1;
          wx2 = xa - of_int i1;
          wx1 = 1 - wx2;
          wy2 = ya - of_int j1;
          wy1 = 1 - wy2
      in case gridtype of
           Grid_LR \<Rightarrow> (i1, i2, j1 mod int (nyc P), j2 mod int (nyc P), wx1, wx2, wy1, wy2)
         | Grid_UD \<Rightarrow> (i1 mod int (nxc P), i2 mod int (nxc P), j1, j2, wx1, wx2, wy1, wy2)
         | Grid_C \<Rightarrow> (i1 mod int (nxc P), i2 mod int (nxc P),
                       j1 mod int (nyc P), j2 mod int (nyc P), wx1, wx2, wy1, wy2)
         | Grid_N \<Rightarrow> (i1, i2, j1, j2, wx1, wx2, wy1, wy2))"

definition gather_one :: "params \<Rightarrow> real arr2 \<Rightarrow> gridtype \<Rightarrow> real \<Rightarrow> real \<Rightarrow> real option" where
  "gather_one P f gridtype x y =
     (case gather_cell P gridtype x y of (i1, i2, j1, j2, wx1, wx2, wy1, wy2) \<Rightarrow> do {
        f11 \<leftarrow> py_get2 f i1 j1;
        f21 \<leftarrow> py_get2 f i2 j1;
        f12 \<leftarrow> py_get2 f i1 j2;
        f22 \<leftarrow> py_get2 f i2 j2;
        Some (wx1 * wy1 * f11 + wx2 * wy1 * f21 + wx1 * wy2 * f12 + wx2 * wy2 * f22)
      })"

definition grid_to_particle ::
  "params \<Rightarrow> real list \<Rightarrow> real list \<Rightarrow> real arr2 \<Rightarrow> gridtype \<Rightarrow> real list option" where
  "grid_to_particle P xk yk f gridtype =
     for_range (\<lambda>i fp. do {
         x \<leftarrow> py_get1 xk i;
         y \<leftarrow> py_get1 yk i;
         v \<leftarrow> gather_one P f gridtype x y;
         Some (fp[i := v])
       }) [0..<npart P] (replicate (npart P) 0)"

lemma mod_cell:
  "0 < n \<Longrightarrow> 0 \<le> (i::int) mod int n \<and> i mod int n < int n"
  by simp

lemma py_index_in: "0 \<le> i \<Longrightarrow> i < int n \<Longrightarrow> py_index n i = Some (nat i)"
  by (simp add: py_index_def)

lemma weights_sum:
  fixes wx1 :: real
  assumes "wx1 + wx2 = 1" "wy1 + wy2 = 1"
  shows "wx1 * wy1 + wx2 * wy1 + wx1 * wy2 + wx2 * wy2 = 1"
proof -
  have "wx1 * wy1 + wx2 * wy1 + wx1 * wy2 + wx2 * wy2 = (wx1 + wx2) * (wy1 + wy2)"
    by (simp add: algebra_simps)
  then show ?thesis using assms by simp
qed

subsection \<open>Current deposition\<close>

text \<open>
  The three blocks of the loop of \<open>particle_to_grid_J\<close>, up to the accumulation.
  On the LR grid the upper \<open>x\<close> index is folded to 0 when it equals \<open>nxn - 1\<close>, on the
  UD grid the upper \<open>y\<close> index when it equals \<open>nyn - 1\<close>; the other axes wrap by modulo.
  As in the gather, the quotients are exact reals.
\<close>

definition cell_LR ::
  "params \<Rightarrow> real \<Rightarrow> real \<Rightarrow> int \<times> int \<times> int \<times> int \<times> real \<times> real \<times> real \<times> real" where
  "cell_LR P x y =
     (let xa = x / dx P;
          ya = (y - dy P / 2) / dy P;
          i1 = \<lfloor>xa\<rfloor>;
          i2 = i1 + 1;
          i2 = (if i2 = int (nxn P) - 1 then 0 else i2);
          j1 = \<lfloor>ya\<rfloor>;
          j2 = j1 + 1;
          wx2 = xa - of_int i1;
          wx1 = 1 - wx2;
          wy2 = ya - of_int j1;
          wy1 = 1 - wy2
      in (i1, i2, j1 mod int (nyc P), j2 mod int (nyc P), wx1, wx2, wy1, wy2))"

definition cell_UD ::
  "params \<Rightarrow> real \<Rightarrow> real \<Rightarrow> int \<times> int \<times> int \<times> int \<times> real \<times> real \<times> real \<times> real" where
  "cell_UD P x y =
     (let xa = (x - dx P / 2) / dx P;
          ya = y / dy P;
          i1 = \<lfloor>xa\<rfloor>;
          i2 = i1 + 1;
          j1 = \<lfloor>ya\<rfloor>;
          j2 = j1 + 1;
          j2 = (if j2 = int (nyn P) - 1 then 0 else j2);
          wx2 = xa - of_int i1;
          wx1 = 1 - wx2;
          wy2 = ya - of_int j1;
          wy1 = 1 - wy2
      in (i1 mod int (nxc P), i2 mod int (nxc P), j1, j2, wx1, wx2, wy1, wy2))"

definition cell_C ::
  "params \<Rightarrow> real \<Rightarrow> real \<Rightarrow> int \<times> int \<times> int \<times> int \<times> real \<times> real \<times> real \<times> real" where
  "cell_C P x y =
     (let xa = (x - dx P / 2) / dx P;
          ya = (y - dy P / 2) / dy P;
          i1 = \<lfloor>xa\<rfloor>;
          i2 = i1 + 1;
          j1 = \<lfloor>ya\<rfloor>;
          j2 = j1 + 1;
          wx2 = xa - of_int i1;
          wx1 = 1 - wx2;
          wy2 = ya - of_int j1;
          wy1 = 1 - wy2
      in (i1 mod int (nxc P), i2 mod int (nxc P), j1 mod int (nyc P), j2 mod int (nyc P),
          wx1, wx2, wy1, wy2))"

text \<open>The four accumulations of one block; \<open>s\<close> is the deposited quantity per unit weight.\<close>

definition accumulate ::
  "real arr2 \<Rightarrow> int \<times> int \<times> int \<times> int \<times> real \<times> real \<times> real \<times> real \<Rightarrow> (real \<Rightarrow> real)
     \<Rightarrow> real arr2 option" where
  "accumulate J cell s =
     (case cell of (i1, i2, j1, j2, wx1, wx2, wy1, wy2) \<Rightarrow> do {
        J \<leftarrow> py_add2 J i1 j1 (s (wx1 * wy1));
        J \<leftarrow> py_add2 J i2 j1 (s (wx2 * wy1));
        J \<leftarrow> py_add2 J i1 j2 (s (wx1 * wy2));
        py_add2 J i2 j2 (s (wx2 * wy2))
      })"

definition particle_to_grid_J ::
  "params \<Rightarrow> real list \<Rightarrow> real list \<Rightarrow> real list \<Rightarrow> real list \<Rightarrow> real list \<Rightarrow> real list
     \<Rightarrow> (real arr2 \<times> real arr2 \<times> real arr2) option" where
  "particle_to_grid_J P xk yk uk vk wk qk = do {
     (Jx, Jy, Jz) \<leftarrow> for_range (\<lambda>i (Jx, Jy, Jz). do {
         x \<leftarrow> py_get1 xk i;
         y \<leftarrow> py_get1 yk i;
         q \<leftarrow> py_get1 qk i;
         u \<leftarrow> py_get1 uk i;
         Jx \<leftarrow> accumulate Jx (cell_LR P x y) (\<lambda>w. w * q * u / dx P / dy P);
         v \<leftarrow> py_get1 vk i;
         Jy \<leftarrow> accumulate Jy (cell_UD P x y) (\<lambda>w. w * q * v / dx P / dy P);
         w \<leftarrow> py_get1 wk i;
         Jz \<leftarrow> accumulate Jz (cell_C P x y) (\<lambda>w'. w' * q * w / dx P / dy P);
         Some (Jx, Jy, Jz)
       }) [0..<npart P]
       (zeros2 (nxn P) (nyc P), zeros2 (nxc P) (nyn P), zeros2 (nxc P) (nyc P));
     r \<leftarrow> row2 Jx 0 0 (ncols Jx);
     Jx \<leftarrow> assign_row Jx (nxn P - 1) 0 (ncols Jx) r;
     c \<leftarrow> col2 Jy 0 (nrows Jy) 0;
     Jy \<leftarrow> assign_col Jy 0 (nrows Jy) (nyn P - 1) c;
     Some (Jx, Jy, Jz)
   }"

lemma cell_C_bounds:
  assumes wf: "wf_params P"
    and c: "cell_C P x y = (i1, i2, j1, j2, wx1, wx2, wy1, wy2)"
  shows "0 \<le> i1 \<and> i1 < int (nxc P) \<and> 0 \<le> i2 \<and> i2 < int (nxc P) \<and>
         0 \<le> j1 \<and> j1 < int (nyc P) \<and> 0 \<le> j2 \<and> j2 < int (nyc P)"
proof -
  have n: "0 < nxc P" "0 < nyc P" using wf by (simp_all add: wf_params_def)
  show ?thesis
    using c mod_cell [OF n(1)] mod_cell [OF n(2)]
    by (auto simp: cell_C_def Let_def)
qed

subsection \<open>Charge deposition\<close>

text \<open>
  \<open>particle_to_grid_rho\<close> of the staggered script: the loop deposits each charge on the
  four surrounding cell centres; afterwards the fixed background \<open>rho_ion\<close> is added when
  the flag \<open>electron_and_ion\<close> is set.
\<close>

definition deposit_rho :: "params \<Rightarrow> real list \<Rightarrow> real list \<Rightarrow> real list \<Rightarrow> real arr2 option" where
  "deposit_rho P xk yk q =
     for_range (\<lambda>i rho. do {
         x \<leftarrow> py_get1 xk i;
         y \<leftarrow> py_get1 yk i;
         qi \<leftarrow> py_get1 q i;
         accumulate rho (cell_C P x y) (\<lambda>w. w * qi)
       }) [0..<npart P] (zeros2 (nxc P) (nyc P))"

definition particle_to_grid_rho ::
  "params \<Rightarrow> bool \<Rightarrow> real arr2 \<Rightarrow> real list \<Rightarrow> real list \<Rightarrow> real list \<Rightarrow> real arr2 option" where
  "particle_to_grid_rho P electron_and_ion rho_ion xk yk q = do {
     rho \<leftarrow> deposit_rho P xk yk q;
     if electron_and_ion then do {
       s \<leftarrow> ew2 (+) rho rho_ion;
       if nrows s = nrows rho \<and> ncols s = ncols rho then Some s else None
     } else Some rho
   }"

text \<open>What one particle adds to the cell \<open>(r, c)\<close>.\<close>

definition share ::
  "int \<times> int \<times> int \<times> int \<times> real \<times> real \<times> real \<times> real \<Rightarrow> (real \<Rightarrow> real) \<Rightarrow> nat \<Rightarrow> nat \<Rightarrow> real" where
  "share cell s r c =
     (case cell of (i1, i2, j1, j2, wx1, wx2, wy1, wy2) \<Rightarrow>
        (if r = nat i1 \<and> c = nat j1 then s (wx1 * wy1) else 0) +
        (if r = nat i2 \<and> c = nat j1 then s (wx2 * wy1) else 0) +
        (if r = nat i1 \<and> c = nat j2 then s (wx1 * wy2) else 0) +
        (if r = nat i2 \<and> c = nat j2 then s (wx2 * wy2) else 0))"

lemma sum_list_update_add:
  fixes xs :: "real list"
  shows "k < length xs \<Longrightarrow> sum_list (xs[k := xs ! k + v]) = sum_list xs + v"
proof (induction xs arbitrary: k)
  case Nil
  then show ?case by simp
next
  case (Cons a xs)
  then show ?case by (cases k) simp_all
qed

lemma idx_inj:
  fixes m :: nat
  assumes "c < m" "c' < m"
  shows "(r * m + c = r' * m + c') = (r = r' \<and> c = c')"
proof
  assume e: "r * m + c = r' * m + c'"
  have "(r * m + c) div m = r" "(r' * m + c') div m = r'"
    using assms by simp_all
  then have "r = r'" using e by simp
  then show "r = r' \<and> c = c'" using e by simp
qed simp

lemma py_add2_get:
  assumes a: "has_shape a n m" and i: "0 \<le> i" "i < int n" and j: "0 \<le> j" "j < int m"
  shows "\<exists>b. py_add2 a i j v = Some b \<and> has_shape b n m \<and>
           sum_list (dat b) = sum_list (dat a) + v \<and>
           (\<forall>r<n. \<forall>c<m. get2 b r c = get2 a r c + (if r = nat i \<and> c = nat j then v else 0))"
proof -
  let ?k = "nat i * m + nat j"
  let ?b = "Arr2 n m ((dat a)[?k := get2 a (nat i) (nat j) + v])"
  have k: "?k < length (dat a)"
    using a i j by (simp add: has_shape_def idx_bound)
  have 1: "py_add2 a i j v = Some ?b"
    using a i j by (simp add: py_add2_def py_index_in has_shape_def)
  have 2: "has_shape ?b n m" using a by (simp add: has_shape_def)
  have 3: "sum_list (dat ?b) = sum_list (dat a) + v"
    using sum_list_update_add [OF k, of v] a by (simp add: get2_def has_shape_def)
  have 4: "get2 ?b r c = get2 a r c + (if r = nat i \<and> c = nat j then v else 0)"
    if "r < n" "c < m" for r c
  proof -
    have "r * m + c < length (dat a)"
      using a that by (simp add: has_shape_def idx_bound)
    moreover have "(?k = r * m + c) = (nat i = r \<and> nat j = c)"
      using idx_inj [of "nat j" m c "nat i" r] j that by simp
    ultimately show ?thesis
      using a by (auto simp: get2_def has_shape_def nth_list_update)
  qed
  show ?thesis using 1 2 3 4 by blast
qed

lemma accumulate_get:
  assumes a: "has_shape J n m"
    and b: "0 \<le> i1 \<and> i1 < int n \<and> 0 \<le> i2 \<and> i2 < int n \<and>
            0 \<le> j1 \<and> j1 < int m \<and> 0 \<le> j2 \<and> j2 < int m"
  shows "\<exists>J'. accumulate J (i1, i2, j1, j2, wx1, wx2, wy1, wy2) s = Some J' \<and> has_shape J' n m \<and>
           sum_list (dat J') = sum_list (dat J) + (s (wx1 * wy1) + s (wx2 * wy1) +
                                 s (wx1 * wy2) + s (wx2 * wy2)) \<and>
           (\<forall>r<n. \<forall>c<m. get2 J' r c =
                get2 J r c + share (i1, i2, j1, j2, wx1, wx2, wy1, wy2) s r c)"
proof -
  obtain J1 where 1: "py_add2 J i1 j1 (s (wx1 * wy1)) = Some J1" "has_shape J1 n m"
      "sum_list (dat J1) = sum_list (dat J) + s (wx1 * wy1)"
      "\<forall>r<n. \<forall>c<m. get2 J1 r c = get2 J r c + (if r = nat i1 \<and> c = nat j1 then s (wx1 * wy1) else 0)"
    using py_add2_get [OF a, of i1 j1] b by blast
  obtain J2 where 2: "py_add2 J1 i2 j1 (s (wx2 * wy1)) = Some J2" "has_shape J2 n m"
      "sum_list (dat J2) = sum_list (dat J1) + s (wx2 * wy1)"
      "\<forall>r<n. \<forall>c<m. get2 J2 r c = get2 J1 r c + (if r = nat i2 \<and> c = nat j1 then s (wx2 * wy1) else 0)"
    using py_add2_get [OF 1(2), of i2 j1] b by blast
  obtain J3 where 3: "py_add2 J2 i1 j2 (s (wx1 * wy2)) = Some J3" "has_shape J3 n m"
      "sum_list (dat J3) = sum_list (dat J2) + s (wx1 * wy2)"
      "\<forall>r<n. \<forall>c<m. get2 J3 r c = get2 J2 r c + (if r = nat i1 \<and> c = nat j2 then s (wx1 * wy2) else 0)"
    using py_add2_get [OF 2(2), of i1 j2] b by blast
  obtain J4 where 4: "py_add2 J3 i2 j2 (s (wx2 * wy2)) = Some J4" "has_shape J4 n m"
      "sum_list (dat J4) = sum_list (dat J3) + s (wx2 * wy2)"
      "\<forall>r<n. \<forall>c<m. get2 J4 r c = get2 J3 r c + (if r = nat i2 \<and> c = nat j2 then s (wx2 * wy2) else 0)"
    using py_add2_get [OF 3(2), of i2 j2] b by blast
  have "accumulate J (i1, i2, j1, j2, wx1, wx2, wy1, wy2) s = Some J4"
    using 1(1) 2(1) 3(1) 4(1) by (simp add: accumulate_def)
  moreover have "sum_list (dat J4) = sum_list (dat J) + (s (wx1 * wy1) + s (wx2 * wy1) +
                                 s (wx1 * wy2) + s (wx2 * wy2))"
    using 1(3) 2(3) 3(3) 4(3) by simp
  moreover have "\<forall>r<n. \<forall>c<m. get2 J4 r c =
                get2 J r c + share (i1, i2, j1, j2, wx1, wx2, wy1, wy2) s r c"
    using 1(4) 2(4) 3(4) 4(4) by (simp add: share_def)
  ultimately show ?thesis using 4(2) by blast
qed


lemma cell_C_weights:
  assumes "cell_C P x y = (i1, i2, j1, j2, wx1, wx2, wy1, wy2)"
  shows "wx1 + wx2 = 1" "wy1 + wy2 = 1"
  using assms by (auto simp: cell_C_def Let_def)

lemma deposit_rho_loop:
  assumes wf: "wf_params P"
    and l: "length xk = npart P" "length yk = npart P" "length q = npart P"
  shows "set js \<subseteq> {..<npart P} \<Longrightarrow> has_shape rho0 (nxc P) (nyc P) \<Longrightarrow>
    \<exists>rho. for_range (\<lambda>i rho. do {
         x \<leftarrow> py_get1 xk i;
         y \<leftarrow> py_get1 yk i;
         qi \<leftarrow> py_get1 q i;
         accumulate rho (cell_C P x y) (\<lambda>w. w * qi)
       }) js rho0 = Some rho \<and> has_shape rho (nxc P) (nyc P) \<and>
       sum_list (dat rho) = sum_list (dat rho0) + sum_list (map (\<lambda>i. q ! i) js) \<and>
       (\<forall>r<nxc P. \<forall>c<nyc P. get2 rho r c = get2 rho0 r c +
          sum_list (map (\<lambda>i. share (cell_C P (xk ! i) (yk ! i)) (\<lambda>w. w * q ! i) r c) js))"
proof (induction js arbitrary: rho0)
  case Nil
  then show ?case by simp
next
  case (Cons i js)
  have i: "i < npart P" using Cons.prems(1) by simp
  obtain i1 i2 j1 j2 wx1 wx2 wy1 wy2 where
    c: "cell_C P (xk ! i) (yk ! i) = (i1, i2, j1, j2, wx1, wx2, wy1, wy2)"
    by (cases "cell_C P (xk ! i) (yk ! i)") auto
  note w = cell_C_weights [OF c]
  have q1: "wx1 * wy1 * q ! i + wx2 * wy1 * q ! i + wx1 * wy2 * q ! i + wx2 * wy2 * q ! i = q ! i"
  proof -
    have "wx1 * wy1 * q ! i + wx2 * wy1 * q ! i + wx1 * wy2 * q ! i + wx2 * wy2 * q ! i =
          (wx1 * wy1 + wx2 * wy1 + wx1 * wy2 + wx2 * wy2) * q ! i"
      by (simp add: algebra_simps)
    then show ?thesis using weights_sum [OF w] by simp
  qed
  obtain rho1 where r1:
    "accumulate rho0 (i1, i2, j1, j2, wx1, wx2, wy1, wy2) (\<lambda>w. w * q ! i) = Some rho1"
    "has_shape rho1 (nxc P) (nyc P)"
    "sum_list (dat rho1) = sum_list (dat rho0) + q ! i"
    "\<forall>r<nxc P. \<forall>c<nyc P. get2 rho1 r c =
        get2 rho0 r c + share (i1, i2, j1, j2, wx1, wx2, wy1, wy2) (\<lambda>w. w * q ! i) r c"
    using accumulate_get [OF Cons.prems(2) cell_C_bounds [OF wf c], of wx1 wx2 wy1 wy2
        "\<lambda>w. w * q ! i"] q1
    by auto
  obtain rho where r:
    "for_range (\<lambda>i rho. do {
         x \<leftarrow> py_get1 xk i;
         y \<leftarrow> py_get1 yk i;
         qi \<leftarrow> py_get1 q i;
         accumulate rho (cell_C P x y) (\<lambda>w. w * qi)
       }) js rho1 = Some rho" "has_shape rho (nxc P) (nyc P)"
    "sum_list (dat rho) = sum_list (dat rho1) + sum_list (map (\<lambda>i. q ! i) js)"
    "\<forall>r<nxc P. \<forall>c<nyc P. get2 rho r c = get2 rho1 r c +
          sum_list (map (\<lambda>i. share (cell_C P (xk ! i) (yk ! i)) (\<lambda>w. w * q ! i) r c) js)"
    using Cons.IH [OF _ r1(2)] Cons.prems(1) by auto
  have step: "(do {
         x \<leftarrow> py_get1 xk i;
         y \<leftarrow> py_get1 yk i;
         qi \<leftarrow> py_get1 q i;
         accumulate rho0 (cell_C P x y) (\<lambda>w. w * qi)
       }) = Some rho1"
    using i l r1(1) by (simp add: py_get1_def c)
  show ?case
    using r r1(3,4) by (simp add: step c)
qed

lemma sum_over_particles:
  assumes "length xk = n" "length yk = n" "length q = n"
  shows "sum_list (map (\<lambda>i. g (xk ! i) (yk ! i) (q ! i)) [0..<n]) =
         sum_mset (image_mset (\<lambda>(x, y, qi). g x y qi) (mset (zip xk (zip yk q))))"
proof -
  have "map (\<lambda>i. g (xk ! i) (yk ! i) (q ! i)) [0..<n] =
        map (\<lambda>(x, y, qi). g x y qi) (zip xk (zip yk q))"
    using assms by (intro nth_equalityI) simp_all
  then show ?thesis
    by (metis mset_map sum_mset_sum_list)
qed

lemma deposit_rho_closed:
  assumes wf: "wf_params P"
    and l: "length xk = npart P" "length yk = npart P" "length q = npart P"
  shows "\<exists>rho. deposit_rho P xk yk q = Some rho \<and> has_shape rho (nxc P) (nyc P) \<and>
       sum_list (dat rho) = sum_list q \<and>
       (\<forall>r<nxc P. \<forall>c<nyc P. get2 rho r c =
          sum_mset (image_mset (\<lambda>(x, y, qi). share (cell_C P x y) (\<lambda>w. w * qi) r c)
            (mset (zip xk (zip yk q)))))"
proof -
  have z: "has_shape (zeros2 (nxc P) (nyc P) :: real arr2) (nxc P) (nyc P)"
    by (simp add: has_shape_def)
  have s: "set [0..<npart P] \<subseteq> {..<npart P}" by auto
  obtain rho where r: "deposit_rho P xk yk q = Some rho" "has_shape rho (nxc P) (nyc P)"
    "sum_list (dat rho) = sum_list (dat (zeros2 (nxc P) (nyc P) :: real arr2)) +
       sum_list (map (\<lambda>i. q ! i) [0..<npart P])"
    "\<forall>r<nxc P. \<forall>c<nyc P. get2 rho r c = get2 (zeros2 (nxc P) (nyc P)) r c +
          sum_list (map (\<lambda>i. share (cell_C P (xk ! i) (yk ! i)) (\<lambda>w. w * q ! i) r c)
            [0..<npart P])"
    using deposit_rho_loop [OF wf l s z] unfolding deposit_rho_def by blast
  have "map (\<lambda>i. q ! i) [0..<npart P] = q"
    using l(3) by (metis map_nth)
  then have t: "sum_list (dat rho) = sum_list q"
    using r(3) by (simp add: zeros2_def sum_list_replicate)
  have "\<forall>r<nxc P. \<forall>c<nyc P. get2 rho r c =
          sum_mset (image_mset (\<lambda>(x, y, qi). share (cell_C P x y) (\<lambda>w. w * qi) r c)
            (mset (zip xk (zip yk q))))"
    using r(4) sum_over_particles [OF l, of "\<lambda>x y qi. share (cell_C P x y) (\<lambda>w. w * qi) _ _"]
    by simp
  then show ?thesis using r(1,2) t by blast
qed

text \<open>
  C8. The charge density deposited by the loop of \<open>particle_to_grid_rho\<close> (the value
  returned when no background is added) sums over all cells to the sum of the particle
  charges, and depositing the same particles in any other order gives the same array.
  The sums are exact sums of real numbers.
\<close>

theorem charge_conservation:
  assumes "wf_params P" "length xk = npart P" "length yk = npart P" "length q = npart P"
  shows "\<exists>rho. deposit_rho P xk yk q = Some rho \<and> has_shape rho (nxc P) (nyc P) \<and>
       particle_to_grid_rho P False rho_ion xk yk q = Some rho \<and>
       sum_list (dat rho) = sum_list q \<and>
       (\<forall>xk' yk' q'. length xk' = npart P \<and> length yk' = npart P \<and> length q' = npart P \<and>
           mset (zip xk' (zip yk' q')) = mset (zip xk (zip yk q)) \<longrightarrow>
           deposit_rho P xk' yk' q' = Some rho)"
proof -
  obtain rho where r: "deposit_rho P xk yk q = Some rho" "has_shape rho (nxc P) (nyc P)"
    "sum_list (dat rho) = sum_list q"
    "\<forall>r<nxc P. \<forall>c<nyc P. get2 rho r c =
          sum_mset (image_mset (\<lambda>(x, y, qi). share (cell_C P x y) (\<lambda>w. w * qi) r c)
            (mset (zip xk (zip yk q))))"
    using deposit_rho_closed [OF assms] by blast
  have perm: "deposit_rho P xk' yk' q' = Some rho"
    if p: "length xk' = npart P \<and> length yk' = npart P \<and> length q' = npart P \<and>
           mset (zip xk' (zip yk' q')) = mset (zip xk (zip yk q))" for xk' yk' q'
  proof -
    obtain rho' where r': "deposit_rho P xk' yk' q' = Some rho'"
      "has_shape rho' (nxc P) (nyc P)"
      "\<forall>r<nxc P. \<forall>c<nyc P. get2 rho' r c =
          sum_mset (image_mset (\<lambda>(x, y, qi). share (cell_C P x y) (\<lambda>w. w * qi) r c)
            (mset (zip xk' (zip yk' q'))))"
      using deposit_rho_closed [OF assms(1), of xk' yk' q'] p by blast
    have "rho' = rho"
      using r'(2) r(2)
    proof (rule arr2_eqI)
      fix i j
      assume "i < nxc P" "j < nyc P"
      then show "get2 rho' i j = get2 rho i j"
        using r(4) r'(3) p by simp
    qed
    then show ?thesis using r'(1) by simp
  qed
  have "particle_to_grid_rho P False rho_ion xk yk q = Some rho"
    using r(1) by (simp add: particle_to_grid_rho_def)
  then show ?thesis
    using r(1,2,3) perm by blast
qed

theorem charge_conservation_witness:
  "\<exists>rho. deposit_rho (P22\<lparr>npart := 2\<rparr>) [1 / 4, 1] [7 / 4, 1] [3, 5] = Some rho \<and>
         sum_list (dat rho) = 8 \<and>
         deposit_rho (P22\<lparr>npart := 2\<rparr>) [1, 1 / 4] [1, 7 / 4] [5, 3] = Some rho"
proof -
  have h: "wf_params (P22\<lparr>npart := 2\<rparr>)" "length [1 / 4, 1::real] = npart (P22\<lparr>npart := 2\<rparr>)"
    "length [7 / 4, 1::real] = npart (P22\<lparr>npart := 2\<rparr>)"
    "length [3, 5::real] = npart (P22\<lparr>npart := 2\<rparr>)"
    by (simp_all add: wf_params_def P22_def)
  obtain rho where r: "deposit_rho (P22\<lparr>npart := 2\<rparr>) [1 / 4, 1] [7 / 4, 1] [3, 5] = Some rho"
    "sum_list (dat rho) = sum_list [3, 5]"
    "\<forall>xk' yk' q'. length xk' = npart (P22\<lparr>npart := 2\<rparr>) \<and>
        length yk' = npart (P22\<lparr>npart := 2\<rparr>) \<and> length q' = npart (P22\<lparr>npart := 2\<rparr>) \<and>
        mset (zip xk' (zip yk' q')) = mset (zip [1 / 4, 1] (zip [7 / 4, 1] [3, 5])) \<longrightarrow>
        deposit_rho (P22\<lparr>npart := 2\<rparr>) xk' yk' q' = Some rho"
    using charge_conservation [OF h] by blast
  have "deposit_rho (P22\<lparr>npart := 2\<rparr>) [1, 1 / 4] [1, 7 / 4] [5, 3] = Some rho"
    using r(3) [rule_format, of "[1, 1 / 4]" "[1, 7 / 4]" "[5, 3]"]
    by (simp add: P22_def add_mset_commute)
  then show ?thesis using r(1,2) by simp
qed

section \<open>The residual of \<open>iPiC_2D3V_cov_yee.py\<close>\<close>

text \<open>
  The simulation state: the fields \<open>Ex\<close>, \<open>Ey\<close>, \<open>Ez\<close>, \<open>Bx\<close>, \<open>By\<close>, \<open>Bz\<close> and the
  particle arrays \<open>x\<close>, \<open>y\<close>, \<open>u\<close>, \<open>v\<close>, \<open>w\<close>, \<open>q\<close>, \<open>QM\<close> of the script (module-level
  variables there). The field names carry a prefix, the script's names being variables
  or constants of the logic.
\<close>

record state =
  fEx :: "real arr2"  fEy :: "real arr2"  fEz :: "real arr2"
  fBx :: "real arr2"  fBy :: "real arr2"  fBz :: "real arr2"
  px :: "real list"  py :: "real list"
  pu :: "real list"  pv :: "real list"  pw :: "real list"
  pq :: "real list"  pQM :: "real list"

definition vec_add :: "real list option \<Rightarrow> real list option \<Rightarrow> real list option" where
  "vec_add a b = do { x \<leftarrow> a; y \<leftarrow> b; ew1 (+) x y }"

definition vec_sub :: "real list option \<Rightarrow> real list option \<Rightarrow> real list option" where
  "vec_sub a b = do { x \<leftarrow> a; y \<leftarrow> b; ew1 (-) x y }"

definition vec_mul :: "real list option \<Rightarrow> real list option \<Rightarrow> real list option" where
  "vec_mul a b = do { x \<leftarrow> a; y \<leftarrow> b; ew1 (*) x y }"

definition vec_div :: "real list option \<Rightarrow> real list option \<Rightarrow> real list option" where
  "vec_div a b = do { x \<leftarrow> a; y \<leftarrow> b; ew1 (/) x y }"

definition vec_map :: "(real \<Rightarrow> real) \<Rightarrow> real list option \<Rightarrow> real list option" where
  "vec_map f a = map_option (map f) a"

definition arr_map :: "(real \<Rightarrow> real) \<Rightarrow> real arr2 option \<Rightarrow> real arr2 option" where
  "arr_map f a = map_option (smap2 f) a"

text \<open>
  Python's \<open>a % b\<close> on floats, the result taking the sign of \<open>b\<close>. Over the reals it
  is below \<open>b\<close> for positive \<open>b\<close>; in \<open>float64\<close> the result for a tiny negative \<open>a\<close>
  rounds to \<open>b\<close> itself, which the real number model does not show.
\<close>

definition py_fmod :: "real \<Rightarrow> real \<Rightarrow> real" where
  "py_fmod a b = a - b * of_int \<lfloor>a / b\<rfloor>"

definition residual :: "params \<Rightarrow> metric \<Rightarrow> state \<Rightarrow> real list \<Rightarrow> real list option" where
  "residual P M S xkrylov = do {
     (Exnew, Eynew, Eznew, unew, vnew, wnew) \<leftarrow> krylov_to_phys P xkrylov;
     ubar \<leftarrow> vec_map (\<lambda>a. a / 2) (vec_add (Some (pu S)) (Some unew));
     vbar \<leftarrow> vec_map (\<lambda>a. a / 2) (vec_add (Some (pv S)) (Some vnew));
     wbar \<leftarrow> vec_map (\<lambda>a. a / 2) (vec_add (Some (pw S)) (Some wnew));
     gbar \<leftarrow> (if relativistic P then do {
         gold \<leftarrow> vec_map sqrt (vec_add (vec_add
                   (vec_map (\<lambda>a. 1 + a) (Some (map (\<lambda>a. a\<^sup>2) (pu S))))
                   (Some (map (\<lambda>a. a\<^sup>2) (pv S)))) (Some (map (\<lambda>a. a\<^sup>2) (pw S))));
         gnew \<leftarrow> vec_map sqrt (vec_add (vec_add
                   (vec_map (\<lambda>a. 1 + a) (Some (map (\<lambda>a. a\<^sup>2) unew)))
                   (Some (map (\<lambda>a. a\<^sup>2) vnew))) (Some (map (\<lambda>a. a\<^sup>2) wnew)));
         vec_map (\<lambda>a. a / 2) (vec_add (Some gold) (Some gnew)) }
       else Some (replicate (npart P) 1));
     xbar \<leftarrow> vec_add (Some (px S))
               (vec_map (\<lambda>a. a * dt P / 2) (vec_div (Some ubar) (Some gbar)));
     ybar \<leftarrow> vec_add (Some (py S))
               (vec_map (\<lambda>a. a * dt P / 2) (vec_div (Some vbar) (Some gbar)));
     let xbar = map (\<lambda>a. py_fmod a (Lx P)) xbar;
     let ybar = map (\<lambda>a. py_fmod a (Ly P)) ybar;
     ug \<leftarrow> vec_div (Some ubar) (Some gbar);
     vg \<leftarrow> vec_div (Some vbar) (Some gbar);
     wg \<leftarrow> vec_div (Some wbar) (Some gbar);
     (Jx, Jy, Jz) \<leftarrow> particle_to_grid_J P xbar ybar ug vg wg (pq S);
     Exbar \<leftarrow> arr_map (\<lambda>a. a / 2) (arr_add (Some Exnew) (Some (fEx S)));
     Eybar \<leftarrow> arr_map (\<lambda>a. a / 2) (arr_add (Some Eynew) (Some (fEy S)));
     Ezbar \<leftarrow> arr_map (\<lambda>a. a / 2) (arr_add (Some Eznew) (Some (fEz S)));
     (curlE_x, curlE_y, curlE_z) \<leftarrow> curl P M Exbar Eybar Ezbar E_type;
     Bxbar \<leftarrow> arr_sub (Some (fBx S)) (arr_map (\<lambda>a. dt P / 2 * a) (Some curlE_x));
     Bybar \<leftarrow> arr_sub (Some (fBy S)) (arr_map (\<lambda>a. dt P / 2 * a) (Some curlE_y));
     Bzbar \<leftarrow> arr_sub (Some (fBz S)) (arr_map (\<lambda>a. dt P / 2 * a) (Some curlE_z));
     (curlB_x, curlB_y, curlB_z) \<leftarrow> curl P M Bxbar Bybar Bzbar B_type;
     resEx \<leftarrow> arr_add (arr_sub (arr_sub (Some Exnew) (Some (fEx S)))
                                 (arr_map (\<lambda>a. dt P * a) (Some curlB_x)))
                        (arr_map (\<lambda>a. dt P * a) (Some Jx));
     resEy \<leftarrow> arr_add (arr_sub (arr_sub (Some Eynew) (Some (fEy S)))
                                 (arr_map (\<lambda>a. dt P * a) (Some curlB_y)))
                        (arr_map (\<lambda>a. dt P * a) (Some Jy));
     resEz \<leftarrow> arr_add (arr_sub (arr_sub (Some Eznew) (Some (fEz S)))
                                 (arr_map (\<lambda>a. dt P * a) (Some curlB_z)))
                        (arr_map (\<lambda>a. dt P * a) (Some Jz));
     Exp \<leftarrow> grid_to_particle P xbar ybar Exbar Grid_LR;
     Eyp \<leftarrow> grid_to_particle P xbar ybar Eybar Grid_UD;
     Ezp \<leftarrow> grid_to_particle P xbar ybar Ezbar Grid_C;
     Bxp \<leftarrow> grid_to_particle P xbar ybar Bxbar Grid_UD;
     Byp \<leftarrow> grid_to_particle P xbar ybar Bybar Grid_LR;
     Bzp \<leftarrow> grid_to_particle P xbar ybar Bzbar Grid_N;
     resu \<leftarrow> vec_sub (vec_sub (Some unew) (Some (pu S)))
              (vec_map (\<lambda>a. a * dt P) (vec_mul (Some (pQM S))
                 (vec_sub (vec_add (Some Exp) (vec_mul (vec_div (Some vbar) (Some gbar)) (Some Bzp)))
                          (vec_mul (vec_div (Some wbar) (Some gbar)) (Some Byp)))));
     resv \<leftarrow> vec_sub (vec_sub (Some vnew) (Some (pv S)))
              (vec_map (\<lambda>a. a * dt P) (vec_mul (Some (pQM S))
                 (vec_add (vec_sub (Some Eyp) (vec_mul (vec_div (Some ubar) (Some gbar)) (Some Bzp)))
                          (vec_mul (vec_div (Some wbar) (Some gbar)) (Some Bxp)))));
     resw \<leftarrow> vec_sub (vec_sub (Some wnew) (Some (pw S)))
              (vec_map (\<lambda>a. a * dt P) (vec_mul (Some (pQM S))
                 (vec_sub (vec_add (Some Ezp) (vec_mul (vec_div (Some ubar) (Some gbar)) (Some Byp)))
                          (vec_mul (vec_div (Some vbar) (Some gbar)) (Some Bxp)))));
     phys_to_krylov P resEx resEy resEz resu resv resw
   }"

definition wf_state :: "params \<Rightarrow> state \<Rightarrow> bool" where
  "wf_state P S =
     (has_shape (fEx S) (nxn P) (nyc P) \<and> has_shape (fEy S) (nxc P) (nyn P) \<and>
      has_shape (fEz S) (nxc P) (nyc P) \<and> has_shape (fBx S) (nxc P) (nyn P) \<and>
      has_shape (fBy S) (nxn P) (nyc P) \<and> has_shape (fBz S) (nxn P) (nyn P) \<and>
      length (px S) = npart P \<and> length (py S) = npart P \<and> length (pu S) = npart P \<and>
      length (pv S) = npart P \<and> length (pw S) = npart P \<and> length (pq S) = npart P \<and>
      length (pQM S) = npart P)"

definition wf_metric :: "params \<Rightarrow> metric \<Rightarrow> bool" where
  "wf_metric P M =
     (has_shape (g11e M) (nxn P) (nyc P) \<and> has_shape (g12e M) (nxc P) (nyn P) \<and>
      has_shape (g13e M) (nxc P) (nyc P) \<and> has_shape (g21e M) (nxn P) (nyc P) \<and>
      has_shape (g22e M) (nxc P) (nyn P) \<and> has_shape (g23e M) (nxc P) (nyc P) \<and>
      has_shape (g31e M) (nxn P) (nyc P) \<and> has_shape (g32e M) (nxc P) (nyn P) \<and>
      has_shape (g33e M) (nxc P) (nyc P) \<and> has_shape (g11b M) (nxc P) (nyn P) \<and>
      has_shape (g12b M) (nxn P) (nyc P) \<and> has_shape (g13b M) (nxn P) (nyn P) \<and>
      has_shape (g21b M) (nxc P) (nyn P) \<and> has_shape (g22b M) (nxn P) (nyc P) \<and>
      has_shape (g23b M) (nxn P) (nyn P) \<and> has_shape (g31b M) (nxc P) (nyn P) \<and>
      has_shape (g32b M) (nxn P) (nyc P) \<and> has_shape (g33b M) (nxn P) (nyn P) \<and>
      has_shape (J_UD M) (nxc P) (nyn P) \<and> has_shape (J_LR M) (nxn P) (nyc P) \<and>
      has_shape (J_c M) (nxc P) (nyc P) \<and> has_shape (J_n M) (nxn P) (nyn P))"

text \<open>An array expression that evaluates, to an array of a given shape.\<close>

definition shaped :: "nat \<Rightarrow> nat \<Rightarrow> 'a arr2 option \<Rightarrow> bool" where
  "shaped n m X = (\<exists>a. X = Some a \<and> has_shape a n m)"

lemma shaped_Some [simp]: "shaped n m (Some a) = has_shape a n m"
  by (simp add: shaped_def)

lemma shaped_bin:
  assumes "shaped n m A" "shaped n m B"
  shows "shaped n m (arr_add A B)" "shaped n m (arr_sub A B)" "shaped n m (arr_mul A B)"
    "shaped n m (arr_div A B)"
  using assms
  by (auto simp: shaped_def arr_add_def arr_sub_def arr_mul_def arr_div_def ew2_same has_shape_def)

lemma shaped_un:
  assumes "shaped n m A"
  shows "shaped n m (arr_neg A)" "shaped n m (arr_map f A)"
  using assms by (auto simp: shaped_def arr_neg_def arr_map_def has_shape_def)

lemma shaped_stencil:
  assumes "0 < nxc P" "0 < nyc P" "shaped (fst (stencil_src P s)) (snd (stencil_src P s)) A"
  shows "shaped (fst (stencil_dst P s)) (snd (stencil_dst P s)) (arr_avg P A s)"
    "shaped (fst (stencil_dst P s)) (snd (stencil_dst P s)) (arr_dirder P A s)"
  using assms stencil_result [of P _ s]
  by (auto simp: shaped_def arr_avg_def arr_dirder_def)

lemmas shaped_avg =
  shaped_stencil(1) [of _ C2UD, simplified] shaped_stencil(1) [of _ C2LR, simplified]
  shaped_stencil(1) [of _ UD2N, simplified] shaped_stencil(1) [of _ LR2N, simplified]
  shaped_stencil(1) [of _ N2LR, simplified] shaped_stencil(1) [of _ N2UD, simplified]
  shaped_stencil(1) [of _ LR2C, simplified] shaped_stencil(1) [of _ UD2C, simplified]

lemmas shaped_dirder =
  shaped_stencil(2) [of _ C2UD, simplified] shaped_stencil(2) [of _ C2LR, simplified]
  shaped_stencil(2) [of _ UD2N, simplified] shaped_stencil(2) [of _ LR2N, simplified]
  shaped_stencil(2) [of _ N2LR, simplified] shaped_stencil(2) [of _ N2UD, simplified]
  shaped_stencil(2) [of _ LR2C, simplified] shaped_stencil(2) [of _ UD2C, simplified]

lemmas shaped_intros = shaped_bin shaped_un shaped_avg shaped_dirder

lemma shaped_triple:
  assumes "shaped n1 m1 X" "shaped n2 m2 Y" "shaped n3 m3 Z"
  shows "\<exists>cx cy cz. do { cx \<leftarrow> X; cy \<leftarrow> Y; cz \<leftarrow> Z; Some (cx, cy, cz) } = Some (cx, cy, cz) \<and>
           has_shape cx n1 m1 \<and> has_shape cy n2 m2 \<and> has_shape cz n3 m3"
  using assms by (auto simp: shaped_def)

lemma curl_shapes_E:
  assumes n: "0 < nxc P" "0 < nyc P" and m: "wf_metric P M"
    and f: "has_shape fx (nxn P) (nyc P)" "has_shape fy (nxc P) (nyn P)"
      "has_shape fz (nxc P) (nyc P)"
  shows "\<exists>cx cy cz. curl P M fx fy fz E_type = Some (cx, cy, cz) \<and>
           has_shape cx (nxc P) (nyn P) \<and> has_shape cy (nxn P) (nyc P) \<and>
           has_shape cz (nxn P) (nyn P)"
  unfolding curl_def fieldtype.case
  by (rule shaped_triple; (intro shaped_intros n; simp add: m [unfolded wf_metric_def] f)+)

text \<open>A vector given by its entries.\<close>

definition mk1 :: "nat \<Rightarrow> (nat \<Rightarrow> 'a) \<Rightarrow> 'a list" where
  "mk1 n f = map f [0..<n]"

lemma length_mk1 [simp]: "length (mk1 n f) = n"
  by (simp add: mk1_def)

lemma nth_mk1 [simp]: "p < n \<Longrightarrow> mk1 n f ! p = f p"
  by (simp add: mk1_def)

lemma mk1_bcong:
  "n = n' \<Longrightarrow> (\<And>p. p < n' \<Longrightarrow> f p = g p) \<Longrightarrow> mk1 n f = mk1 n' g"
  by (simp add: mk1_def)

lemma ew1_mk1:
  "length xs = n \<Longrightarrow> length ys = n \<Longrightarrow> ew1 f xs ys = Some (mk1 n (\<lambda>p. f (xs ! p) (ys ! p)))"
  by (auto simp: ew1_same mk1_def intro!: nth_equalityI)

lemma map_mk1: "length xs = n \<Longrightarrow> map f xs = mk1 n (\<lambda>p. f (xs ! p))"
  by (auto simp: mk1_def intro!: nth_equalityI)

lemma smap2_mk2:
  "has_shape a n m \<Longrightarrow> smap2 f a = mk2 n m (\<lambda>i j. f (get2 a i j))"
  by (rule arr2_eqI [of _ n m]) (simp_all add: has_shape_def)

lemma krylov_to_phys_shapes:
  assumes "length xkrylov = krylov_len P"
  shows "\<exists>Exk Eyk Ezk uk vk wk.
     krylov_to_phys P xkrylov = Some (Exk, Eyk, Ezk, uk, vk, wk) \<and>
     has_shape Exk (nxn P) (nyc P) \<and> has_shape Eyk (nxc P) (nyn P) \<and>
     has_shape Ezk (nxc P) (nyc P) \<and>
     length uk = npart P \<and> length vk = npart P \<and> length wk = npart P"
  using assms
  by (simp add: krylov_to_phys_def krylov_len_def reshape2_def slice1_def Let_def)

lemma half_expr:
  "has_shape A n m \<Longrightarrow> has_shape B n m \<Longrightarrow>
   arr_map (\<lambda>a. a / 2) (arr_add (Some A) (Some B)) =
     Some (mk2 n m (\<lambda>i j. (get2 A i j + get2 B i j) / 2))"
  by (simp add: arr_map_def arr_add_def ew2_same has_shape_def smap2_mk2 cong: mk2_bcong)

lemma bbar_expr:
  "has_shape A n m \<Longrightarrow> has_shape C n m \<Longrightarrow>
   arr_sub (Some A) (arr_map (\<lambda>a. c * a) (Some C)) =
     Some (mk2 n m (\<lambda>i j. get2 A i j - c * get2 C i j))"
  by (simp add: arr_map_def arr_sub_def ew2_same has_shape_def cong: mk2_bcong)

lemma vhalf_expr:
  "length a = n \<Longrightarrow> length b = n \<Longrightarrow>
   vec_map (\<lambda>a. a / 2) (vec_add (Some a) (Some b)) = Some (mk1 n (\<lambda>p. (a ! p + b ! p) / 2))"
  by (simp add: vec_map_def vec_add_def ew1_mk1 map_mk1 cong: mk1_bcong)

lemma vgamma_expr:
  "length a = n \<Longrightarrow> length b = n \<Longrightarrow> length c = n \<Longrightarrow>
   vec_map sqrt (vec_add (vec_add (vec_map (\<lambda>a. 1 + a) (Some (map (\<lambda>a. a\<^sup>2) a)))
       (Some (map (\<lambda>a. a\<^sup>2) b))) (Some (map (\<lambda>a. a\<^sup>2) c))) =
     Some (mk1 n (\<lambda>p. sqrt (1 + (a ! p)\<^sup>2 + (b ! p)\<^sup>2 + (c ! p)\<^sup>2)))"
  by (simp add: vec_map_def vec_add_def ew1_mk1 map_mk1 cong: mk1_bcong)

lemma wf_metric_flat: "wf_metric P (flat_metric P)"
  by (simp add: wf_metric_def flat_metric_def has_shape_def)

text \<open>
  A small configuration: two cells in \<open>x\<close>, one in \<open>y\<close>, unit spacing and time step, no
  particles, all fields zero but \<open>Ez\<close>, which alternates between the two cells.
\<close>

definition P21 :: params where
  "P21 = \<lparr>nxc = 2, nyc = 1, Lx = 2, Ly = 1, dt = 1, npart = 0, relativistic = False\<rparr>"

definition S21 :: state where
  "S21 = \<lparr>fEx = zeros2 3 1, fEy = zeros2 2 2, fEz = Arr2 2 1 [1, - 1],
          fBx = zeros2 2 2, fBy = zeros2 3 1, fBz = zeros2 3 2,
          px = [], py = [], pu = [], pv = [], pw = [], pq = [], pQM = []\<rparr>"

lemma wf_P21: "wf_params P21"
  by (simp add: wf_params_def P21_def)

lemma wf_S21: "wf_state P21 S21"
  by (simp add: wf_state_def P21_def S21_def nxn_def nyn_def has_shape_def)

section \<open>The Picard iteration and the main cycle\<close>

text \<open>
  The solver of the main cycle: \<open>err = 1.\<close>, \<open>tol = 1e-14\<close>, \<open>kmax = 100\<close>, \<open>k = 0\<close>,
  \<open>xkrylov = guess\<close>, then \<open>while err > tol and k <= kmax\<close>. The loop state is the
  counter, the iterate and the error; the lines written by \<open>print(k, err)\<close> are
  collected in order. \<open>np.linalg.norm\<close> of a vector is its Euclidean norm. The error
  is a real: a \<open>NaN\<close> error, for which \<open>err > tol\<close> is false and the loop ends, is not
  modelled.
\<close>

definition tol :: real where
  "tol = 1 / 10 ^ 14"

definition kmax :: nat where
  "kmax = 100"

definition norm2 :: "real list \<Rightarrow> real" where
  "norm2 v = sqrt (sum_list (map (\<lambda>a. a\<^sup>2) v))"

function picard_loop ::
  "(real list \<Rightarrow> real list option) \<Rightarrow> nat \<Rightarrow> real list \<Rightarrow> real \<Rightarrow> (nat \<times> real) list
     \<Rightarrow> (nat \<times> real list \<times> real \<times> (nat \<times> real) list) option" where
  "picard_loop res k xkrylov err out =
     (if tol < err \<and> k \<le> kmax then do {
        let k = k + 1;
        let xkold = xkrylov;
        r \<leftarrow> res xkrylov;
        xkrylov \<leftarrow> ew1 (-) xkrylov r;
        d \<leftarrow> ew1 (-) xkrylov xkold;
        let err = norm2 d;
        picard_loop res k xkrylov err (out @ [(k, err)])
      } else Some (k, xkrylov, err, out))"
  by pat_completeness auto
termination
  by (relation "measure (\<lambda>(res, k, x, err, out). kmax + 1 - k)") auto

declare picard_loop.simps [simp del]

definition picard ::
  "params \<Rightarrow> metric \<Rightarrow> state \<Rightarrow> (nat \<times> real list \<times> real \<times> (nat \<times> real) list) option" where
  "picard P M S = do {
     guess \<leftarrow> phys_to_krylov P (fEx S) (fEy S) (fEz S) (pu S) (pv S) (pw S);
     picard_loop (residual P M S) 0 guess 1 []
   }"


text \<open>
  The rest of the cycle's body: the last iterate is decoded and committed. \<open>x += e\<close>
  adds in place, so the sum must have the shape of \<open>x\<close>.
\<close>

definition vec_iadd :: "real list \<Rightarrow> real list option \<Rightarrow> real list option" where
  "vec_iadd x e = do {
     y \<leftarrow> e;
     z \<leftarrow> ew1 (+) x y;
     if length z = length x then Some z else None
   }"

definition commit :: "params \<Rightarrow> metric \<Rightarrow> state \<Rightarrow> real list \<Rightarrow> state option" where
  "commit P M S sol = do {
     (Exnew, Eynew, Eznew, unew, vnew, wnew) \<leftarrow> krylov_to_phys P sol;
     gbar \<leftarrow> (if relativistic P then do {
         gnew \<leftarrow> vec_map sqrt (vec_add (vec_add
                   (vec_map (\<lambda>a. 1 + a) (Some (map (\<lambda>a. a\<^sup>2) unew)))
                   (Some (map (\<lambda>a. a\<^sup>2) vnew))) (Some (map (\<lambda>a. a\<^sup>2) wnew)));
         gold \<leftarrow> vec_map sqrt (vec_add (vec_add
                   (vec_map (\<lambda>a. 1 + a) (Some (map (\<lambda>a. a\<^sup>2) (pu S))))
                   (Some (map (\<lambda>a. a\<^sup>2) (pv S)))) (Some (map (\<lambda>a. a\<^sup>2) (pw S))));
         vec_map (\<lambda>a. a / 2) (vec_add (Some gold) (Some gnew)) }
       else Some (replicate (npart P) 1));
     ubar \<leftarrow> vec_map (\<lambda>a. a / 2) (vec_add (Some unew) (Some (pu S)));
     vbar \<leftarrow> vec_map (\<lambda>a. a / 2) (vec_add (Some vnew) (Some (pv S)));
     x \<leftarrow> vec_iadd (px S) (vec_map (\<lambda>a. a * dt P) (vec_div (Some ubar) (Some gbar)));
     y \<leftarrow> vec_iadd (py S) (vec_map (\<lambda>a. a * dt P) (vec_div (Some vbar) (Some gbar)));
     let x = map (\<lambda>a. py_fmod a (Lx P)) x;
     let y = map (\<lambda>a. py_fmod a (Ly P)) y;
     Exbar \<leftarrow> arr_map (\<lambda>a. a / 2) (arr_add (Some Exnew) (Some (fEx S)));
     Eybar \<leftarrow> arr_map (\<lambda>a. a / 2) (arr_add (Some Eynew) (Some (fEy S)));
     Ezbar \<leftarrow> arr_map (\<lambda>a. a / 2) (arr_add (Some Eznew) (Some (fEz S)));
     (curlE_x, curlE_y, curlE_z) \<leftarrow> curl P M Exbar Eybar Ezbar E_type;
     Bx \<leftarrow> arr_sub (Some (fBx S)) (arr_map (\<lambda>a. dt P * a) (Some curlE_x));
     By \<leftarrow> arr_sub (Some (fBy S)) (arr_map (\<lambda>a. dt P * a) (Some curlE_y));
     Bz \<leftarrow> arr_sub (Some (fBz S)) (arr_map (\<lambda>a. dt P * a) (Some curlE_z));
     Some (S\<lparr>fEx := Exnew, fEy := Eynew, fEz := Eznew, fBx := Bx, fBy := By, fBz := Bz,
             px := x, py := y, pu := unew, pv := vnew, pw := wnew\<rparr>)
   }"

text \<open>
  One pass of the main cycle: the guess is encoded from the current fields and
  velocities, the Picard loop runs, and its last iterate is committed. The result is the
  new state and the lines the loop printed; energies and plots are left out.
\<close>

definition cycle :: "params \<Rightarrow> metric \<Rightarrow> state \<Rightarrow> (state \<times> (nat \<times> real) list) option" where
  "cycle P M S = do {
     (k, sol, err, out) \<leftarrow> picard P M S;
     S' \<leftarrow> commit P M S sol;
     Some (S', out)
   }"

section \<open>Facts about the Picard iteration\<close>

lemma picard_loop_exit:
  "\<not> (tol < err \<and> k \<le> kmax) \<Longrightarrow> picard_loop res k x err out = Some (k, x, err, out)"
  by (subst picard_loop.simps) auto

lemma picard_loop_step:
  assumes "tol < err" "k \<le> kmax" "res x = Some r" "length r = length x"
  shows "picard_loop res k x err out =
           picard_loop res (k + 1) (map2 (-) x r) (norm2 (map2 (-) (map2 (-) x r) x))
             (out @ [(k + 1, norm2 (map2 (-) (map2 (-) x r) x))])"
  using assms by (subst picard_loop.simps) (simp add: ew1_same Let_def)

lemma viadd_expr:
  "length x = n \<Longrightarrow> length a = n \<Longrightarrow> length b = n \<Longrightarrow>
   vec_iadd x (vec_map (\<lambda>a. a * c) (vec_div (Some a) (Some b))) =
     Some (mk1 n (\<lambda>p. x ! p + a ! p / b ! p * c))"
  by (simp add: vec_iadd_def vec_map_def vec_div_def ew1_mk1 map_mk1 cong: mk1_bcong)

lemma commit_gbar:
  assumes "length un = n" "length vn = n" "length wn = n"
    "length u = n" "length v = n" "length w = n"
  shows "\<exists>gbar. (if rel then do {
         gnew \<leftarrow> vec_map sqrt (vec_add (vec_add
                   (vec_map (\<lambda>a. 1 + a) (Some (map (\<lambda>a. a\<^sup>2) un)))
                   (Some (map (\<lambda>a. a\<^sup>2) vn))) (Some (map (\<lambda>a. a\<^sup>2) wn)));
         gold \<leftarrow> vec_map sqrt (vec_add (vec_add
                   (vec_map (\<lambda>a. 1 + a) (Some (map (\<lambda>a. a\<^sup>2) u)))
                   (Some (map (\<lambda>a. a\<^sup>2) v))) (Some (map (\<lambda>a. a\<^sup>2) w)));
         vec_map (\<lambda>a. a / 2) (vec_add (Some gold) (Some gnew)) }
       else Some (replicate n 1)) = Some gbar \<and> length gbar = n"
  using assms by (cases rel) (simp_all add: vgamma_expr [of _ n] vhalf_expr [of _ n])

lemma commit_total:
  assumes wf: "wf_params P" and wm: "wf_metric P M" and ws: "wf_state P S"
    and len: "length sol = krylov_len P"
  shows "\<exists>Exnew Eynew Eznew unew vnew wnew S'.
    krylov_to_phys P sol = Some (Exnew, Eynew, Eznew, unew, vnew, wnew) \<and>
    commit P M S sol = Some S' \<and> wf_state P S' \<and>
    fEx S' = Exnew \<and> fEy S' = Eynew \<and> fEz S' = Eznew \<and>
    pu S' = unew \<and> pv S' = vnew \<and> pw S' = wnew \<and> pq S' = pq S \<and> pQM S' = pQM S"
proof -
  from wf have n: "0 < nxc P" "0 < nyc P" by (simp_all add: wf_params_def)
  from ws have s: "has_shape (fEx S) (nxn P) (nyc P)" "has_shape (fEy S) (nxc P) (nyn P)"
    "has_shape (fEz S) (nxc P) (nyc P)" "has_shape (fBx S) (nxc P) (nyn P)"
    "has_shape (fBy S) (nxn P) (nyc P)" "has_shape (fBz S) (nxn P) (nyn P)"
    and l: "length (px S) = npart P" "length (py S) = npart P" "length (pu S) = npart P"
    "length (pv S) = npart P" "length (pw S) = npart P" "length (pq S) = npart P"
    "length (pQM S) = npart P"
    by (simp_all add: wf_state_def)
  from krylov_to_phys_shapes [OF len] obtain Exnew Eynew Eznew unew vnew wnew where
    dec: "krylov_to_phys P sol = Some (Exnew, Eynew, Eznew, unew, vnew, wnew)"
    and sh: "has_shape Exnew (nxn P) (nyc P)" "has_shape Eynew (nxc P) (nyn P)"
      "has_shape Eznew (nxc P) (nyc P)"
    and ln: "length unew = npart P" "length vnew = npart P" "length wnew = npart P"
    by blast
  from commit_gbar [OF ln l(3,4,5), of "relativistic P"] obtain gbar where
    gb: "(if relativistic P then do {
         gnew \<leftarrow> vec_map sqrt (vec_add (vec_add
                   (vec_map (\<lambda>a. 1 + a) (Some (map (\<lambda>a. a\<^sup>2) unew)))
                   (Some (map (\<lambda>a. a\<^sup>2) vnew))) (Some (map (\<lambda>a. a\<^sup>2) wnew)));
         gold \<leftarrow> vec_map sqrt (vec_add (vec_add
                   (vec_map (\<lambda>a. 1 + a) (Some (map (\<lambda>a. a\<^sup>2) (pu S))))
                   (Some (map (\<lambda>a. a\<^sup>2) (pv S)))) (Some (map (\<lambda>a. a\<^sup>2) (pw S))));
         vec_map (\<lambda>a. a / 2) (vec_add (Some gold) (Some gnew)) }
       else Some (replicate (npart P) 1)) = Some gbar" and lg: "length gbar = npart P"
    by blast
  define ubar where "ubar = mk1 (npart P) (\<lambda>p. (unew ! p + pu S ! p) / 2)"
  define vbar where "vbar = mk1 (npart P) (\<lambda>p. (vnew ! p + pv S ! p) / 2)"
  have ub: "vec_map (\<lambda>a. a / 2) (vec_add (Some unew) (Some (pu S))) = Some ubar"
    and vb: "vec_map (\<lambda>a. a / 2) (vec_add (Some vnew) (Some (pv S))) = Some vbar"
    unfolding ubar_def vbar_def using ln l by (intro vhalf_expr; simp)+
  have lb: "length ubar = npart P" "length vbar = npart P"
    by (simp_all add: ubar_def vbar_def)
  define x where "x = mk1 (npart P) (\<lambda>p. px S ! p + ubar ! p / gbar ! p * dt P)"
  define y where "y = mk1 (npart P) (\<lambda>p. py S ! p + vbar ! p / gbar ! p * dt P)"
  have xe: "vec_iadd (px S) (vec_map (\<lambda>a. a * dt P) (vec_div (Some ubar) (Some gbar))) = Some x"
    and ye: "vec_iadd (py S) (vec_map (\<lambda>a. a * dt P) (vec_div (Some vbar) (Some gbar))) = Some y"
    unfolding x_def y_def using l lb lg by (intro viadd_expr; simp)+
  define Exbar where "Exbar = mk2 (nxn P) (nyc P) (\<lambda>i j. (get2 Exnew i j + get2 (fEx S) i j) / 2)"
  define Eybar where "Eybar = mk2 (nxc P) (nyn P) (\<lambda>i j. (get2 Eynew i j + get2 (fEy S) i j) / 2)"
  define Ezbar where "Ezbar = mk2 (nxc P) (nyc P) (\<lambda>i j. (get2 Eznew i j + get2 (fEz S) i j) / 2)"
  have Eb: "arr_map (\<lambda>a. a / 2) (arr_add (Some Exnew) (Some (fEx S))) = Some Exbar"
    "arr_map (\<lambda>a. a / 2) (arr_add (Some Eynew) (Some (fEy S))) = Some Eybar"
    "arr_map (\<lambda>a. a / 2) (arr_add (Some Eznew) (Some (fEz S))) = Some Ezbar"
    unfolding Exbar_def Eybar_def Ezbar_def using sh s by (intro half_expr; simp)+
  have Ebs: "has_shape Exbar (nxn P) (nyc P)" "has_shape Eybar (nxc P) (nyn P)"
    "has_shape Ezbar (nxc P) (nyc P)"
    by (simp_all add: Exbar_def Eybar_def Ezbar_def has_shape_mk2)
  from curl_shapes_E [OF n wm Ebs] obtain cx cy cz where
    cE: "curl P M Exbar Eybar Ezbar E_type = Some (cx, cy, cz)"
    and cs: "has_shape cx (nxc P) (nyn P)" "has_shape cy (nxn P) (nyc P)"
      "has_shape cz (nxn P) (nyn P)"
    by blast
  define Bx where "Bx = mk2 (nxc P) (nyn P) (\<lambda>i j. get2 (fBx S) i j - dt P * get2 cx i j)"
  define By where "By = mk2 (nxn P) (nyc P) (\<lambda>i j. get2 (fBy S) i j - dt P * get2 cy i j)"
  define Bz where "Bz = mk2 (nxn P) (nyn P) (\<lambda>i j. get2 (fBz S) i j - dt P * get2 cz i j)"
  have Bb: "arr_sub (Some (fBx S)) (arr_map (\<lambda>a. dt P * a) (Some cx)) = Some Bx"
    "arr_sub (Some (fBy S)) (arr_map (\<lambda>a. dt P * a) (Some cy)) = Some By"
    "arr_sub (Some (fBz S)) (arr_map (\<lambda>a. dt P * a) (Some cz)) = Some Bz"
    unfolding Bx_def By_def Bz_def using s cs by (intro bbar_expr; simp)+
  define S' where "S' = S\<lparr>fEx := Exnew, fEy := Eynew, fEz := Eznew, fBx := Bx, fBy := By,
    fBz := Bz, px := map (\<lambda>a. py_fmod a (Lx P)) x, py := map (\<lambda>a. py_fmod a (Ly P)) y,
    pu := unew, pv := vnew, pw := wnew\<rparr>"
  have com: "commit P M S sol = Some S'"
    unfolding commit_def S'_def
    by (simp only: dec gb ub vb xe ye Eb cE Bb bind.bind_lunit prod.case Let_def)
  have ws': "wf_state P S'"
    using sh ln l by (simp add: wf_state_def S'_def Bx_def By_def Bz_def has_shape_mk2 x_def y_def)
  show ?thesis
    using dec com ws' by (simp add: S'_def)
qed


section \<open>A cycle that does not converge\<close>

text \<open>
  On the configuration \<open>P21\<close>, \<open>S21\<close> with the flat metric the residual of an alternating
  \<open>Ez\<close> is twice that field, so the iteration flips its sign for ever.
\<close>

declare root_def [code del]

lemma guess_P21:
  "phys_to_krylov P21 (fEx S21) (fEy S21) (fEz S21) (pu S21) (pv S21) (pw S21) =
     Some [0, 0, 0, 0, 0, 0, 0, 1, - 1]"
  by code_simp

lemma residual_P21_even:
  "residual P21 (flat_metric P21) S21 [0, 0, 0, 0, 0, 0, 0, 1, - 1] =
     Some [0, 0, 0, 0, 0, 0, 0, 2, - 2]"
  by code_simp

lemma residual_P21_odd:
  "residual P21 (flat_metric P21) S21 [0, 0, 0, 0, 0, 0, 0, - 1, 1] =
     Some [0, 0, 0, 0, 0, 0, 0, - 2, 2]"
  by code_simp

lemma commit_P21:
  "commit P21 (flat_metric P21) S21 [0, 0, 0, 0, 0, 0, 0, - 1, 1] =
     Some (S21\<lparr>fEz := Arr2 2 1 [- 1, 1]\<rparr>)"
  by code_simp

lemma tol_sqrt8: "tol < sqrt 8"
  by (rule real_less_rsqrt) (simp add: tol_def power2_eq_square)


definition iterate21 :: "nat \<Rightarrow> real list" where
  "iterate21 k = (if even k then [0, 0, 0, 0, 0, 0, 0, 1, - 1] else [0, 0, 0, 0, 0, 0, 0, - 1, 1])"

lemma picard_loop_P21_step:
  assumes "tol < e" "k \<le> kmax"
  shows "picard_loop (residual P21 (flat_metric P21) S21) k (iterate21 k) e out =
           picard_loop (residual P21 (flat_metric P21) S21) (k + 1) (iterate21 (k + 1)) (sqrt 8)
             (out @ [(k + 1, sqrt 8)])"
proof (cases "even k")
  case True
  have "picard_loop (residual P21 (flat_metric P21) S21) k [0, 0, 0, 0, 0, 0, 0, 1, - 1] e out =
      picard_loop (residual P21 (flat_metric P21) S21) (k + 1) [0, 0, 0, 0, 0, 0, 0, - 1, 1]
        (sqrt 8) (out @ [(k + 1, sqrt 8)])"
    by (subst picard_loop_step [where res = "residual P21 (flat_metric P21) S21"
          and x = "[0, 0, 0, 0, 0, 0, 0, 1, - 1]", OF assms residual_P21_even])
      (simp_all add: norm2_def)
  with True show ?thesis by (simp add: iterate21_def)
next
  case False
  have "picard_loop (residual P21 (flat_metric P21) S21) k [0, 0, 0, 0, 0, 0, 0, - 1, 1] e out =
      picard_loop (residual P21 (flat_metric P21) S21) (k + 1) [0, 0, 0, 0, 0, 0, 0, 1, - 1]
        (sqrt 8) (out @ [(k + 1, sqrt 8)])"
    by (subst picard_loop_step [where res = "residual P21 (flat_metric P21) S21"
          and x = "[0, 0, 0, 0, 0, 0, 0, - 1, 1]", OF assms residual_P21_odd])
      (simp_all add: norm2_def)
  with False show ?thesis by (simp add: iterate21_def)
qed

lemma picard_loop_P21:
  assumes "tol < e" "k \<le> kmax + 1"
  shows "picard_loop (residual P21 (flat_metric P21) S21) k (iterate21 k) e out =
           Some (kmax + 1, iterate21 (kmax + 1), if k = kmax + 1 then e else sqrt 8,
                 out @ map (\<lambda>j. (j, sqrt 8)) [k + 1..<kmax + 2])"
  using assms
proof (induction "kmax + 1 - k" arbitrary: k e out)
  case 0
  then have "k = kmax + 1" by simp
  then show ?case by (simp add: picard_loop_exit)
next
  case (Suc m)
  then have k: "k \<le> kmax" by simp
  have m: "m = kmax + 1 - (k + 1)" using Suc.hyps(2) by simp
  have u: "[k + 1..<kmax + 2] = (k + 1) # [k + 1 + 1..<kmax + 2]"
    using k by (simp add: upt_conv_Cons)
  have "picard_loop (residual P21 (flat_metric P21) S21) k (iterate21 k) e out =
      picard_loop (residual P21 (flat_metric P21) S21) (k + 1) (iterate21 (k + 1)) (sqrt 8)
             (out @ [(k + 1, sqrt 8)])"
    by (rule picard_loop_P21_step [OF Suc.prems(1) k])
  also have "\<dots> = Some (kmax + 1, iterate21 (kmax + 1),
      if k + 1 = kmax + 1 then sqrt 8 else sqrt 8,
      (out @ [(k + 1, sqrt 8)]) @ map (\<lambda>j. (j, sqrt 8)) [k + 1 + 1..<kmax + 2])"
    using k by (intro Suc.hyps(1) [OF m tol_sqrt8]) simp
  finally show ?case unfolding u using k by (simp del: upt_Suc)
qed

lemma picard_P21:
  "picard P21 (flat_metric P21) S21 =
     Some (101, [0, 0, 0, 0, 0, 0, 0, - 1, 1], sqrt 8, zip [1..<102] (replicate 101 (sqrt 8)))"
proof -
  have "tol < 1" by (simp add: tol_def)
  from picard_loop_P21 [OF this, of 0 "[]"] show ?thesis
    by (simp add: picard_def guess_P21 iterate21_def kmax_def zip_replicate2)
qed

lemma cycle_P21:
  "cycle P21 (flat_metric P21) S21 =
     Some (S21\<lparr>fEz := Arr2 2 1 [- 1, 1]\<rparr>, zip [1..<102] (replicate 101 (sqrt 8)))"
  by (simp add: cycle_def picard_P21 commit_P21)

text \<open>
  C2. The Picard loop iterates \<open>x := x - residual x\<close> from the encoded guess and stops
  when the norm of the last update is at most \<open>tol\<close> or the counter has passed \<open>kmax\<close>.
  Its guard is \<open>k <= kmax\<close> with \<open>k\<close> counted from 0, so a solve that does not converge
  performs \<open>kmax + 1\<close> iterations: on \<open>P21\<close>, \<open>S21\<close> it runs 101 times, prints 101 lines
  and leaves with \<open>k = 101\<close> and an error of \<open>sqrt 8\<close>.
\<close>

theorem picard_runs_101_iterations:
  "picard P21 (flat_metric P21) S21 =
     Some (kmax + 1, [0, 0, 0, 0, 0, 0, 0, - 1, 1], sqrt 8,
           zip [1..<102] (replicate 101 (sqrt 8))) \<and>
   kmax + 1 = 101 \<and> length (zip [1..<102] (replicate 101 (sqrt 8))) = 101 \<and> tol < sqrt 8"
  by (simp add: picard_P21 kmax_def tol_sqrt8)


section \<open>The solver stage and the commit, for any residual\<close>

text \<open>
  The solver stage of the main cycle as the staggered script writes it:
  \<open>if NK_method: sol = newton_krylov(residual, guess, ...)\<close>, followed by a print that
  evaluates \<open>residual(sol)\<close>, \<open>elif Picard:\<close> the Picard loop; with neither flag set
  \<open>sol\<close> is unbound and the cycle raises. The first script has the Picard branch only.
  \<open>newton_krylov\<close> is SciPy's and is given as \<open>nk\<close>; it is \<open>None\<close> when the call raises,
  as it does with \<open>NoConvergence\<close> when the iteration does not converge. The residual
  and the commit are arguments, so that what is proved of the stage holds for whatever
  they compute or raise.
\<close>

definition solve ::
  "bool \<Rightarrow> bool \<Rightarrow> ((real list \<Rightarrow> real list option) \<Rightarrow> real list \<Rightarrow> real list option)
     \<Rightarrow> (real list \<Rightarrow> real list option) \<Rightarrow> real list
     \<Rightarrow> (real list \<times> (nat \<times> real) list) option" where
  "solve NK_method Picard nk res guess =
     (if NK_method then do {
        sol \<leftarrow> nk res guess;
        r \<leftarrow> res sol;
        Some (sol, [])
      } else if Picard then do {
        (k, sol, err, out) \<leftarrow> picard_loop res 0 guess 1 [];
        Some (sol, out)
      } else None)"

definition cycle_with ::
  "bool \<Rightarrow> bool \<Rightarrow> ((real list \<Rightarrow> real list option) \<Rightarrow> real list \<Rightarrow> real list option)
     \<Rightarrow> (real list \<Rightarrow> real list option) \<Rightarrow> (real list \<Rightarrow> 's option) \<Rightarrow> real list
     \<Rightarrow> ('s \<times> (nat \<times> real) list) option" where
  "cycle_with NK_method Picard nk res com guess = do {
     (sol, out) \<leftarrow> solve NK_method Picard nk res guess;
     S' \<leftarrow> com sol;
     Some (S', out)
   }"

lemma cycle_cycle_with:
  "cycle P M S = do {
     guess \<leftarrow> phys_to_krylov P (fEx S) (fEy S) (fEz S) (pu S) (pv S) (pw S);
     cycle_with False True nk (residual P M S) (commit P M S) guess
   }"
  by (simp add: cycle_def picard_def cycle_with_def solve_def split: Option.bind_splits)



section \<open>Geometry initialisation of the staggered script\<close>

text \<open>
  A 3 by 3 matrix, row by row. \<open>np.linalg.inv\<close> and \<open>np.linalg.det\<close> are NumPy's and
  are arguments \<open>linv\<close> and \<open>ldet\<close> of the model; \<open>linv\<close> is \<open>None\<close> when the call raises
  \<open>LinAlgError\<close>. \<open>inv3\<close> and \<open>det3\<close> are the exact inverse and determinant over the
  reals, where a matrix is singular when its determinant is zero.
\<close>

type_synonym mat3 = "(real \<times> real \<times> real) \<times> (real \<times> real \<times> real) \<times> (real \<times> real \<times> real)"

fun det3 :: "mat3 \<Rightarrow> real" where
  "det3 ((a, b, c), (d, e, f), (g, h, i)) =
     a * (e * i - f * h) - b * (d * i - f * g) + c * (d * h - e * g)"

fun inv3 :: "mat3 \<Rightarrow> mat3 option" where
  "inv3 ((a, b, c), (d, e, f), (g, h, i)) =
     (let D = det3 ((a, b, c), (d, e, f), (g, h, i)) in
      if D = 0 then None
      else Some (((e * i - f * h) / D, (c * h - b * i) / D, (b * f - c * e) / D),
                 ((f * g - d * i) / D, (a * i - c * g) / D, (c * d - a * f) / D),
                 ((d * h - e * g) / D, (b * g - a * h) / D, (a * e - b * d) / D)))"

text \<open>
  \<open>perturbed_inverse_jacobian_elements(x, y)\<close> with the module-level amplitude \<open>eps\<close> and
  the domain lengths.
\<close>

definition perturbed_inverse_jacobian_elements :: "real \<Rightarrow> params \<Rightarrow> real \<Rightarrow> real \<Rightarrow> mat3" where
  "perturbed_inverse_jacobian_elements eps P x y =
     ((1 + 2 * pi * eps * cos (2 * pi * x / Lx P) * sin (2 * pi * y / Ly P) / Lx P,
       2 * pi * eps * sin (2 * pi * x / Lx P) * cos (2 * pi * y / Ly P) / Ly P,
       0),
      (2 * pi * eps * cos (2 * pi * x / Lx P) * sin (2 * pi * y / Ly P) / Lx P,
       1 + 2 * pi * eps * sin (2 * pi * x / Lx P) * cos (2 * pi * y / Ly P) / Ly P,
       0),
      (0, 0, 1))"

text \<open>\<open>a[i, j] = v\<close> and \<open>a[i, j]\<close> for loop indices.\<close>

definition upd2 :: "'a arr2 \<Rightarrow> nat \<Rightarrow> nat \<Rightarrow> 'a \<Rightarrow> 'a arr2" where
  "upd2 a i j v = Arr2 (nrows a) (ncols a) ((dat a)[i * ncols a + j := v])"

definition py_set2 :: "'a arr2 \<Rightarrow> nat \<Rightarrow> nat \<Rightarrow> 'a \<Rightarrow> 'a arr2 option" where
  "py_set2 a i j v = (if i < nrows a \<and> j < ncols a then Some (upd2 a i j v) else None)"

definition py_at2 :: "'a arr2 \<Rightarrow> nat \<Rightarrow> nat \<Rightarrow> 'a option" where
  "py_at2 a i j = (if i < nrows a \<and> j < ncols a then Some (get2 a i j) else None)"

text \<open>
  The body of the double loop of \<open>define_geometry\<close> for one grid at the point \<open>(i, j)\<close>:
  the elements of the inverse Jacobian are stored, the matrix is inverted, and both
  determinants, the Jacobian and the metric tensor are stored. \<open>x\<close> and \<open>y\<close> are the
  physical coordinates of the grid.
\<close>

definition geometry_point ::
  "real \<Rightarrow> params \<Rightarrow> (mat3 \<Rightarrow> mat3 option) \<Rightarrow> (mat3 \<Rightarrow> real) \<Rightarrow> real arr2 \<Rightarrow> real arr2
     \<Rightarrow> nat \<Rightarrow> nat \<Rightarrow> grid_geom \<Rightarrow> grid_geom option" where
  "geometry_point eps P linv ldet x y i j G = do {
     xv \<leftarrow> py_at2 x i j;
     yv \<leftarrow> py_at2 y i j;
     let inverse_jacobian = perturbed_inverse_jacobian_elements eps P xv yv;
     let ((a11, a12, a13), (a21, a22, a23), (a31, a32, a33)) = inverse_jacobian;
     n11 \<leftarrow> py_set2 (j11 G) i j a11;  n12 \<leftarrow> py_set2 (j12 G) i j a12;
     n13 \<leftarrow> py_set2 (j13 G) i j a13;  n21 \<leftarrow> py_set2 (j21 G) i j a21;
     n22 \<leftarrow> py_set2 (j22 G) i j a22;  n23 \<leftarrow> py_set2 (j23 G) i j a23;
     n31 \<leftarrow> py_set2 (j31 G) i j a31;  n32 \<leftarrow> py_set2 (j32 G) i j a32;
     n33 \<leftarrow> py_set2 (j33 G) i j a33;
     jacobian \<leftarrow> linv inverse_jacobian;
     let ((b00, b01, b02), (b10, b11, b12), (b20, b21, b22)) = jacobian;
     nj \<leftarrow> py_set2 (jdet G) i j (ldet inverse_jacobian);
     nJ \<leftarrow> py_set2 (Jdet G) i j (ldet jacobian);
     m11 \<leftarrow> py_set2 (J11 G) i j b00;  m21 \<leftarrow> py_set2 (J21 G) i j b10;
     m31 \<leftarrow> py_set2 (J31 G) i j b20;  m12 \<leftarrow> py_set2 (J12 G) i j b01;
     m22 \<leftarrow> py_set2 (J22 G) i j b11;  m32 \<leftarrow> py_set2 (J32 G) i j b21;
     m13 \<leftarrow> py_set2 (J13 G) i j b02;  m23 \<leftarrow> py_set2 (J23 G) i j b12;
     m33 \<leftarrow> py_set2 (J33 G) i j b22;
     h11 \<leftarrow> py_set2 (g11 G) i j (b00 * b00 + b10 * b10 + b20 * b20);
     h21 \<leftarrow> py_set2 (g21 G) i j (b00 * b01 + b10 * b11 + b20 * b21);
     h31 \<leftarrow> py_set2 (g31 G) i j (b00 * b02 + b10 * b12 + b20 * b22);
     h12 \<leftarrow> py_set2 (g12 G) i j (b00 * b01 + b10 * b11 + b20 * b21);
     h22 \<leftarrow> py_set2 (g22 G) i j (b01 * b01 + b11 * b11 + b21 * b21);
     h32 \<leftarrow> py_set2 (g32 G) i j (b01 * b02 + b11 * b12 + b21 * b22);
     h13 \<leftarrow> py_set2 (g13 G) i j (b00 * b02 + b10 * b12 + b20 * b22);
     h23 \<leftarrow> py_set2 (g23 G) i j (b01 * b02 + b11 * b12 + b21 * b22);
     h33 \<leftarrow> py_set2 (g33 G) i j (b02 * b02 + b12 * b12 + b22 * b22);
     Some \<lparr>j11 = n11, j12 = n12, j13 = n13, j21 = n21, j22 = n22, j23 = n23,
           j31 = n31, j32 = n32, j33 = n33, jdet = nj, Jdet = nJ,
           J11 = m11, J12 = m12, J13 = m13, J21 = m21, J22 = m22, J23 = m23,
           J31 = m31, J32 = m32, J33 = m33,
           g11 = h11, g12 = h12, g13 = h13, g21 = h21, g22 = h22, g23 = h23,
           g31 = h31, g32 = h32, g33 = h33\<rparr>
   }"

text \<open>
  \<open>for i in range(np.shape(xi)[0]): for j in range(np.shape(xi)[1])\<close> over one grid of
  logical shape \<open>n\<close> by \<open>m\<close>.
\<close>

definition geometry_grid ::
  "real \<Rightarrow> params \<Rightarrow> (mat3 \<Rightarrow> mat3 option) \<Rightarrow> (mat3 \<Rightarrow> real) \<Rightarrow> nat \<Rightarrow> nat
     \<Rightarrow> real arr2 \<Rightarrow> real arr2 \<Rightarrow> grid_geom \<Rightarrow> grid_geom option" where
  "geometry_grid eps P linv ldet n m x y G =
     for_range (\<lambda>i. for_range (\<lambda>j. geometry_point eps P linv ldet x y i j) [0..<m]) [0..<n] G"

text \<open>
  The physical coordinates of the four grids. The script obtains them from
  \<open>cart_grid_calculator\<close>, a numerical minimisation; here they are given.
\<close>

record coords =
  xLR :: "real arr2"  yLR :: "real arr2"
  xUD :: "real arr2"  yUD :: "real arr2"
  xC :: "real arr2"  yC :: "real arr2"
  xN :: "real arr2"  yN :: "real arr2"

definition define_geometry ::
  "real \<Rightarrow> params \<Rightarrow> (mat3 \<Rightarrow> mat3 option) \<Rightarrow> (mat3 \<Rightarrow> real) \<Rightarrow> coords \<Rightarrow> geometry
     \<Rightarrow> geometry option" where
  "define_geometry eps P linv ldet X G = do {
     gLR \<leftarrow> geometry_grid eps P linv ldet (nxn P) (nyc P) (xLR X) (yLR X) (geom_LR G);
     gUD \<leftarrow> geometry_grid eps P linv ldet (nxc P) (nyn P) (xUD X) (yUD X) (geom_UD G);
     gC \<leftarrow> geometry_grid eps P linv ldet (nxc P) (nyc P) (xC X) (yC X) (geom_C G);
     gN \<leftarrow> geometry_grid eps P linv ldet (nxn P) (nyn P) (xN X) (yN X) (geom_N G);
     Some \<lparr>geom_LR = gLR, geom_UD = gUD, geom_C = gC, geom_N = gN\<rparr>
   }"


text \<open>
  \<open>if perturb:\<close> the geometry is computed from the module-level arrays, which hold
  the flat geometry; otherwise these are kept. This runs once, before the main cycle.
\<close>

definition init_geometry ::
  "bool \<Rightarrow> real \<Rightarrow> params \<Rightarrow> (mat3 \<Rightarrow> mat3 option) \<Rightarrow> (mat3 \<Rightarrow> real) \<Rightarrow> coords
     \<Rightarrow> geometry option" where
  "init_geometry perturb eps P linv ldet X =
     (if perturb then define_geometry eps P linv ldet X (flat_geometry P)
      else Some (flat_geometry P))"

text \<open>The inverse Jacobian at the grid point \<open>(i, j)\<close>.\<close>

definition point_matrix :: "real \<Rightarrow> params \<Rightarrow> real arr2 \<Rightarrow> real arr2 \<Rightarrow> nat \<Rightarrow> nat \<Rightarrow> mat3" where
  "point_matrix eps P x y i j =
     perturbed_inverse_jacobian_elements eps P (get2 x i j) (get2 y i j)"

text \<open>\<open>np.linalg.inv\<close> raises at some point of a grid of shape \<open>n\<close> by \<open>m\<close>.\<close>

definition singular_on ::
  "real \<Rightarrow> params \<Rightarrow> (mat3 \<Rightarrow> mat3 option) \<Rightarrow> nat \<Rightarrow> nat \<Rightarrow> real arr2 \<Rightarrow> real arr2 \<Rightarrow> bool" where
  "singular_on eps P linv n m x y = (\<exists>i<n. \<exists>j<m. linv (point_matrix eps P x y i j) = None)"

definition wf_coords :: "params \<Rightarrow> coords \<Rightarrow> bool" where
  "wf_coords P X =
     (has_shape (xLR X) (nxn P) (nyc P) \<and> has_shape (yLR X) (nxn P) (nyc P) \<and>
      has_shape (xUD X) (nxc P) (nyn P) \<and> has_shape (yUD X) (nxc P) (nyn P) \<and>
      has_shape (xC X) (nxc P) (nyc P) \<and> has_shape (yC X) (nxc P) (nyc P) \<and>
      has_shape (xN X) (nxn P) (nyn P) \<and> has_shape (yN X) (nxn P) (nyn P))"

definition geom_ok :: "nat \<Rightarrow> nat \<Rightarrow> grid_geom \<Rightarrow> bool" where
  "geom_ok n m G =
     (has_shape (j11 G) n m \<and> has_shape (j12 G) n m \<and> has_shape (j13 G) n m \<and>
      has_shape (j21 G) n m \<and> has_shape (j22 G) n m \<and> has_shape (j23 G) n m \<and>
      has_shape (j31 G) n m \<and> has_shape (j32 G) n m \<and> has_shape (j33 G) n m \<and>
      has_shape (jdet G) n m \<and> has_shape (Jdet G) n m \<and>
      has_shape (J11 G) n m \<and> has_shape (J12 G) n m \<and> has_shape (J13 G) n m \<and>
      has_shape (J21 G) n m \<and> has_shape (J22 G) n m \<and> has_shape (J23 G) n m \<and>
      has_shape (J31 G) n m \<and> has_shape (J32 G) n m \<and> has_shape (J33 G) n m \<and>
      has_shape (g11 G) n m \<and> has_shape (g12 G) n m \<and> has_shape (g13 G) n m \<and>
      has_shape (g21 G) n m \<and> has_shape (g22 G) n m \<and> has_shape (g23 G) n m \<and>
      has_shape (g31 G) n m \<and> has_shape (g32 G) n m \<and> has_shape (g33 G) n m)"

section \<open>Facts about the geometry initialisation\<close>

lemma det3_elements:
  "det3 (perturbed_inverse_jacobian_elements eps P x y) =
     1 + 2 * pi * eps * cos (2 * pi * x / Lx P) * sin (2 * pi * y / Ly P) / Lx P
       + 2 * pi * eps * sin (2 * pi * x / Lx P) * cos (2 * pi * y / Ly P) / Ly P"
  by (simp add: perturbed_inverse_jacobian_elements_def algebra_simps)

lemma inv3_None: "(inv3 A = None) = (det3 A = 0)"
  by (cases A rule: prod_cases3, case_tac a rule: prod_cases3, case_tac b rule: prod_cases3,
      case_tac c rule: prod_cases3) (simp add: Let_def)

lemma det3_inv3_elements:
  assumes "inv3 (perturbed_inverse_jacobian_elements eps P x y) = Some B"
  shows "det3 B = 1 / det3 (perturbed_inverse_jacobian_elements eps P x y)"
proof -
  obtain a b c d where
    e: "perturbed_inverse_jacobian_elements eps P x y = ((a, b, 0), (c, d, 0), (0, 0, 1))"
    by (simp add: perturbed_inverse_jacobian_elements_def)
  define D where "D = a * d - b * c"
  have dt: "det3 ((a, b, 0), (c, d, 0), (0, 0, 1)) = D"
    by (simp add: D_def)
  have D: "D \<noteq> 0"
    using assms unfolding e inv3.simps dt by (auto simp: Let_def split: if_splits)
  have B: "B = ((d / D, - b / D, 0), (- c / D, a / D, 0), (0, 0, 1))"
    using assms D unfolding e inv3.simps dt by (auto simp: Let_def D_def [symmetric])
  have "det3 B = (a * d - b * c) / (D * D)"
    unfolding B by (simp add: diff_divide_distrib mult.commute)
  also have "\<dots> = 1 / D"
    using D by (simp add: D_def [symmetric])
  finally show ?thesis
    unfolding e dt .
qed

lemma nrows_upd2 [simp]: "nrows (upd2 a i j v) = nrows a"
  and ncols_upd2 [simp]: "ncols (upd2 a i j v) = ncols a"
  and length_dat_upd2 [simp]: "length (dat (upd2 a i j v)) = length (dat a)"
  by (simp_all add: upd2_def)

lemma has_shape_upd2 [simp]: "has_shape (upd2 a i j v) n m = has_shape a n m"
  by (simp add: has_shape_def)

lemma get2_upd2:
  assumes "has_shape a n m" "i < n" "j < m" "i' < n" "j' < m"
  shows "get2 (upd2 a i j v) i' j' = (if i' = i \<and> j' = j then v else get2 a i' j')"
  using assms
  by (simp add: upd2_def get2_def has_shape_def idx_bound nth_list_update idx_inj)

lemma geometry_point_Some:
  assumes ok: "geom_ok n m G" and x: "has_shape x n m" and y: "has_shape y n m"
    and i: "i < n" and j: "j < m"
    and B: "linv (point_matrix eps P x y i j) = Some B"
  shows "\<exists>G'. geometry_point eps P linv ldet x y i j G = Some G' \<and> geom_ok n m G' \<and>
           jdet G' = upd2 (jdet G) i j (ldet (point_matrix eps P x y i j)) \<and>
           Jdet G' = upd2 (Jdet G) i j (ldet B)"
proof -
  obtain a11 a12 a13 a21 a22 a23 a31 a32 a33 where
    A: "perturbed_inverse_jacobian_elements eps P (get2 x i j) (get2 y i j) =
          ((a11, a12, a13), (a21, a22, a23), (a31, a32, a33))"
    by (simp add: perturbed_inverse_jacobian_elements_def)
  obtain b00 b01 b02 b10 b11 b12 b20 b21 b22 where
    Be: "B = ((b00, b01, b02), (b10, b11, b12), (b20, b21, b22))"
    by (metis prod_cases3)
  show ?thesis
    using ok x y i j B [unfolded point_matrix_def A Be]
    unfolding geometry_point_def geom_ok_def has_shape_def point_matrix_def A Be
    by (simp add: py_at2_def py_set2_def A Let_def)
qed

lemma geometry_point_None:
  assumes x: "has_shape x n m" and y: "has_shape y n m" and i: "i < n" and j: "j < m"
    and d: "linv (point_matrix eps P x y i j) = None"
  shows "geometry_point eps P linv ldet x y i j G = None"
  using x y i j d
  unfolding geometry_point_def point_matrix_def
  by (simp add: py_at2_def has_shape_def Let_def split: prod.splits Option.bind_splits)

lemma for_range_from:
  assumes step: "\<And>k s. k < n \<Longrightarrow> I k s \<Longrightarrow> \<exists>s'. body k s = Some s' \<and> I (Suc k) s'"
  shows "k \<le> n \<Longrightarrow> I k s \<Longrightarrow> \<exists>s'. for_range body [k..<n] s = Some s' \<and> I n s'"
proof (induction "n - k" arbitrary: k s)
  case 0
  then show ?case by simp
next
  case (Suc d)
  then have k: "k < n" by simp
  from step [OF k Suc.prems(2)] obtain s1 where s1: "body k s = Some s1" "I (Suc k) s1"
    by blast
  have "d = n - Suc k" using Suc.hyps(2) by simp
  from Suc.hyps(1) [OF this _ s1(2)] k obtain s' where
    "for_range body [Suc k..<n] s1 = Some s'" "I n s'"
    by auto
  then show ?case
    using k s1(1) by (simp add: upt_conv_Cons)
qed

lemma for_range_upto:
  assumes "I 0 s"
    and "\<And>k s. k < n \<Longrightarrow> I k s \<Longrightarrow> \<exists>s'. body k s = Some s' \<and> I (Suc k) s'"
  shows "\<exists>s'. for_range body [0..<n] s = Some s' \<and> I n s'"
  using for_range_from [where I = I and body = body and n = n and k = 0 and s = s] assms
  by blast

lemma for_range_None:
  assumes "k \<in> set ks" "\<And>s. body k s = None"
  shows "for_range body ks s = None"
  using assms(1)
proof (induction ks arbitrary: s)
  case Nil
  then show ?case by simp
next
  case (Cons a ks)
  then show ?case
    by (cases "a = k") (auto simp: assms(2) split: option.splits)
qed

text \<open>
  After the points before linear position \<open>K\<close> of the row-major sweep, both
  determinants are stored at those points.
\<close>

definition swept ::
  "real \<Rightarrow> params \<Rightarrow> (mat3 \<Rightarrow> mat3 option) \<Rightarrow> (mat3 \<Rightarrow> real) \<Rightarrow> nat \<Rightarrow> nat \<Rightarrow> real arr2 \<Rightarrow> real arr2
     \<Rightarrow> nat \<Rightarrow> grid_geom \<Rightarrow> bool" where
  "swept eps P linv ldet n m x y K G =
     (geom_ok n m G \<and>
      (\<forall>k<K. get2 (jdet G) (k div m) (k mod m) =
               ldet (point_matrix eps P x y (k div m) (k mod m)) \<and>
             get2 (Jdet G) (k div m) (k mod m) =
               ldet (the (linv (point_matrix eps P x y (k div m) (k mod m))))))"

lemma swept_step:
  assumes x: "has_shape x n m" and y: "has_shape y n m" and i: "i < n" and j: "j < m"
    and d: "linv (point_matrix eps P x y i j) \<noteq> None"
    and sw: "swept eps P linv ldet n m x y (i * m + j) G"
  shows "\<exists>G'. geometry_point eps P linv ldet x y i j G = Some G' \<and>
              swept eps P linv ldet n m x y (i * m + Suc j) G'"
proof -
  from sw have ok: "geom_ok n m G" by (simp add: swept_def)
  from d obtain B where B: "linv (point_matrix eps P x y i j) = Some B"
    by auto
  from geometry_point_Some [where linv = linv and ldet = ldet and eps = eps and P = P,
      OF ok x y i j B] obtain G' where
    G': "geometry_point eps P linv ldet x y i j G = Some G'" and ok': "geom_ok n m G'"
    and jd: "jdet G' = upd2 (jdet G) i j (ldet (point_matrix eps P x y i j))"
    and Jd: "Jdet G' = upd2 (Jdet G) i j (ldet (the (linv (point_matrix eps P x y i j))))"
    unfolding B by auto
  from ok have sj: "has_shape (jdet G) n m" "has_shape (Jdet G) n m"
    by (simp_all add: geom_ok_def)
  have "get2 (jdet G') (k div m) (k mod m) =
          ldet (point_matrix eps P x y (k div m) (k mod m)) \<and>
        get2 (Jdet G') (k div m) (k mod m) =
          ldet (the (linv (point_matrix eps P x y (k div m) (k mod m))))"
    if k: "k < i * m + Suc j" for k
  proof (cases "k = i * m + j")
    case True
    then have "k div m = i" "k mod m = j" using j by simp_all
    then show ?thesis
      using sj i j by (simp add: jd Jd get2_upd2 [of _ n m])
  next
    case False
    with k have kl: "k < i * m + j" by simp
    also have "\<dots> < n * m" by (rule idx_bound [OF i j])
    finally have b: "k div m < n" "k mod m < m"
      using j by (simp_all add: div_mod_bound)
    have ne: "\<not> (k div m = i \<and> k mod m = j)"
    proof
      assume "k div m = i \<and> k mod m = j"
      then have "k = i * m + j" by (metis div_mult_mod_eq)
      with False show False by simp
    qed
    from sw kl have
      "get2 (jdet G) (k div m) (k mod m) =
          ldet (point_matrix eps P x y (k div m) (k mod m)) \<and>
       get2 (Jdet G) (k div m) (k mod m) =
          ldet (the (linv (point_matrix eps P x y (k div m) (k mod m))))"
      by (simp add: swept_def)
    then show ?thesis
      using sj i j b ne by (simp add: jd Jd get2_upd2 [of _ n m])
  qed
  with G' ok' show ?thesis
    by (auto simp: swept_def)
qed


lemma geometry_grid_Some:
  assumes x: "has_shape x n m" and y: "has_shape y n m" and ok: "geom_ok n m G"
    and nz: "\<not> singular_on eps P linv n m x y"
  shows "\<exists>G'. geometry_grid eps P linv ldet n m x y G = Some G' \<and> geom_ok n m G' \<and>
           (\<forall>i<n. \<forall>j<m. get2 (jdet G') i j = ldet (point_matrix eps P x y i j) \<and>
                          get2 (Jdet G') i j = ldet (the (linv (point_matrix eps P x y i j))))"
proof -
  have d: "linv (point_matrix eps P x y i j) \<noteq> None" if "i < n" "j < m" for i j
    using nz that by (auto simp: singular_on_def)
  have row: "\<exists>G'. for_range (\<lambda>j. geometry_point eps P linv ldet x y i j) [0..<m] G = Some G' \<and>
                  swept eps P linv ldet n m x y (Suc i * m) G'"
    if i: "i < n" and sw: "swept eps P linv ldet n m x y (i * m) G" for i G
  proof -
    have "\<exists>G'. for_range (\<lambda>j. geometry_point eps P linv ldet x y i j) [0..<m] G = Some G' \<and>
               swept eps P linv ldet n m x y (i * m + m) G'"
    proof (rule for_range_upto [where I = "\<lambda>j. swept eps P linv ldet n m x y (i * m + j)"])
      show "swept eps P linv ldet n m x y (i * m + 0) G"
        using sw by simp
    next
      fix j G
      assume "j < m" "swept eps P linv ldet n m x y (i * m + j) G"
      then show "\<exists>G'. geometry_point eps P linv ldet x y i j G = Some G' \<and>
                      swept eps P linv ldet n m x y (i * m + Suc j) G'"
        by (intro swept_step [where linv = linv and eps = eps and P = P, OF x y i _ d [OF i]])
    qed
    then show ?thesis by (simp add: add.commute)
  qed
  have "\<exists>G'. for_range (\<lambda>i. for_range (\<lambda>j. geometry_point eps P linv ldet x y i j) [0..<m])
                [0..<n] G = Some G' \<and> swept eps P linv ldet n m x y (n * m) G'"
  proof (rule for_range_upto [where I = "\<lambda>i. swept eps P linv ldet n m x y (i * m)"])
    show "swept eps P linv ldet n m x y (0 * m) G"
      using ok by (simp add: swept_def)
  next
    fix i G
    assume "i < n" "swept eps P linv ldet n m x y (i * m) G"
    then show "\<exists>G'. for_range (\<lambda>j. geometry_point eps P linv ldet x y i j) [0..<m] G = Some G' \<and>
                    swept eps P linv ldet n m x y (Suc i * m) G'"
      by (rule row)
  qed
  then obtain G' where G': "geometry_grid eps P linv ldet n m x y G = Some G'"
    and sw: "swept eps P linv ldet n m x y (n * m) G'"
    by (auto simp: geometry_grid_def)
  have "get2 (jdet G') i j = ldet (point_matrix eps P x y i j) \<and>
        get2 (Jdet G') i j = ldet (the (linv (point_matrix eps P x y i j)))"
    if i: "i < n" and j: "j < m" for i j
  proof -
    have "i * m + j < n * m" by (rule idx_bound [OF i j])
    with sw have
      "get2 (jdet G') ((i * m + j) div m) ((i * m + j) mod m) =
         ldet (point_matrix eps P x y ((i * m + j) div m) ((i * m + j) mod m)) \<and>
       get2 (Jdet G') ((i * m + j) div m) ((i * m + j) mod m) =
         ldet (the (linv (point_matrix eps P x y ((i * m + j) div m) ((i * m + j) mod m))))"
      unfolding swept_def by blast
    then show ?thesis using j by simp
  qed
  with G' sw show ?thesis
    by (auto simp: swept_def)
qed

lemma geometry_grid_None:
  assumes x: "has_shape x n m" and y: "has_shape y n m"
    and sg: "singular_on eps P linv n m x y"
  shows "geometry_grid eps P linv ldet n m x y G = None"
proof -
  from sg obtain i j where i: "i < n" and j: "j < m"
    and d: "linv (point_matrix eps P x y i j) = None"
    by (auto simp: singular_on_def)
  have "for_range (\<lambda>j. geometry_point eps P linv ldet x y i j) [0..<m] G = None" for G
    by (rule for_range_None [where k = j
          and body = "\<lambda>j. geometry_point eps P linv ldet x y i j"])
      (simp_all add: j
        geometry_point_None [where linv = linv and eps = eps and P = P, OF x y i j d])
  then show ?thesis
    unfolding geometry_grid_def
    by (intro for_range_None [where k = i
          and body = "\<lambda>i. for_range (\<lambda>j. geometry_point eps P linv ldet x y i j) [0..<m]"])
      (simp_all add: i)
qed

text \<open>
  Both determinants are stored at every point of a grid, and \<open>np.linalg.inv\<close> raises at
  some point of one of the four grids.
\<close>

definition dets_stored ::
  "real \<Rightarrow> params \<Rightarrow> (mat3 \<Rightarrow> mat3 option) \<Rightarrow> (mat3 \<Rightarrow> real) \<Rightarrow> nat \<Rightarrow> nat \<Rightarrow> real arr2 \<Rightarrow> real arr2
     \<Rightarrow> grid_geom \<Rightarrow> bool" where
  "dets_stored eps P linv ldet n m x y G =
     (\<forall>i<n. \<forall>j<m. get2 (jdet G) i j = ldet (point_matrix eps P x y i j) \<and>
                    get2 (Jdet G) i j = ldet (the (linv (point_matrix eps P x y i j))))"

definition singular_somewhere :: "real \<Rightarrow> params \<Rightarrow> (mat3 \<Rightarrow> mat3 option) \<Rightarrow> coords \<Rightarrow> bool" where
  "singular_somewhere eps P linv X =
     (singular_on eps P linv (nxn P) (nyc P) (xLR X) (yLR X) \<or>
      singular_on eps P linv (nxc P) (nyn P) (xUD X) (yUD X) \<or>
      singular_on eps P linv (nxc P) (nyc P) (xC X) (yC X) \<or>
      singular_on eps P linv (nxn P) (nyn P) (xN X) (yN X))"

text \<open>
  The physical coordinates of the configuration \<open>P21\<close>: at every point of its four grids
  the perturbation of the mapping vanishes, so they are the logical coordinates.
\<close>

definition X21 :: coords where
  "X21 = \<lparr>xLR = Arr2 3 1 [0, 1, 2], yLR = Arr2 3 1 [1 / 2, 1 / 2, 1 / 2],
          xUD = Arr2 2 2 [1 / 2, 1 / 2, 3 / 2, 3 / 2], yUD = Arr2 2 2 [0, 1, 0, 1],
          xC = Arr2 2 1 [1 / 2, 3 / 2], yC = Arr2 2 1 [1 / 2, 1 / 2],
          xN = Arr2 3 2 [0, 0, 1, 1, 2, 2], yN = Arr2 3 2 [0, 1, 0, 1, 0, 1]\<rparr>"

lemma geom_ok_flat: "geom_ok n m (flat_grid n m)"
  by (simp add: geom_ok_def flat_grid_def has_shape_def ones2_def zeros2_def)

lemma wf_X21: "wf_coords P21 X21"
  by (simp add: wf_coords_def P21_def X21_def nxn_def nyn_def)

lemma sin_3pi2: "sin (pi * 3 / 2) = - 1" "cos (pi * 3 / 2) = 0"
  using sin_3over2_pi cos_3over2_pi by (simp_all add: mult.commute)

lemma point_det_P21:
  "det3 (point_matrix (1 / 2) P21 x y i j) =
     1 + pi * cos (pi * get2 x i j) * sin (2 * pi * get2 y i j) / 2
       + pi * sin (pi * get2 x i j) * cos (2 * pi * get2 y i j)"
  by (simp add: point_matrix_def det3_elements P21_def)

lemma pi_neq_1: "1 - pi \<noteq> 0" "1 + pi \<noteq> 0" "1 - pi < 0"
  using pi_ge_two by simp_all

lemma dims_P21:
  "nxc P21 = Suc (Suc 0)" "nyc P21 = Suc 0" "nxn P21 = Suc (Suc (Suc 0))"
  "nyn P21 = Suc (Suc 0)"
  by (simp_all add: P21_def nxn_def nyn_def)

lemma not_singular_X21:
  "\<not> singular_on (1 / 2) P21 inv3 (nxn P21) (nyc P21) (xLR X21) (yLR X21)"
  "\<not> singular_on (1 / 2) P21 inv3 (nxc P21) (nyn P21) (xUD X21) (yUD X21)"
  "\<not> singular_on (1 / 2) P21 inv3 (nxc P21) (nyc P21) (xC X21) (yC X21)"
  "\<not> singular_on (1 / 2) P21 inv3 (nxn P21) (nyn P21) (xN X21) (yN X21)"
  unfolding singular_on_def inv3_None dims_P21 Ex_less_Suc point_det_P21
  using pi_neq_1
  by (simp_all add: X21_def get2_def sin_3pi2)


lemma init_geometry_Some:
  assumes wf: "wf_coords P X" and nz: "\<not> singular_somewhere eps P linv X"
  shows "\<exists>G. init_geometry True eps P linv ldet X = Some G \<and>
           dets_stored eps P linv ldet (nxn P) (nyc P) (xLR X) (yLR X) (geom_LR G) \<and>
           dets_stored eps P linv ldet (nxc P) (nyn P) (xUD X) (yUD X) (geom_UD G) \<and>
           dets_stored eps P linv ldet (nxc P) (nyc P) (xC X) (yC X) (geom_C G) \<and>
           dets_stored eps P linv ldet (nxn P) (nyn P) (xN X) (yN X) (geom_N G)"
proof -
  from wf have s: "has_shape (xLR X) (nxn P) (nyc P)" "has_shape (yLR X) (nxn P) (nyc P)"
    "has_shape (xUD X) (nxc P) (nyn P)" "has_shape (yUD X) (nxc P) (nyn P)"
    "has_shape (xC X) (nxc P) (nyc P)" "has_shape (yC X) (nxc P) (nyc P)"
    "has_shape (xN X) (nxn P) (nyn P)" "has_shape (yN X) (nxn P) (nyn P)"
    by (simp_all add: wf_coords_def)
  from nz have z: "\<not> singular_on eps P linv (nxn P) (nyc P) (xLR X) (yLR X)"
    "\<not> singular_on eps P linv (nxc P) (nyn P) (xUD X) (yUD X)"
    "\<not> singular_on eps P linv (nxc P) (nyc P) (xC X) (yC X)"
    "\<not> singular_on eps P linv (nxn P) (nyn P) (xN X) (yN X)"
    by (simp_all add: singular_somewhere_def)
  from geometry_grid_Some [OF s(1,2) geom_ok_flat z(1), of ldet] obtain gLR where
    LR: "geometry_grid eps P linv ldet (nxn P) (nyc P) (xLR X) (yLR X)
           (flat_grid (nxn P) (nyc P)) = Some gLR"
    "dets_stored eps P linv ldet (nxn P) (nyc P) (xLR X) (yLR X) gLR"
    unfolding dets_stored_def by blast
  from geometry_grid_Some [OF s(3,4) geom_ok_flat z(2), of ldet] obtain gUD where
    UD: "geometry_grid eps P linv ldet (nxc P) (nyn P) (xUD X) (yUD X)
           (flat_grid (nxc P) (nyn P)) = Some gUD"
    "dets_stored eps P linv ldet (nxc P) (nyn P) (xUD X) (yUD X) gUD"
    unfolding dets_stored_def by blast
  from geometry_grid_Some [OF s(5,6) geom_ok_flat z(3), of ldet] obtain gC where
    C: "geometry_grid eps P linv ldet (nxc P) (nyc P) (xC X) (yC X)
          (flat_grid (nxc P) (nyc P)) = Some gC"
    "dets_stored eps P linv ldet (nxc P) (nyc P) (xC X) (yC X) gC"
    unfolding dets_stored_def by blast
  from geometry_grid_Some [OF s(7,8) geom_ok_flat z(4), of ldet] obtain gN where
    N: "geometry_grid eps P linv ldet (nxn P) (nyn P) (xN X) (yN X)
          (flat_grid (nxn P) (nyn P)) = Some gN"
    "dets_stored eps P linv ldet (nxn P) (nyn P) (xN X) (yN X) gN"
    unfolding dets_stored_def by blast
  have "init_geometry True eps P linv ldet X =
          Some \<lparr>geom_LR = gLR, geom_UD = gUD, geom_C = gC, geom_N = gN\<rparr>"
    by (simp add: init_geometry_def define_geometry_def flat_geometry_def LR UD C N)
  with LR(2) UD(2) C(2) N(2) show ?thesis by simp
qed

lemma init_geometry_None:
  assumes wf: "wf_coords P X" and sg: "singular_somewhere eps P linv X"
  shows "init_geometry True eps P linv ldet X = None"
proof -
  from wf have s: "has_shape (xLR X) (nxn P) (nyc P)" "has_shape (yLR X) (nxn P) (nyc P)"
    "has_shape (xUD X) (nxc P) (nyn P)" "has_shape (yUD X) (nxc P) (nyn P)"
    "has_shape (xC X) (nxc P) (nyc P)" "has_shape (yC X) (nxc P) (nyc P)"
    "has_shape (xN X) (nxn P) (nyn P)" "has_shape (yN X) (nxn P) (nyn P)"
    by (simp_all add: wf_coords_def)
  from sg consider
    "singular_on eps P linv (nxn P) (nyc P) (xLR X) (yLR X)" |
    "singular_on eps P linv (nxc P) (nyn P) (xUD X) (yUD X)" |
    "singular_on eps P linv (nxc P) (nyc P) (xC X) (yC X)" |
    "singular_on eps P linv (nxn P) (nyn P) (xN X) (yN X)"
    by (auto simp: singular_somewhere_def)
  then show ?thesis
  proof cases
    case 1
    show ?thesis
      by (simp add: init_geometry_def define_geometry_def geometry_grid_None [OF s(1,2) 1])
  next
    case 2
    show ?thesis
      by (simp add: init_geometry_def define_geometry_def geometry_grid_None [OF s(3,4) 2]
          split: Option.bind_splits)
  next
    case 3
    show ?thesis
      by (simp add: init_geometry_def define_geometry_def geometry_grid_None [OF s(5,6) 3]
          split: Option.bind_splits)
  next
    case 4
    show ?thesis
      by (simp add: init_geometry_def define_geometry_def geometry_grid_None [OF s(7,8) 4]
          split: Option.bind_splits)
  qed
qed

lemma not_singular_somewhere_X21: "\<not> singular_somewhere (1 / 2) P21 inv3 X21"
  by (simp add: singular_somewhere_def not_singular_X21)

text \<open>
  C6, as the claim states it, fails: with \<open>eps = 1/2\<close> on a domain of length 2 by 1
  and the exact inverse and determinant, the determinant of the inverse Jacobian at the
  first cell centre is \<open>1 - pi\<close>, which is negative, and so is the Jacobian determinant
  \<open>1 / (1 - pi)\<close>; the initialisation returns and stores both.
\<close>

theorem init_geometry_accepts_negative_determinant:
  "init_geometry True (1 / 2) P21 inv3 det3 X21 \<noteq> None \<and>
   get2 (jdet (geom_C (the (init_geometry True (1 / 2) P21 inv3 det3 X21)))) 0 0 = 1 - pi \<and>
   get2 (Jdet (geom_C (the (init_geometry True (1 / 2) P21 inv3 det3 X21)))) 0 0
     = 1 / (1 - pi) \<and>
   1 - pi < 0"
proof -
  from init_geometry_Some [OF wf_X21 not_singular_somewhere_X21, of det3] obtain G where
    G: "init_geometry True (1 / 2) P21 inv3 det3 X21 = Some G"
    and C: "dets_stored (1 / 2) P21 inv3 det3 (nxc P21) (nyc P21) (xC X21) (yC X21) (geom_C G)"
    by blast
  have d: "det3 (point_matrix (1 / 2) P21 (xC X21) (yC X21) 0 0) = 1 - pi"
    unfolding point_det_P21 by (simp add: X21_def get2_def)
  with pi_neq_1(1) obtain B where
    B: "inv3 (point_matrix (1 / 2) P21 (xC X21) (yC X21) 0 0) = Some B"
    using inv3_None [of "point_matrix (1 / 2) P21 (xC X21) (yC X21) 0 0"] by auto
  have dB: "det3 B = 1 / (1 - pi)"
    using det3_inv3_elements [OF B [unfolded point_matrix_def]] d
    by (simp add: point_matrix_def)
  from C have "get2 (jdet (geom_C G)) 0 0 = det3 (point_matrix (1 / 2) P21 (xC X21) (yC X21) 0 0) \<and>
      get2 (Jdet (geom_C G)) 0 0 =
        det3 (the (inv3 (point_matrix (1 / 2) P21 (xC X21) (yC X21) 0 0)))"
    by (simp add: dets_stored_def dims_P21)
  with G d B dB pi_neq_1(3) show ?thesis by simp
qed

text \<open>
  C6, amended. With perturbation switched on, the geometry initialisation aborts exactly
  when \<open>np.linalg.inv\<close> raises at some point of one of the four grids, which it does
  for a singular inverse Jacobian. Otherwise it returns, whatever the sign of the
  determinants, and stores at every grid point what \<open>np.linalg.det\<close> returns for the
  inverse Jacobian and for its inverse. With perturbation switched off nothing is
  computed and the flat geometry is kept.
\<close>

theorem init_geometry_aborts_iff_singular:
  assumes "wf_coords P X"
  shows "(init_geometry True eps P linv ldet X = None) = singular_somewhere eps P linv X \<and>
         (\<not> singular_somewhere eps P linv X \<longrightarrow>
           (\<exists>G. init_geometry True eps P linv ldet X = Some G \<and>
             dets_stored eps P linv ldet (nxn P) (nyc P) (xLR X) (yLR X) (geom_LR G) \<and>
             dets_stored eps P linv ldet (nxc P) (nyn P) (xUD X) (yUD X) (geom_UD G) \<and>
             dets_stored eps P linv ldet (nxc P) (nyc P) (xC X) (yC X) (geom_C G) \<and>
             dets_stored eps P linv ldet (nxn P) (nyn P) (xN X) (yN X) (geom_N G))) \<and>
         init_geometry False eps P linv ldet X = Some (flat_geometry P)"
proof (intro conjI impI)
  show "(init_geometry True eps P linv ldet X = None) = singular_somewhere eps P linv X"
    using init_geometry_None [OF assms, of eps linv ldet]
      init_geometry_Some [OF assms, of eps linv ldet]
    by (cases "singular_somewhere eps P linv X") auto
next
  assume "\<not> singular_somewhere eps P linv X"
  then show "\<exists>G. init_geometry True eps P linv ldet X = Some G \<and>
             dets_stored eps P linv ldet (nxn P) (nyc P) (xLR X) (yLR X) (geom_LR G) \<and>
             dets_stored eps P linv ldet (nxc P) (nyn P) (xUD X) (yUD X) (geom_UD G) \<and>
             dets_stored eps P linv ldet (nxc P) (nyc P) (xC X) (yC X) (geom_C G) \<and>
             dets_stored eps P linv ldet (nxn P) (nyn P) (xN X) (yN X) (geom_N G)"
    by (rule init_geometry_Some [OF assms])
next
  show "init_geometry False eps P linv ldet X = Some (flat_geometry P)"
    by (simp add: init_geometry_def)
qed

theorem init_geometry_aborts_iff_singular_witness:
  "wf_coords P21 X21 \<and> \<not> singular_somewhere (1 / 2) P21 inv3 X21 \<and>
   init_geometry True (1 / 2) P21 inv3 det3 X21 \<noteq> None \<and>
   dets_stored (1 / 2) P21 inv3 det3 (nxc P21) (nyc P21) (xC X21) (yC X21)
     (geom_C (the (init_geometry True (1 / 2) P21 inv3 det3 X21))) \<and>
   singular_somewhere (1 / 2) P21 (\<lambda>A. None) X21 \<and>
   init_geometry True (1 / 2) P21 (\<lambda>A. None) det3 X21 = None"
proof -
  have sg: "singular_somewhere (1 / 2) P21 (\<lambda>A. None) X21"
    by (auto simp: singular_somewhere_def singular_on_def dims_P21)
  show ?thesis
    using init_geometry_aborts_iff_singular [OF wf_X21, of "1 / 2" inv3 det3]
      init_geometry_aborts_iff_singular [OF wf_X21, of "1 / 2" "\<lambda>A. None" det3]
      wf_X21 not_singular_somewhere_X21 sg
    by auto
qed

end
